(* ===== verification/Prelude.thy ===== *)
theory Prelude
  imports Main "HOL-Library.Word"
begin

text \<open>
  Shared vocabulary of the development: the type synonyms of the model (instants, signed 64-bit
  integers), the collections of facts the component theories fill, and the relational table the
  store is made of.  A table is the list of its rows in insertion order; a row carries its own
  primary key, which is what \<^verbatim>\<open>SELECT ... WHERE pk = ?\<close>, \<^verbatim>\<open>INSERT\<close> and
  \<^verbatim>\<open>UPDATE ... WHERE pk = ? AND ...\<close> are expressed over.
\<close>

section \<open>Types and collections\<close>

text \<open>An instant of \<^verbatim>\<open>time.Time\<close>: nanoseconds since the Unix epoch.\<close>

type_synonym instant = int

text \<open>Go's \<^verbatim>\<open>int64\<close>, read as two's complement by \<open>sint\<close>.\<close>

type_synonym int64 = "64 word"

named_theorems table_simps \<open>lookup, insertion and update of the relational tables\<close>
named_theorems store_defs \<open>definitions of the store operations\<close>
named_theorems wire_defs \<open>definitions of the message builders\<close>
named_theorems run_simps \<open>evaluation of the sequential runs\<close>

section \<open>Relational tables\<close>

definition select_row :: "('r \<Rightarrow> string) \<Rightarrow> string \<Rightarrow> 'r list \<Rightarrow> 'r option" where
  "select_row key k rows = find (\<lambda>r. key r = k) rows"

text \<open>\<^verbatim>\<open>INSERT\<close>: a duplicate primary key violates the table's constraint.\<close>

definition insert_row :: "('r \<Rightarrow> string) \<Rightarrow> 'r \<Rightarrow> 'r list \<Rightarrow> 'r list option" where
  "insert_row key r rows = (case select_row key (key r) rows of
     None \<Rightarrow> Some (rows @ [r]) | Some _ \<Rightarrow> None)"

text \<open>\<^verbatim>\<open>UPDATE ... SET f WHERE key = k AND P\<close>, and the number of rows it affects.\<close>

definition update_rows ::
  "('r \<Rightarrow> string) \<Rightarrow> string \<Rightarrow> ('r \<Rightarrow> bool) \<Rightarrow> ('r \<Rightarrow> 'r) \<Rightarrow> 'r list \<Rightarrow> 'r list" where
  "update_rows key k P f rows = map (\<lambda>r. if key r = k \<and> P r then f r else r) rows"

definition matching_rows :: "('r \<Rightarrow> string) \<Rightarrow> string \<Rightarrow> ('r \<Rightarrow> bool) \<Rightarrow> 'r list \<Rightarrow> nat" where
  "matching_rows key k P rows = length (filter (\<lambda>r. key r = k \<and> P r) rows)"

lemma select_row_Nil [simp, table_simps]: "select_row key k [] = None"
  by (simp add: select_row_def)

lemma select_row_Cons [table_simps]:
  "select_row key k (r # rs) = (if key r = k then Some r else select_row key k rs)"
  by (simp add: select_row_def)

lemma select_row_key: "select_row key k rows = Some r \<Longrightarrow> key r = k"
  by (auto simp: select_row_def find_Some_iff)

lemma select_row_set: "select_row key k rows = Some r \<Longrightarrow> r \<in> set rows"
  by (auto simp: select_row_def find_Some_iff)

lemma select_row_None: "select_row key k rows = None \<longleftrightarrow> k \<notin> key ` set rows"
  by (auto simp: select_row_def find_None_iff)

lemma select_row_append [table_simps]:
  "select_row key k (rs @ ss) =
     (case select_row key k rs of None \<Rightarrow> select_row key k ss | Some r \<Rightarrow> Some r)"
  by (induction rs) (auto simp: table_simps)

lemma insert_row_Some:
  "insert_row key r rows = Some rows' \<longleftrightarrow>
     select_row key (key r) rows = None \<and> rows' = rows @ [r]"
  by (auto simp: insert_row_def split: option.splits)

lemma insert_row_None:
  "insert_row key r rows = None \<longleftrightarrow> (\<exists>r'. select_row key (key r) rows = Some r')"
  by (auto simp: insert_row_def split: option.splits)

lemma select_row_insert:
  "insert_row key r rows = Some rows' \<Longrightarrow>
     select_row key k rows' = (if k = key r then Some r else select_row key k rows)"
  by (auto simp: insert_row_Some table_simps split: option.splits)

text \<open>An update that keeps the key changes exactly the selected row.\<close>

lemma select_row_update:
  assumes "\<And>r. key (f r) = key r"
  shows "select_row key k' (update_rows key k P f rows) =
    (if k' = k then map_option (\<lambda>r. if P r then f r else r) (select_row key k rows)
     else select_row key k' rows)"
  using assms by (induction rows) (auto simp: table_simps update_rows_def)

lemma keys_update_rows:
  assumes "\<And>r. key (f r) = key r"
  shows "map key (update_rows key k P f rows) = map key rows"
  using assms by (induction rows) (auto simp: update_rows_def)

lemma distinct_select_row:
  assumes "distinct (map key rows)" and "r \<in> set rows"
  shows "select_row key (key r) rows = Some r"
  using assms by (induction rows) (auto simp: table_simps rev_image_eqI)

lemma matching_rows_zero:
  assumes "distinct (map key rows)"
  shows "matching_rows key k P rows = 0 \<longleftrightarrow> (\<forall>r. select_row key k rows = Some r \<longrightarrow> \<not> P r)"
proof -
  have "matching_rows key k P rows = 0 \<longleftrightarrow> (\<forall>r \<in> set rows. key r = k \<longrightarrow> \<not> P r)"
    by (auto simp: matching_rows_def filter_empty_conv)
  then show ?thesis
    using assms by (auto dest: select_row_key select_row_set distinct_select_row)
qed

text \<open>The statement as the code issues it: \<open>None\<close> when no row was affected.\<close>

definition update_where ::
  "('r \<Rightarrow> string) \<Rightarrow> string \<Rightarrow> ('r \<Rightarrow> bool) \<Rightarrow> ('r \<Rightarrow> 'r) \<Rightarrow> 'r list \<Rightarrow> 'r list option" where
  "update_where key k P f rows =
     (if matching_rows key k P rows = 0 then None else Some (update_rows key k P f rows))"

lemma update_where_None:
  "distinct (map key rows) \<Longrightarrow>
     update_where key k P f rows = None \<longleftrightarrow> (\<forall>r. select_row key k rows = Some r \<longrightarrow> \<not> P r)"
  by (auto simp: update_where_def matching_rows_zero)

lemma update_where_Some:
  "distinct (map key rows) \<Longrightarrow>
     update_where key k P f rows = Some rows' \<longleftrightarrow>
       (\<exists>r. select_row key k rows = Some r \<and> P r) \<and> rows' = update_rows key k P f rows"
  by (auto simp: update_where_def matching_rows_zero)

lemma update_where_miss:
  "distinct (map key rows) \<Longrightarrow> (\<And>r. select_row key k rows = Some r \<Longrightarrow> \<not> P r) \<Longrightarrow>
     update_where key k P f rows = None"
  by (auto simp: update_where_None)

lemma update_where_hit:
  "distinct (map key rows) \<Longrightarrow> select_row key k rows = Some r \<Longrightarrow> P r \<Longrightarrow>
     update_where key k P f rows = Some (update_rows key k P f rows)"
  by (auto simp: update_where_Some)

lemma distinct_insert_row:
  "insert_row key r rows = Some rows' \<Longrightarrow> distinct (map key rows) \<Longrightarrow> distinct (map key rows')"
  by (auto simp: insert_row_Some select_row_None)

section \<open>Tables that only grow\<close>

text \<open>
  Nothing in this program deletes a row.  A later version of a table therefore holds every row
  of the earlier one, changed at most as \<open>step\<close> permits.
\<close>

definition rows_evolve ::
  "('r \<Rightarrow> string) \<Rightarrow> ('r \<Rightarrow> 'r \<Rightarrow> bool) \<Rightarrow> 'r list \<Rightarrow> 'r list \<Rightarrow> bool" where
  "rows_evolve key step rows rows' \<longleftrightarrow>
     (\<forall>k r. select_row key k rows = Some r \<longrightarrow>
        (\<exists>r'. select_row key k rows' = Some r' \<and> step r r'))"

lemma rows_evolveD:
  "rows_evolve key step rows rows' \<Longrightarrow> select_row key k rows = Some r \<Longrightarrow>
     \<exists>r'. select_row key k rows' = Some r' \<and> step r r'"
  by (auto simp: rows_evolve_def)

lemma rows_evolve_refl: "(\<And>r. step r r) \<Longrightarrow> rows_evolve key step rows rows"
  by (auto simp: rows_evolve_def)

lemma rows_evolve_trans:
  assumes "\<And>r r' r''. step r r' \<Longrightarrow> step r' r'' \<Longrightarrow> step r r''"
    and "rows_evolve key step rows rows'" and "rows_evolve key step rows' rows''"
  shows "rows_evolve key step rows rows''"
  using assms unfolding rows_evolve_def by blast

lemma rows_evolve_insert:
  "insert_row key r rows = Some rows' \<Longrightarrow> (\<And>r. step r r) \<Longrightarrow> rows_evolve key step rows rows'"
  by (auto simp: rows_evolve_def select_row_insert insert_row_Some)

lemma rows_evolve_update:
  assumes "\<And>r. key (f r) = key r" and "\<And>r. step r r"
    and "\<And>r. select_row key k rows = Some r \<Longrightarrow> P r \<Longrightarrow> step r (f r)"
  shows "rows_evolve key step rows (update_rows key k P f rows)"
  using assms by (auto simp: rows_evolve_def select_row_update)

section \<open>Properties of every row\<close>

definition all_rows :: "('r \<Rightarrow> string) \<Rightarrow> ('r \<Rightarrow> bool) \<Rightarrow> 'r list \<Rightarrow> bool" where
  "all_rows key P rows \<longleftrightarrow> (\<forall>k r. select_row key k rows = Some r \<longrightarrow> P r)"

lemma all_rows_Nil [simp]: "all_rows key P []"
  by (simp add: all_rows_def)

lemma all_rowsD: "all_rows key P rows \<Longrightarrow> select_row key k rows = Some r \<Longrightarrow> P r"
  by (auto simp: all_rows_def)

lemma all_rows_mono: "all_rows key P rows \<Longrightarrow> (\<And>r. P r \<Longrightarrow> Q r) \<Longrightarrow> all_rows key Q rows"
  by (auto simp: all_rows_def)

lemma all_rows_insert:
  "insert_row key r rows = Some rows' \<Longrightarrow> all_rows key P rows \<Longrightarrow> P r \<Longrightarrow> all_rows key P rows'"
  by (auto simp: all_rows_def select_row_insert split: if_splits)

lemma all_rows_update:
  assumes "\<And>r. key (f r) = key r" and "all_rows key P rows"
    and "\<And>r. select_row key k rows = Some r \<Longrightarrow> C r \<Longrightarrow> P (f r)"
  shows "all_rows key P (update_rows key k C f rows)"
  using assms by (auto simp: all_rows_def select_row_update split: if_splits)

lemma filter_insert_row:
  "insert_row key r rows = Some rows' \<Longrightarrow> \<not> Q r \<Longrightarrow> filter Q rows' = filter Q rows"
  by (auto simp: insert_row_Some)

lemma filter_update_rows:
  assumes "\<And>r. Q (f r) = Q r" and "distinct (map key rows)"
    and "\<And>r. select_row key k rows = Some r \<Longrightarrow> C r \<Longrightarrow> \<not> Q r"
  shows "filter Q (update_rows key k C f rows) = filter Q rows"
proof -
  have "\<not> Q r" if "r \<in> set rows" and "key r = k" and "C r" for r
    using assms(3) [of r] distinct_select_row [OF assms(2) that(1)] that by simp
  then show ?thesis
    using assms(1) unfolding update_rows_def by (induction rows) auto
qed

end
