(* ===== verification/Store.thy ===== *)
theory Store
  imports Prelude
begin

text \<open>
  The SQLite store of \<^verbatim>\<open>internal/store/store.go\<close>.  The five tables are lists of rows,
  \<^verbatim>\<open>roster_version\<close> its single optional row.  An operation takes the outcome of its call into
  the database driver and returns the Go error (\<open>Inl\<close>) or result (\<open>Inr\<close>) with the new store.
  \<^verbatim>\<open>SetMaxOpenConns(1)\<close> serialises the statements, so each operation is atomic.
\<close>

section \<open>Rows\<close>

record Negotiation =
  n_ProviderPID :: string
  n_ConsumerPID :: string
  n_State :: string
  n_DatasetID :: string
  n_OfferID :: string
  n_CallbackAddress :: string
  n_Rerequested :: bool
  n_CounterpartyID :: string
  n_CreatedAt :: instant
  n_UpdatedAt :: instant

record ConsumerNegotiation =
  c_ConsumerPID :: string
  c_ProviderPID :: string
  c_ProviderBaseURL :: string
  c_State :: string
  c_DatasetID :: string
  c_OfferID :: string
  c_CounterpartyID :: string
  c_CreatedAt :: instant
  c_UpdatedAt :: instant

record Agreement =
  a_AgreementID :: string
  a_DatasetID :: string
  a_ConsumerPID :: string
  a_Origin :: string
  a_CounterpartyID :: string
  a_CreatedAt :: instant

definition OriginNegotiated :: string where "OriginNegotiated = ''negotiated''"
definition OriginImported :: string where "OriginImported = ''imported''"
definition OriginAgreed :: string where "OriginAgreed = ''agreed''"

record TransferProcess =
  t_ProviderPID :: string
  t_ConsumerPID :: string
  t_AgreementID :: string
  t_State :: string
  t_CallbackAddress :: string
  t_Format :: string
  t_CounterpartyID :: string
  t_CreatedAt :: instant
  t_UpdatedAt :: instant

text \<open>\<open>ct_DataCompletedAt\<close> is \<open>None\<close> for Go's zero time, stored as the empty text.\<close>

record ConsumerTransfer =
  ct_ConsumerPID :: string
  ct_ProviderPID :: string
  ct_ProviderBaseURL :: string
  ct_AgreementID :: string
  ct_Format :: string
  ct_State :: string
  ct_CounterpartyID :: string
  ct_ExpectedBytes :: int64
  ct_ReceivedBytes :: int64
  ct_DataPath :: string
  ct_DataCompletedAt :: "instant option"
  ct_DataError :: string
  ct_CreatedAt :: instant
  ct_UpdatedAt :: instant

record store =
  negotiations :: "Negotiation list"
  consumer_negotiations :: "ConsumerNegotiation list"
  agreements :: "Agreement list"
  transfer_processes :: "TransferProcess list"
  consumer_transfer_processes :: "ConsumerTransfer list"
  roster_version :: "int option"

definition empty_store :: store where
  "empty_store = \<lparr>negotiations = [], consumer_negotiations = [], agreements = [],
     transfer_processes = [], consumer_transfer_processes = [], roster_version = None\<rparr>"

section \<open>Errors and the driver\<close>

datatype store_error =
    ErrNotFound
  | ErrStateChanged
  | ErrRosterOlder int int
  | ErrDriver

text \<open>
  What the database driver did with one statement: it succeeded, it failed and left the
  database as it was, or it reported an error although the statement took effect (a lost
  acknowledgment, the case of a failing \<^verbatim>\<open>RowsAffected\<close> or \<^verbatim>\<open>Commit\<close>).
\<close>

datatype io = IoOk | IoFail | IoLost

type_synonym 'a store_op = "io \<Rightarrow> store \<Rightarrow> (store_error + 'a) \<times> store"

definition driver ::
  "io \<Rightarrow> (store_error + 'a) \<times> store \<Rightarrow> store \<Rightarrow> (store_error + 'a) \<times> store" where
  "driver i out s = (case i of
     IoOk \<Rightarrow> out | IoFail \<Rightarrow> (Inl ErrDriver, s) | IoLost \<Rightarrow> (Inl ErrDriver, snd out))"

lemma driver_simps [simp]:
  "driver IoOk out s = out"
  "driver IoFail out s = (Inl ErrDriver, s)"
  "driver IoLost out s = (Inl ErrDriver, snd out)"
  by (simp_all add: driver_def)

text \<open>A query changes nothing, whatever the driver answers.\<close>

definition query :: "(store \<Rightarrow> 'a) \<Rightarrow> 'a store_op" where
  "query f i s = driver i (Inr (f s), s) s"

lemma query_store [simp]: "snd (query f i s) = s"
  by (cases i) (simp_all add: query_def)

lemma query_result:
  "fst (query f i s) = (if i = IoOk then Inr (f s) else Inl ErrDriver)"
  by (cases i) (simp_all add: query_def)

section \<open>Negotiations, provider role\<close>

definition Create :: "Negotiation \<Rightarrow> unit store_op" where
  "Create n i s = driver i (case insert_row n_ProviderPID n (negotiations s) of
       None \<Rightarrow> (Inl ErrDriver, s)
     | Some rows \<Rightarrow> (Inr (), s\<lparr>negotiations := rows\<rparr>)) s"

abbreviation find_negotiation :: "string \<Rightarrow> store \<Rightarrow> Negotiation option" where
  "find_negotiation providerPID s \<equiv> select_row n_ProviderPID providerPID (negotiations s)"

definition Get :: "string \<Rightarrow> Negotiation option store_op" where
  "Get providerPID = query (find_negotiation providerPID)"

text \<open>Why an \<^verbatim>\<open>UPDATE\<close> matched no row: the record is missing, or it moved on.\<close>

definition explainNoUpdate :: "string \<Rightarrow> store \<Rightarrow> store_error" where
  "explainNoUpdate providerPID s = (case find_negotiation providerPID s of
     None \<Rightarrow> ErrNotFound | Some _ \<Rightarrow> ErrStateChanged)"

definition SetState :: "string \<Rightarrow> string \<Rightarrow> string \<Rightarrow> instant \<Rightarrow> unit store_op" where
  "SetState providerPID from to updatedAt i s = driver i
     (case update_where n_ProviderPID providerPID (\<lambda>r. n_State r = from)
        (\<lambda>r. r\<lparr>n_State := to, n_UpdatedAt := updatedAt\<rparr>)
        (negotiations s) of
        None \<Rightarrow> (Inl (explainNoUpdate providerPID s), s)
      | Some rows \<Rightarrow> (Inr (), s\<lparr>negotiations := rows\<rparr>))
     s"

definition SetRerequested :: "string \<Rightarrow> unit store_op" where
  "SetRerequested providerPID i s = driver i
     (case update_where n_ProviderPID providerPID (\<lambda>r. \<not> n_Rerequested r)
        (\<lambda>r. r\<lparr>n_Rerequested := True\<rparr>)
        (negotiations s) of
        None \<Rightarrow> (Inl (explainNoUpdate providerPID s), s)
      | Some rows \<Rightarrow> (Inr (), s\<lparr>negotiations := rows\<rparr>))
     s"

section \<open>Negotiations, consumer role\<close>

definition CreateConsumer :: "ConsumerNegotiation \<Rightarrow> unit store_op" where
  "CreateConsumer n i s = driver i
     (case insert_row c_ConsumerPID n (consumer_negotiations s) of
       None \<Rightarrow> (Inl ErrDriver, s)
     | Some rows \<Rightarrow> (Inr (), s\<lparr>consumer_negotiations := rows\<rparr>)) s"

abbreviation find_consumer :: "string \<Rightarrow> store \<Rightarrow> ConsumerNegotiation option" where
  "find_consumer consumerPID s \<equiv> select_row c_ConsumerPID consumerPID (consumer_negotiations s)"

definition GetConsumer :: "string \<Rightarrow> ConsumerNegotiation option store_op" where
  "GetConsumer consumerPID = query (find_consumer consumerPID)"

definition explainNoConsumerUpdate :: "string \<Rightarrow> store \<Rightarrow> store_error" where
  "explainNoConsumerUpdate consumerPID s = (case find_consumer consumerPID s of
     None \<Rightarrow> ErrNotFound | Some _ \<Rightarrow> ErrStateChanged)"

definition SetConsumerState :: "string \<Rightarrow> string \<Rightarrow> string \<Rightarrow> instant \<Rightarrow> unit store_op" where
  "SetConsumerState consumerPID from to updatedAt i s = driver i
     (case update_where c_ConsumerPID consumerPID (\<lambda>r. c_State r = from)
        (\<lambda>r. r\<lparr>c_State := to, c_UpdatedAt := updatedAt\<rparr>)
        (consumer_negotiations s) of
        None \<Rightarrow> (Inl (explainNoConsumerUpdate consumerPID s), s)
      | Some rows \<Rightarrow> (Inr (), s\<lparr>consumer_negotiations := rows\<rparr>))
     s"

definition SetConsumerProviderPID :: "string \<Rightarrow> string \<Rightarrow> instant \<Rightarrow> unit store_op" where
  "SetConsumerProviderPID consumerPID providerPID updatedAt i s = driver i
     (case update_where c_ConsumerPID consumerPID (\<lambda>_. True)
        (\<lambda>r. r\<lparr>c_ProviderPID := providerPID, c_UpdatedAt := updatedAt\<rparr>)
        (consumer_negotiations s) of
        None \<Rightarrow> (Inl ErrNotFound, s)
      | Some rows \<Rightarrow> (Inr (), s\<lparr>consumer_negotiations := rows\<rparr>))
     s"

section \<open>Agreements\<close>

definition CreateAgreement :: "Agreement \<Rightarrow> unit store_op" where
  "CreateAgreement a i s = driver i (case insert_row a_AgreementID a (agreements s) of
       None \<Rightarrow> (Inl ErrDriver, s)
     | Some rows \<Rightarrow> (Inr (), s\<lparr>agreements := rows\<rparr>)) s"

abbreviation find_agreement :: "string \<Rightarrow> store \<Rightarrow> Agreement option" where
  "find_agreement agreementID s \<equiv> select_row a_AgreementID agreementID (agreements s)"

definition GetAgreement :: "string \<Rightarrow> Agreement option store_op" where
  "GetAgreement agreementID = query (find_agreement agreementID)"

text \<open>
  The transaction: the state check and the insertion are one atomic step.  The result is whether
  the agreement was recorded and the state the negotiation was found in.
\<close>

definition CreateAgreementIfNegotiationAgreed ::
  "string \<Rightarrow> string list \<Rightarrow> Agreement \<Rightarrow> (bool \<times> string) store_op" where
  "CreateAgreementIfNegotiationAgreed providerPID allowedStates a i s = driver i
     (case find_negotiation providerPID s of
        None \<Rightarrow> (Inr (False, ''''), s)
      | Some n \<Rightarrow>
          if n_State n \<notin> set allowedStates then (Inr (False, n_State n), s)
          else (case insert_row a_AgreementID a (agreements s) of
                  None \<Rightarrow> (Inl ErrDriver, s)
                | Some rows \<Rightarrow> (Inr (True, n_State n), s\<lparr>agreements := rows\<rparr>)))
     s"

section \<open>Transfers, provider role\<close>

definition CreateTransfer :: "TransferProcess \<Rightarrow> unit store_op" where
  "CreateTransfer t i s = driver i
     (case insert_row t_ProviderPID t (transfer_processes s) of
       None \<Rightarrow> (Inl ErrDriver, s)
     | Some rows \<Rightarrow> (Inr (), s\<lparr>transfer_processes := rows\<rparr>)) s"

abbreviation find_transfer :: "string \<Rightarrow> store \<Rightarrow> TransferProcess option" where
  "find_transfer providerPID s \<equiv> select_row t_ProviderPID providerPID (transfer_processes s)"

definition GetTransfer :: "string \<Rightarrow> TransferProcess option store_op" where
  "GetTransfer providerPID = query (find_transfer providerPID)"

definition explainNoTransferUpdate :: "string \<Rightarrow> store \<Rightarrow> store_error" where
  "explainNoTransferUpdate providerPID s = (case find_transfer providerPID s of
     None \<Rightarrow> ErrNotFound | Some _ \<Rightarrow> ErrStateChanged)"

definition SetTransferState :: "string \<Rightarrow> string \<Rightarrow> string \<Rightarrow> instant \<Rightarrow> unit store_op" where
  "SetTransferState providerPID from to updatedAt i s = driver i
     (case update_where t_ProviderPID providerPID (\<lambda>r. t_State r = from)
        (\<lambda>r. r\<lparr>t_State := to, t_UpdatedAt := updatedAt\<rparr>)
        (transfer_processes s) of
        None \<Rightarrow> (Inl (explainNoTransferUpdate providerPID s), s)
      | Some rows \<Rightarrow> (Inr (), s\<lparr>transfer_processes := rows\<rparr>))
     s"

section \<open>Transfers, consumer role\<close>

definition CreateConsumerTransfer :: "ConsumerTransfer \<Rightarrow> unit store_op" where
  "CreateConsumerTransfer t i s = driver i
     (case insert_row ct_ConsumerPID t (consumer_transfer_processes s) of
       None \<Rightarrow> (Inl ErrDriver, s)
     | Some rows \<Rightarrow> (Inr (), s\<lparr>consumer_transfer_processes := rows\<rparr>)) s"

abbreviation find_consumer_transfer :: "string \<Rightarrow> store \<Rightarrow> ConsumerTransfer option" where
  "find_consumer_transfer consumerPID s \<equiv>
     select_row ct_ConsumerPID consumerPID (consumer_transfer_processes s)"

definition GetConsumerTransfer :: "string \<Rightarrow> ConsumerTransfer option store_op" where
  "GetConsumerTransfer consumerPID = query (find_consumer_transfer consumerPID)"

definition explainNoConsumerTransferUpdate :: "string \<Rightarrow> store \<Rightarrow> store_error" where
  "explainNoConsumerTransferUpdate consumerPID s =
     (case find_consumer_transfer consumerPID s of
        None \<Rightarrow> ErrNotFound | Some _ \<Rightarrow> ErrStateChanged)"

definition SetConsumerTransferState ::
  "string \<Rightarrow> string \<Rightarrow> string \<Rightarrow> instant \<Rightarrow> unit store_op" where
  "SetConsumerTransferState consumerPID from to updatedAt i s = driver i
     (case update_where ct_ConsumerPID consumerPID (\<lambda>r. ct_State r = from)
        (\<lambda>r. r\<lparr>ct_State := to, ct_UpdatedAt := updatedAt\<rparr>)
        (consumer_transfer_processes s) of
        None \<Rightarrow> (Inl (explainNoConsumerTransferUpdate consumerPID s), s)
      | Some rows \<Rightarrow> (Inr (), s\<lparr>consumer_transfer_processes := rows\<rparr>))
     s"

definition SetConsumerTransferProviderPID ::
  "string \<Rightarrow> string \<Rightarrow> instant \<Rightarrow> unit store_op" where
  "SetConsumerTransferProviderPID consumerPID providerPID updatedAt i s = driver i
     (case update_where ct_ConsumerPID consumerPID (\<lambda>_. True)
        (\<lambda>r. r\<lparr>ct_ProviderPID := providerPID, ct_UpdatedAt := updatedAt\<rparr>)
        (consumer_transfer_processes s) of
        None \<Rightarrow> (Inl ErrNotFound, s)
      | Some rows \<Rightarrow> (Inr (), s\<lparr>consumer_transfer_processes := rows\<rparr>))
     s"

text \<open>The two data-plane writes do not look at how many rows they matched.\<close>

definition SetConsumerTransferExpectedBytes :: "string \<Rightarrow> int64 \<Rightarrow> unit store_op" where
  "SetConsumerTransferExpectedBytes consumerPID expected i s = driver i
     (Inr (), s\<lparr>consumer_transfer_processes :=
        update_rows ct_ConsumerPID consumerPID (\<lambda>_. True)
          (\<lambda>r. r\<lparr>ct_ExpectedBytes := expected\<rparr>) (consumer_transfer_processes s)\<rparr>) s"

definition RecordConsumerTransferOutcome ::
  "string \<Rightarrow> int64 \<Rightarrow> string \<Rightarrow> instant option \<Rightarrow> string \<Rightarrow> unit store_op" where
  "RecordConsumerTransferOutcome consumerPID received path completedAt failure i s = driver i
     (Inr (), s\<lparr>consumer_transfer_processes :=
        update_rows ct_ConsumerPID consumerPID (\<lambda>_. True)
          (\<lambda>r. r\<lparr>ct_ReceivedBytes := received, ct_DataPath := path,
                 ct_DataCompletedAt := completedAt, ct_DataError := failure\<rparr>)
          (consumer_transfer_processes s)\<rparr>) s"

section \<open>The roster version\<close>

definition RecordRosterVersion :: "int \<Rightarrow> unit store_op" where
  "RecordRosterVersion version i s = driver i
     (case roster_version s of
        None \<Rightarrow> (Inr (), s\<lparr>roster_version := Some version\<rparr>)
      | Some highest \<Rightarrow>
          if version < highest then (Inl (ErrRosterOlder version highest), s)
          else if version = highest then (Inr (), s)
          else (Inr (), s\<lparr>roster_version := Some version\<rparr>))
     s"

lemmas store_op_defs [store_defs] =
  Create_def Get_def SetState_def SetRerequested_def CreateConsumer_def GetConsumer_def
  SetConsumerState_def SetConsumerProviderPID_def CreateAgreement_def GetAgreement_def
  CreateAgreementIfNegotiationAgreed_def CreateTransfer_def GetTransfer_def
  SetTransferState_def CreateConsumerTransfer_def GetConsumerTransfer_def
  SetConsumerTransferState_def SetConsumerTransferProviderPID_def
  SetConsumerTransferExpectedBytes_def RecordConsumerTransferOutcome_def RecordRosterVersion_def

lemmas explain_defs [store_defs] =
  explainNoUpdate_def explainNoConsumerUpdate_def explainNoTransferUpdate_def
  explainNoConsumerTransferUpdate_def

end
