(* ===== verification/TableContract.thy ===== *)
theory TableContract
  imports Store
begin

text \<open>
  What the tables of the store promise the handlers.  \<open>row_table\<close> is the contract of a table
  with insertion and lookup by primary key, \<open>state_table\<close> adds the compare-and-swap every
  state column is written through.  The client lemmas (a created row is read back, a race of
  compare-and-swaps has exactly one winner) are proved once inside the locales, and the
  interpretations discharge the contracts for the operations of the store.
\<close>

section \<open>Contracts\<close>

locale row_table =
  fixes invar :: "'s \<Rightarrow> bool"
    and lookup :: "string \<Rightarrow> 's \<Rightarrow> 'r option"
    and key :: "'r \<Rightarrow> string"
    and create :: "'r \<Rightarrow> io \<Rightarrow> 's \<Rightarrow> (store_error + unit) \<times> 's"
    and get :: "string \<Rightarrow> io \<Rightarrow> 's \<Rightarrow> (store_error + 'r option) \<times> 's"
  assumes lookup_key: "lookup k s = Some r \<Longrightarrow> key r = k"
    and get_ok: "get k IoOk s = (Inr (lookup k s), s)"
    and get_pure: "snd (get k i s) = s"
    and create_fresh: "lookup (key r) s = None \<Longrightarrow> fst (create r IoOk s) = Inr ()"
    and create_lookup: "lookup (key r) s = None \<Longrightarrow> i \<noteq> IoFail \<Longrightarrow>
      lookup k (snd (create r i s)) = (if k = key r then Some r else lookup k s)"
    and create_duplicate: "lookup (key r) s = Some r' \<Longrightarrow> create r i s = (Inl ErrDriver, s)"
    and create_failed: "create r IoFail s = (Inl ErrDriver, s)"
    and create_invar: "invar s \<Longrightarrow> invar (snd (create r i s))"
begin

lemma create_ok_iff: "fst (create r IoOk s) = Inr () \<longleftrightarrow> lookup (key r) s = None"
  using create_fresh create_duplicate
  by (metis Inl_Inr_False fst_conv not_Some_eq)

text \<open>A created row is read back as it was written, by its own key only.\<close>

lemma get_after_create:
  assumes "fst (create r IoOk s) = Inr ()"
  shows "fst (get k IoOk (snd (create r IoOk s))) =
    Inr (if k = key r then Some r else lookup k s)"
  using assms by (simp add: get_ok create_ok_iff create_lookup)

text \<open>No insertion changes a row that is already there.\<close>

lemma create_keeps:
  assumes "lookup k s = Some r'"
  shows "lookup k (snd (create r i s)) = Some r'"
proof (cases "lookup (key r) s")
  case None
  with assms have "k \<noteq> key r" by auto
  with None assms show ?thesis
    by (cases "i = IoFail") (simp_all add: create_failed create_lookup)
next
  case (Some r0)
  then show ?thesis using assms by (simp add: create_duplicate)
qed

end

locale state_table = row_table +
  fixes state :: "'r \<Rightarrow> string"
    and moved :: "string \<Rightarrow> instant \<Rightarrow> 'r \<Rightarrow> 'r"
    and cas :: "string \<Rightarrow> string \<Rightarrow> string \<Rightarrow> instant \<Rightarrow> io \<Rightarrow> 's \<Rightarrow> (store_error + unit) \<times> 's"
  assumes state_moved: "state (moved to at r) = to"
    and key_moved: "key (moved to at r) = key r"
    and cas_hit: "invar s \<Longrightarrow> lookup k s = Some r \<Longrightarrow> state r = from \<Longrightarrow>
      fst (cas k from to at IoOk s) = Inr ()"
    and cas_lookup: "invar s \<Longrightarrow> lookup k s = Some r \<Longrightarrow> state r = from \<Longrightarrow> i \<noteq> IoFail \<Longrightarrow>
      lookup k' (snd (cas k from to at i s)) = (if k' = k then Some (moved to at r) else lookup k' s)"
    and cas_stale: "invar s \<Longrightarrow> lookup k s = Some r \<Longrightarrow> state r \<noteq> from \<Longrightarrow>
      cas k from to at i s = (Inl (if i = IoOk then ErrStateChanged else ErrDriver), s)"
    and cas_missing: "invar s \<Longrightarrow> lookup k s = None \<Longrightarrow>
      cas k from to at i s = (Inl (if i = IoOk then ErrNotFound else ErrDriver), s)"
    and cas_failed: "cas k from to at IoFail s = (Inl ErrDriver, s)"
    and cas_invar: "invar s \<Longrightarrow> invar (snd (cas k from to at i s))"
begin

lemma cas_ok_iff:
  assumes "invar s"
  shows "fst (cas k from to at IoOk s) = Inr () \<longleftrightarrow> (\<exists>r. lookup k s = Some r \<and> state r = from)"
proof (cases "lookup k s")
  case None
  then show ?thesis using assms by (simp add: cas_missing)
next
  case (Some r)
  then show ?thesis using assms by (cases "state r = from") (simp_all add: cas_hit cas_stale)
qed

text \<open>Every other row is left alone, and the key of the updated row stays.\<close>

lemma cas_frame:
  assumes "invar s" and "k' \<noteq> k"
  shows "lookup k' (snd (cas k from to at i s)) = lookup k' s"
proof (cases "lookup k s")
  case None
  then show ?thesis using assms by (simp add: cas_missing)
next
  case (Some r)
  then show ?thesis using assms
    by (cases "state r = from"; cases "i = IoFail") (simp_all add: cas_failed cas_lookup cas_stale)
qed

text \<open>A compare-and-swap that lost does not write.\<close>

lemma cas_loser_writes_nothing:
  assumes "invar s" and "\<And>r. lookup k s = Some r \<Longrightarrow> state r \<noteq> from"
  shows "snd (cas k from to at i s) = s"
  using assms by (cases "lookup k s") (simp_all add: cas_missing cas_stale)

text \<open>
  Handlers that all read the same state and then race to leave it: each attempt is a target and
  a time.  The one whose statement reaches the database first wins, every other is told that
  the record changed, and the row ends as the winner wrote it.
\<close>

primrec race :: "string \<Rightarrow> string \<Rightarrow> (string \<times> instant) list \<Rightarrow> 's \<Rightarrow> (store_error + unit) list \<times> 's"
where
  "race k from [] s = ([], s)"
| "race k from (m # ms) s =
     (let (e, s') = cas k from (fst m) (snd m) IoOk s; (es, s'') = race k from ms s' in (e # es, s''))"

lemma race_after_win:
  assumes "invar s" and "lookup k s = Some r" and "state r \<noteq> from"
  shows "race k from ms s = (replicate (length ms) (Inl ErrStateChanged), s)"
  using assms by (induction ms) (simp_all add: cas_stale)

lemma race_one_winner:
  assumes "invar s" and "lookup k s = Some r" and "state r = from" and "to \<noteq> from"
  shows "\<exists>s'. race k from ((to, at) # ms) s =
      (Inr () # replicate (length ms) (Inl ErrStateChanged), s')
    \<and> lookup k s' = Some (moved to at r)"
proof -
  define s1 where "s1 = snd (cas k from to at IoOk s)"
  have win: "cas k from to at IoOk s = (Inr (), s1)"
    using cas_hit assms by (simp add: s1_def prod_eq_iff)
  have row: "lookup k s1 = Some (moved to at r)"
    using cas_lookup [of s k r "from" IoOk k to at] assms by (simp add: s1_def)
  have "invar s1" using cas_invar assms(1) by (simp add: s1_def)
  then have "race k from ms s1 = (replicate (length ms) (Inl ErrStateChanged), s1)"
    using row assms(4) by (auto simp: state_moved intro: race_after_win)
  then show ?thesis using win row by simp
qed

end

section \<open>The store's well-formedness: primary keys are unique\<close>

definition store_wf :: "store \<Rightarrow> bool" where
  "store_wf s \<longleftrightarrow>
     distinct (map n_ProviderPID (negotiations s)) \<and>
     distinct (map c_ConsumerPID (consumer_negotiations s)) \<and>
     distinct (map a_AgreementID (agreements s)) \<and>
     distinct (map t_ProviderPID (transfer_processes s)) \<and>
     distinct (map ct_ConsumerPID (consumer_transfer_processes s))"

lemma store_wf_empty: "store_wf empty_store"
  by (simp add: store_wf_def empty_store_def)

lemma store_wfD:
  assumes "store_wf s"
  shows "distinct (map n_ProviderPID (negotiations s))"
    and "distinct (map c_ConsumerPID (consumer_negotiations s))"
    and "distinct (map a_AgreementID (agreements s))"
    and "distinct (map t_ProviderPID (transfer_processes s))"
    and "distinct (map ct_ConsumerPID (consumer_transfer_processes s))"
  using assms by (simp_all add: store_wf_def)

section \<open>Tables kept in a field of the store\<close>

text \<open>
  How the code implements the contracts: the rows are one field of the store, read by
  \<open>rows\<close> and replaced by \<open>put\<close>, and the operations are the SQL statements on them.
\<close>

locale sql_rows =
  fixes rows :: "store \<Rightarrow> 'r list"
    and put :: "'r list \<Rightarrow> store \<Rightarrow> store"
    and key :: "'r \<Rightarrow> string"
    and create :: "'r \<Rightarrow> unit store_op"
    and get :: "string \<Rightarrow> 'r option store_op"
  assumes rows_put: "rows (put rs s) = rs"
    and wf_rows: "store_wf s \<Longrightarrow> distinct (map key (rows s))"
    and wf_put: "store_wf s \<Longrightarrow> distinct (map key rs) \<Longrightarrow> store_wf (put rs s)"
    and create_eq: "create r i s = driver i (case insert_row key r (rows s) of
        None \<Rightarrow> (Inl ErrDriver, s) | Some rs \<Rightarrow> (Inr (), put rs s)) s"
    and get_eq: "get k = query (\<lambda>s. select_row key k (rows s))"

sublocale sql_rows \<subseteq> row_table store_wf "\<lambda>k s. select_row key k (rows s)" key create get
proof (unfold_locales, goal_cases)
  case (1 k s r) then show ?case by (rule select_row_key)
next
  case (2 k s) show ?case by (simp add: get_eq query_def)
next
  case (3 k i s) show ?case by (simp add: get_eq)
next
  case (4 r s) then show ?case by (simp add: create_eq insert_row_def)
next
  case (5 r s i k) then show ?case
    by (cases i) (auto simp: create_eq insert_row_def rows_put select_row_append select_row_Cons
        split: option.splits)
next
  case (6 r s r' i) then show ?case by (cases i) (simp_all add: create_eq insert_row_def)
next
  case (7 r s) show ?case by (simp add: create_eq)
next
  case (8 s r i)
  have "store_wf (snd (create r IoOk s))" if "store_wf s" for s
    using that by (auto simp: create_eq intro: wf_put distinct_insert_row wf_rows split: option.splits)
  then show ?case using 8 by (cases i) (auto simp: create_eq)
qed

locale sql_table = sql_rows rows put key create get
  for rows :: "store \<Rightarrow> 'r list" and put key create get +
  fixes state :: "'r \<Rightarrow> string"
    and moved :: "string \<Rightarrow> instant \<Rightarrow> 'r \<Rightarrow> 'r"
    and cas :: "string \<Rightarrow> string \<Rightarrow> string \<Rightarrow> instant \<Rightarrow> unit store_op"
    and explain :: "string \<Rightarrow> store \<Rightarrow> store_error"
  assumes sql_state_moved: "state (moved to at r) = to"
    and sql_key_moved: "key (moved to at r) = key r"
    and explain_eq: "explain k s =
      (case select_row key k (rows s) of None \<Rightarrow> ErrNotFound | Some _ \<Rightarrow> ErrStateChanged)"
    and cas_eq: "cas k from to at i s = driver i
      (case update_where key k (\<lambda>r. state r = from) (moved to at) (rows s) of
         None \<Rightarrow> (Inl (explain k s), s) | Some rs \<Rightarrow> (Inr (), put rs s)) s"

sublocale sql_table \<subseteq>
  state_table store_wf "\<lambda>k s. select_row key k (rows s)" key create get state moved cas
proof (unfold_locales, goal_cases)
  case (1 to at r) show ?case by (rule sql_state_moved)
next
  case (2 to at r) show ?case by (rule sql_key_moved)
next
  case (3 s k r st to at) then show ?case by (simp add: cas_eq update_where_hit [OF wf_rows])
next
  case (4 s k r st i k' to at) then show ?case
    by (cases i) (simp_all add: cas_eq update_where_hit [OF wf_rows] rows_put
        select_row_update sql_key_moved)
next
  case (5 s k r st to at i)
  then have "update_where key k (\<lambda>r. state r = st) (moved to at) (rows s) = None"
    by (intro update_where_miss wf_rows) auto
  with 5 show ?case by (cases i) (simp_all add: cas_eq explain_eq)
next
  case (6 s k st to at i)
  then have "update_where key k (\<lambda>r. state r = st) (moved to at) (rows s) = None"
    by (intro update_where_miss wf_rows) auto
  with 6 show ?case by (cases i) (simp_all add: cas_eq explain_eq)
next
  case (7 k st to at s) show ?case by (simp add: cas_eq)
next
  case (8 s k st to at i)
  have "store_wf (snd (cas k st to at IoOk s))" if "store_wf s" for s
    using that
    by (auto simp: cas_eq update_where_Some [OF wf_rows] keys_update_rows sql_key_moved wf_rows
        intro!: wf_put split: option.splits)
  then show ?case using 8 by (cases i) (auto simp: cas_eq)
qed

section \<open>The code's tables fulfil the contracts\<close>

interpretation neg: sql_table negotiations "\<lambda>rs s. s\<lparr>negotiations := rs\<rparr>" n_ProviderPID
  Create Get n_State "\<lambda>to at r. r\<lparr>n_State := to, n_UpdatedAt := at\<rparr>" SetState explainNoUpdate
  by unfold_locales (simp_all add: store_wf_def store_defs)

interpretation con: sql_table consumer_negotiations "\<lambda>rs s. s\<lparr>consumer_negotiations := rs\<rparr>"
  c_ConsumerPID CreateConsumer GetConsumer c_State
  "\<lambda>to at r. r\<lparr>c_State := to, c_UpdatedAt := at\<rparr>" SetConsumerState explainNoConsumerUpdate
  by unfold_locales (simp_all add: store_wf_def store_defs)

interpretation agr: sql_rows agreements "\<lambda>rs s. s\<lparr>agreements := rs\<rparr>" a_AgreementID
  CreateAgreement GetAgreement
  by unfold_locales (simp_all add: store_wf_def store_defs)

interpretation tra: sql_table transfer_processes "\<lambda>rs s. s\<lparr>transfer_processes := rs\<rparr>"
  t_ProviderPID CreateTransfer GetTransfer t_State
  "\<lambda>to at r. r\<lparr>t_State := to, t_UpdatedAt := at\<rparr>" SetTransferState explainNoTransferUpdate
  by unfold_locales (simp_all add: store_wf_def store_defs)

interpretation ctr: sql_table consumer_transfer_processes
  "\<lambda>rs s. s\<lparr>consumer_transfer_processes := rs\<rparr>"
  ct_ConsumerPID CreateConsumerTransfer GetConsumerTransfer ct_State
  "\<lambda>to at r. r\<lparr>ct_State := to, ct_UpdatedAt := at\<rparr>" SetConsumerTransferState
  explainNoConsumerTransferUpdate
  by unfold_locales (simp_all add: store_wf_def store_defs)

section \<open>What the tables guarantee the handlers\<close>

text \<open>
  C27. When handlers that read the same state race to leave it, the first statement to reach the
  database wins, and every later attempt is refused as stale and changes nothing.
\<close>

theorem a_race_has_one_winner:
  assumes "store_wf s" and "find_negotiation k s = Some n" and "n_State n = st" and "to \<noteq> st"
  shows "\<exists>s'. SetState k st to at IoOk s = (Inr (), s') \<and>
    find_negotiation k s' = Some (n\<lparr>n_State := to, n_UpdatedAt := at\<rparr>) \<and>
    (\<forall>to' at' i. SetState k st to' at' i s' = (Inl (if i = IoOk then ErrStateChanged else ErrDriver), s'))"
proof -
  let ?s' = "snd (SetState k st to at IoOk s)"
  have "store_wf ?s'" by (rule neg.cas_invar [OF assms(1)])
  moreover have "find_negotiation k ?s' = Some (n\<lparr>n_State := to, n_UpdatedAt := at\<rparr>)"
    using neg.cas_lookup [OF assms(1-3), of IoOk k to at] by simp
  ultimately show ?thesis
    using neg.cas_hit [OF assms(1-3)] neg.cas_stale [of ?s' k _ st] assms(4)
    by (intro exI [of _ ?s']) (simp add: prod_eq_iff)
qed

theorem a_race_has_one_winner_witness:
  "\<exists>s'. SetState ''n'' ''REQUESTED'' ''AGREED'' 7 IoOk (empty_store\<lparr>negotiations := [\<lparr>n_ProviderPID = ''n'',
       n_ConsumerPID = ''c'', n_State = ''REQUESTED'', n_DatasetID = ''d'', n_OfferID = ''o'',
       n_CallbackAddress = '''', n_Rerequested = False, n_CounterpartyID = '''', n_CreatedAt = 0,
       n_UpdatedAt = 0\<rparr>]\<rparr>) = (Inr (), s') \<and>
     SetState ''n'' ''REQUESTED'' ''TERMINATED'' 8 IoOk s' = (Inl ErrStateChanged, s')"
  using a_race_has_one_winner [of "empty_store\<lparr>negotiations := [\<lparr>n_ProviderPID = ''n'',
       n_ConsumerPID = ''c'', n_State = ''REQUESTED'', n_DatasetID = ''d'', n_OfferID = ''o'',
       n_CallbackAddress = '''', n_Rerequested = False, n_CounterpartyID = '''', n_CreatedAt = 0,
       n_UpdatedAt = 0\<rparr>]\<rparr>" "''n''" _ "''REQUESTED''" "''AGREED''" 7]
  by (fastforce simp: store_wf_def empty_store_def table_simps)

text \<open>
  An insertion succeeds exactly when its primary key is new; what is read under any id
  afterwards is the new row under its own id, and the old content everywhere else.
\<close>

theorem created_negotiation_is_read_back:
  "fst (Create n IoOk s) =
     (if find_negotiation (n_ProviderPID n) s = None then Inr () else Inl ErrDriver) \<and>
   fst (Get k IoOk (snd (Create n IoOk s))) =
     Inr (if find_negotiation (n_ProviderPID n) s = None \<and> k = n_ProviderPID n then Some n
          else find_negotiation k s)"
proof (cases "find_negotiation (n_ProviderPID n) s")
  case None
  then show ?thesis using neg.create_ok_iff [of n s] neg.get_after_create [of n s k] by simp
next
  case (Some n')
  then show ?thesis using neg.create_duplicate [OF Some, of IoOk] neg.get_ok by simp
qed

text \<open>
  Once the database has accepted a roster version, it accepts no older one, whatever versions
  are presented in between and whatever happens to those statements.
\<close>

theorem roster_never_goes_back:
  assumes "fst (RecordRosterVersion v IoOk s) = Inr ()"
    and "fst (RecordRosterVersion v' i
      (fold (\<lambda>(x, j) s. snd (RecordRosterVersion x j s)) later (snd (RecordRosterVersion v IoOk s)))) = Inr ()"
  shows "v \<le> v'"
proof -
  have step: "(\<exists>h. roster_version (snd (RecordRosterVersion x j s)) = Some h \<and> v \<le> h)"
    if "\<exists>h. roster_version s = Some h \<and> v \<le> h" for x j s
    using that by (cases j) (auto simp: RecordRosterVersion_def)
  have "\<exists>h. roster_version (snd (RecordRosterVersion v IoOk s)) = Some h \<and> v \<le> h"
    using assms(1) by (auto simp: RecordRosterVersion_def split: option.splits if_splits)
  then have "\<exists>h. roster_version
      (fold (\<lambda>(x, j) s. snd (RecordRosterVersion x j s)) later (snd (RecordRosterVersion v IoOk s))) = Some h
      \<and> v \<le> h"
    by (induction later arbitrary: s rule: rev_induct) (use step in \<open>auto simp: case_prod_beta\<close>)
  then show ?thesis using assms(2) by (cases i) (auto simp: RecordRosterVersion_def split: if_splits)
qed

end
