(* ===== verification/Json.thy ===== *)
theory Json
  imports Prelude
begin

text \<open>
  What the program uses of Go's \<^verbatim>\<open>encoding/json\<close>.  A JSON value keeps its members in
  order; a decoder takes the value found in the text and the Go value decoded into, and gives the
  new Go value or \<open>None\<close> for an error.  As in Go, a member that names no field is ignored, field
  names match without regard to (ASCII) case, a repeated member is decoded again, and
  \<^verbatim>\<open>null\<close> leaves a string or struct as it is and empties a slice or pointer.
\<close>

datatype json =
    JNull
  | JBool bool
  | JNum string
  | JStr string
  | JArr "json list"
  | JObj "(string \<times> json) list"

type_synonym 'a decoder = "json \<Rightarrow> 'a \<Rightarrow> 'a option"

definition ascii_lower :: "char \<Rightarrow> char" where
  "ascii_lower c = (if 65 \<le> (of_char c :: nat) \<and> (of_char c :: nat) \<le> 90
                    then char_of ((of_char c :: nat) + 32) else c)"

text \<open>\<^verbatim>\<open>strings.EqualFold\<close> on ASCII text.\<close>

definition equal_fold :: "string \<Rightarrow> string \<Rightarrow> bool" where
  "equal_fold a b \<longleftrightarrow> map ascii_lower a = map ascii_lower b"

section \<open>Decoders\<close>

definition dec_string :: "string decoder" where
  "dec_string j old = (case j of JStr s \<Rightarrow> Some s | JNull \<Rightarrow> Some old | _ \<Rightarrow> None)"

text \<open>\<^verbatim>\<open>json.RawMessage\<close> keeps whatever value stands there, \<^verbatim>\<open>null\<close> included.\<close>

definition dec_raw :: "json option decoder" where
  "dec_raw j old = Some (Some j)"

primrec dec_elems :: "(json \<Rightarrow> 'a option) \<Rightarrow> json list \<Rightarrow> 'a list option" where
  "dec_elems d [] = Some []"
| "dec_elems d (j # js) =
     (case d j of None \<Rightarrow> None | Some x \<Rightarrow> map_option (\<lambda>xs. x # xs) (dec_elems d js))"

definition dec_list :: "'a decoder \<Rightarrow> 'a \<Rightarrow> 'a list decoder" where
  "dec_list d zero j old = (case j of
     JArr js \<Rightarrow> dec_elems (\<lambda>x. d x zero) js | JNull \<Rightarrow> Some [] | _ \<Rightarrow> None)"

definition dec_pointer :: "'a decoder \<Rightarrow> 'a \<Rightarrow> 'a option decoder" where
  "dec_pointer d zero j old = (case j of
     JNull \<Rightarrow> Some None
   | _ \<Rightarrow> map_option Some (d j (case old of None \<Rightarrow> zero | Some x \<Rightarrow> x)))"

text \<open>A field of a struct: its JSON name and how a value is decoded into the struct.\<close>

type_synonym 'r json_field = "string \<times> 'r decoder"

definition field_of ::
  "string \<Rightarrow> ('r \<Rightarrow> 'a) \<Rightarrow> ('a \<Rightarrow> 'r \<Rightarrow> 'r) \<Rightarrow> 'a decoder \<Rightarrow> 'r json_field" where
  "field_of name sel put d = (name, \<lambda>j r. map_option (\<lambda>x. put x r) (d j (sel r)))"

definition lookup_field :: "'r json_field list \<Rightarrow> string \<Rightarrow> 'r decoder option" where
  "lookup_field fields name = (case map_of fields name of
     Some d \<Rightarrow> Some d
   | None \<Rightarrow> map_option snd (find (\<lambda>f. equal_fold (fst f) name) fields))"

primrec dec_members :: "'r json_field list \<Rightarrow> (string \<times> json) list \<Rightarrow> 'r \<Rightarrow> 'r option" where
  "dec_members fields [] r = Some r"
| "dec_members fields (m # ms) r = (case lookup_field fields (fst m) of
     None \<Rightarrow> dec_members fields ms r
   | Some d \<Rightarrow> Option.bind (d (snd m) r) (dec_members fields ms))"

definition dec_struct :: "'r json_field list \<Rightarrow> 'r decoder" where
  "dec_struct fields j r = (case j of
     JObj ms \<Rightarrow> dec_members fields ms r | JNull \<Rightarrow> Some r | _ \<Rightarrow> None)"

text \<open>Decoding the first value of a body into a zero struct; \<open>None\<close> is a text that is no JSON.\<close>

definition decode :: "'r decoder \<Rightarrow> 'r \<Rightarrow> json option \<Rightarrow> 'r option" where
  "decode d zero body = (case body of None \<Rightarrow> None | Some j \<Rightarrow> d j zero)"

lemma decode_None [simp]: "decode d zero None = None"
  by (simp add: decode_def)

lemma decode_null_struct [simp]: "decode (dec_struct fields) zero (Some JNull) = Some zero"
  by (simp add: decode_def dec_struct_def)

text \<open>Members that name no field, or are absent, leave the struct as it was.\<close>

lemma dec_members_unknown:
  "(\<And>m. m \<in> set ms \<Longrightarrow> lookup_field fields (fst m) = None) \<Longrightarrow> dec_members fields ms r = Some r"
  by (induction ms) auto

lemma dec_members_append:
  "dec_members fields (xs @ ys) r = Option.bind (dec_members fields xs r) (dec_members fields ys)"
proof (induction xs arbitrary: r)
  case (Cons m xs)
  then show ?case
    by (cases "lookup_field fields (fst m)"; simp) (metis bind_assoc)
qed simp

text \<open>A list of encoded strings is read back.\<close>

lemma dec_elems_strings: "dec_elems (\<lambda>x. dec_string x '''') (map JStr ss) = Some ss"
  by (induction ss) (auto simp: dec_string_def)

lemma dec_elems_map:
  "(\<And>x. x \<in> set xs \<Longrightarrow> d (enc x) = Some x) \<Longrightarrow> dec_elems d (map enc xs) = Some xs"
  by (induction xs) auto

end
