(* ===== verification/GoTime.thy ===== *)
theory GoTime
  imports Prelude
begin

text \<open>
  What the program uses of Go's \<^verbatim>\<open>time\<close> and \<^verbatim>\<open>strconv\<close>: the proleptic
  Gregorian calendar, \<^verbatim>\<open>Format\<close> in UTC with the layouts \<^verbatim>\<open>RFC3339\<close> and
  \<^verbatim>\<open>RFC3339Nano\<close>, \<^verbatim>\<open>Parse\<close> with \<^verbatim>\<open>RFC3339\<close>, and decimal numerals.
  Years are counted from 1 March, so that the leap day ends its year.  The theory proves that
  parsing reads back every instant formatting writes, to the second.
\<close>

section \<open>Decimal numerals\<close>

definition digit_char :: "int \<Rightarrow> char" where
  "digit_char n = char_of (nat (48 + n))"

definition digit_val :: "char \<Rightarrow> int option" where
  "digit_val c = (let n = (of_char c :: nat) in if 48 \<le> n \<and> n \<le> 57 then Some (int n - 48) else None)"

function decimal :: "int \<Rightarrow> string" where
  "decimal n = (if n < 10 then [digit_char n] else decimal (n div 10) @ [digit_char (n mod 10)])"
  by pat_completeness auto
termination
  by (relation "measure nat") auto

declare decimal.simps [simp del]

text \<open>\<^verbatim>\<open>strconv.Itoa\<close> and \<^verbatim>\<open>FormatInt\<close> in base ten.\<close>

definition itoa :: "int \<Rightarrow> string" where
  "itoa i = (if i < 0 then CHR ''-'' # decimal (- i) else decimal i)"

text \<open>A run of digits read as a number, \<open>None\<close> if a character is no digit.\<close>

primrec digits_val :: "int \<Rightarrow> string \<Rightarrow> int option" where
  "digits_val acc [] = Some acc"
| "digits_val acc (c # cs) =
     (case digit_val c of None \<Rightarrow> None | Some d \<Rightarrow> digits_val (10 * acc + d) cs)"

lemma digit_val_char [simp]:
  assumes "0 \<le> n" and "n < 10"
  shows "digit_val (digit_char n) = Some n"
proof -
  have "nat (48 + n) mod 256 = nat (48 + n)" using assms by simp
  then have "(of_char (char_of (nat (48 + n))) :: nat) = nat (48 + n)" by simp
  then show ?thesis using assms by (simp add: digit_val_def digit_char_def Let_def nat_le_iff le_nat_iff)
qed

lemma digits_val_append:
  "digits_val acc (xs @ ys) = Option.bind (digits_val acc xs) (\<lambda>a. digits_val a ys)"
  by (induction xs arbitrary: acc) (auto split: option.splits)

lemma digits_val_decimal: "0 \<le> n \<Longrightarrow> digits_val 0 (decimal n) = Some n"
proof (induction n rule: decimal.induct)
  case (1 n)
  then show ?case
    by (cases "n < 10") (auto simp: decimal.simps [of n] digits_val_append)
qed

lemma decimal_nonempty: "decimal n \<noteq> []"
  by (subst decimal.simps) simp

text \<open>Zero-padded to a width, as \<^verbatim>\<open>appendInt\<close> writes the fields of a time.\<close>

definition pad_int :: "nat \<Rightarrow> int \<Rightarrow> string" where
  "pad_int w i = (let s = decimal \<bar>i\<bar>; p = replicate (w - length s) CHR ''0'' @ s
                  in if i < 0 then CHR ''-'' # p else p)"

section \<open>The calendar\<close>

definition ns_per_sec :: int where "ns_per_sec = 1000000000"
definition secs_per_day :: int where "secs_per_day = 86400"

definition is_leap :: "int \<Rightarrow> bool" where
  "is_leap y \<longleftrightarrow> y mod 4 = 0 \<and> (y mod 100 \<noteq> 0 \<or> y mod 400 = 0)"

definition days_in :: "int \<Rightarrow> int \<Rightarrow> int" where
  "days_in m y = (if m = 2 then (if is_leap y then 29 else 28)
                  else if m \<in> {4, 6, 9, 11} then 30 else 31)"

text \<open>Days from 1 March of year 0 to the first day of the \<open>mp\<close>-th month after March.\<close>

definition month_start :: "int \<Rightarrow> int" where
  "month_start mp = (153 * mp + 2) div 5"

text \<open>Days since the Unix epoch of a civil date, and back.\<close>

definition days_from_civil :: "int \<Rightarrow> int \<Rightarrow> int \<Rightarrow> int" where
  "days_from_civil y m d =
     (let y' = (if m \<le> 2 then y - 1 else y); mp = (if m \<le> 2 then m + 9 else m - 3)
      in 365 * y' + y' div 4 - y' div 100 + y' div 400 + month_start mp + (d - 1) - 719468)"

text \<open>
  The date of a day: 400-year cycles of 146097 days, of four centuries of which the last has one
  day more, of four-year cycles of 1461 days, of four years of which the last has one day more.
\<close>

definition civil_from_days :: "int \<Rightarrow> int \<times> int \<times> int" where
  "civil_from_days z =
     (let z' = z + 719468;
          era = z' div 146097; doe = z' mod 146097;
          c = min 3 (doe div 36524); doc = doe - 36524 * c;
          q = doc div 1461; doq = doc mod 1461;
          a = min 3 (doq div 365); doy = doq - 365 * a;
          y = 400 * era + 100 * c + 4 * q + a;
          mp = (5 * doy + 2) div 153; d = doy - month_start mp + 1
      in if mp < 10 then (y, mp + 3, d) else (y + 1, mp - 9, d))"

section \<open>Format\<close>

record civil =
  cv_year :: int
  cv_month :: int
  cv_day :: int
  cv_hour :: int
  cv_min :: int
  cv_sec :: int
  cv_nsec :: int

definition civil_of :: "instant \<Rightarrow> civil" where
  "civil_of t =
     (let secs = t div ns_per_sec; (y, m, d) = civil_from_days (secs div secs_per_day);
          sod = secs mod secs_per_day
      in \<lparr>cv_year = y, cv_month = m, cv_day = d, cv_hour = sod div 3600,
          cv_min = sod mod 3600 div 60, cv_sec = sod mod 60, cv_nsec = t mod ns_per_sec\<rparr>)"

definition date_time :: "civil \<Rightarrow> string" where
  "date_time c =
     pad_int 4 (cv_year c) @ ''-'' @ pad_int 2 (cv_month c) @ ''-'' @ pad_int 2 (cv_day c) @ ''T'' @
     pad_int 2 (cv_hour c) @ '':'' @ pad_int 2 (cv_min c) @ '':'' @ pad_int 2 (cv_sec c)"

text \<open>\<^verbatim>\<open>t.UTC().Format(time.RFC3339)\<close> and \<^verbatim>\<open>t.UTC().Format(time.RFC3339Nano)\<close>.\<close>

definition format_RFC3339 :: "instant \<Rightarrow> string" where
  "format_RFC3339 t = date_time (civil_of t) @ ''Z''"

definition trim_zeros :: "string \<Rightarrow> string" where
  "trim_zeros s = rev (dropWhile (\<lambda>c. c = CHR ''0'') (rev s))"

definition format_RFC3339Nano :: "instant \<Rightarrow> string" where
  "format_RFC3339Nano t =
     (let f = trim_zeros (pad_int 9 (t mod ns_per_sec))
      in date_time (civil_of t) @ (if f = '''' then '''' else ''.'' @ f) @ ''Z'')"

section \<open>Parse\<close>

text \<open>\<^verbatim>\<open>getnum\<close>: one or two digits, exactly two when \<open>fixed\<close>.\<close>

definition getnum :: "bool \<Rightarrow> string \<Rightarrow> (int \<times> string) option" where
  "getnum fixed s = (case s of
     [] \<Rightarrow> None
   | c # cs \<Rightarrow> (case digit_val c of
       None \<Rightarrow> None
     | Some a \<Rightarrow> (case cs of
         [] \<Rightarrow> (if fixed then None else Some (a, []))
       | c' # cs' \<Rightarrow> (case digit_val c' of
           None \<Rightarrow> (if fixed then None else Some (a, cs))
         | Some b \<Rightarrow> Some (10 * a + b, cs')))))"

definition expect :: "char \<Rightarrow> string \<Rightarrow> string option" where
  "expect c s = (case s of [] \<Rightarrow> None | x # xs \<Rightarrow> if x = c then Some xs else None)"

definition getyear :: "string \<Rightarrow> (int \<times> string) option" where
  "getyear s = (if length s < 4 then None
     else map_option (\<lambda>n. (n, drop 4 s)) (digits_val 0 (take 4 s)))"

definition getrange :: "bool \<Rightarrow> int \<Rightarrow> int \<Rightarrow> string \<Rightarrow> (int \<times> string) option" where
  "getrange fixed lo hi s = (case getnum fixed s of
     None \<Rightarrow> None | Some (n, r) \<Rightarrow> if lo \<le> n \<and> n \<le> hi then Some (n, r) else None)"

text \<open>
  A fraction may follow the seconds although the layout has none: a dot or comma and digits, of
  which nine count.
\<close>

definition getfrac :: "string \<Rightarrow> int \<times> string" where
  "getfrac s = (case s of
     x # y # r \<Rightarrow>
       if (x = CHR ''.'' \<or> x = CHR '','') \<and> digit_val y \<noteq> None
       then (let ds = takeWhile (\<lambda>c. digit_val c \<noteq> None) (y # r); n = min 9 (length ds)
             in (the (digits_val 0 (take 9 ds)) * 10 ^ (9 - n), drop (length ds) (y # r)))
       else (0, s)
   | _ \<Rightarrow> (0, s))"

text \<open>The zone offset in seconds: \<^verbatim>\<open>Z\<close>, or a signed hour and minute.\<close>

definition getzone :: "string \<Rightarrow> int option" where
  "getzone s = (if s = ''Z'' then Some 0
     else (case s of
       sg # r \<Rightarrow> Option.bind (getrange True 0 24 r) (\<lambda>(hr, r1).
                 Option.bind (expect CHR '':'' r1) (\<lambda>r2.
                 Option.bind (getrange True 0 60 r2) (\<lambda>(mm, r3).
                   if r3 \<noteq> [] then None
                   else if sg = CHR ''+'' then Some ((hr * 60 + mm) * 60)
                   else if sg = CHR ''-'' then Some (- ((hr * 60 + mm) * 60))
                   else None)))
     | [] \<Rightarrow> None))"

definition parse_RFC3339 :: "string \<Rightarrow> instant option" where
  "parse_RFC3339 s =
     Option.bind (getyear s) (\<lambda>(y, s).
     Option.bind (expect CHR ''-'' s) (\<lambda>s.
     Option.bind (getrange True 1 12 s) (\<lambda>(m, s).
     Option.bind (expect CHR ''-'' s) (\<lambda>s.
     Option.bind (getnum True s) (\<lambda>(d, s).
     Option.bind (expect CHR ''T'' s) (\<lambda>s.
     Option.bind (getrange False 0 23 s) (\<lambda>(hh, s).
     Option.bind (expect CHR '':'' s) (\<lambda>s.
     Option.bind (getrange True 0 59 s) (\<lambda>(mi, s).
     Option.bind (expect CHR '':'' s) (\<lambda>s.
     Option.bind (getrange True 0 59 s) (\<lambda>(ss, s).
       let (ns, s) = getfrac s in
     Option.bind (getzone s) (\<lambda>off.
       if d < 1 \<or> days_in m y < d then None
       else Some ((days_from_civil y m d * secs_per_day + hh * 3600 + mi * 60 + ss - off)
                    * ns_per_sec + ns))))))))))))) "

section \<open>Parsing reads back what formatting writes\<close>

text \<open>A civil date computed from a day number is a date of the calendar, and that day.\<close>

lemma era_digits:
  assumes "0 \<le> c" "c \<le> 3" "0 \<le> q" "q \<le> 24" "0 \<le> a" "a \<le> (3 :: int)"
    and "y = 400 * era + 100 * c + 4 * q + a"
  shows "365 * y + y div 4 - y div 100 + y div 400 = 146097 * era + 36524 * c + 1461 * q + 365 * a"
proof -
  have "y div 4 = 100 * era + 25 * c + q"
    by (rule int_div_pos_eq [where r = a]) (use assms in auto)
  moreover have "y div 100 = 4 * era + c"
    by (rule int_div_pos_eq [where r = "4 * q + a"]) (use assms in auto)
  moreover have "y div 400 = era"
    by (rule int_div_pos_eq [where r = "100 * c + 4 * q + a"]) (use assms in auto)
  ultimately show ?thesis using assms(7) by simp
qed

text \<open>Four periods of \<open>k\<close> days, the last of which may have one day more.\<close>

lemma min_digit:
  assumes "0 \<le> n" "n \<le> 4 * k" "0 < (k :: int)" and "c = min 3 (n div k)"
  shows "0 \<le> c" "c \<le> 3" "0 \<le> n - k * c" "n - k * c \<le> k" "c < 3 \<Longrightarrow> n - k * c < k"
    "n - k * c = k \<Longrightarrow> c = 3 \<and> n = 4 * k"
proof -
  have "0 \<le> n div k" using assms by (simp add: pos_imp_zdiv_nonneg_iff)
  then show "0 \<le> c" "c \<le> 3" using assms(4) by auto
  have le: "n - k * c = n mod k" if "n div k \<le> 3"
    using that assms(4) by (simp add: minus_mult_div_eq_mod)
  have gt: "n = 4 * k \<and> c = 3" if "\<not> n div k \<le> 3"
  proof -
    have "4 * k \<le> (n div k) * k" using that assms(3) by (intro mult_right_mono) auto
    also have "\<dots> \<le> n" using div_mult_mod_eq [of n k] pos_mod_sign [OF assms(3), of n] by linarith
    finally show ?thesis using assms(2,4) that by auto
  qed
  show "0 \<le> n - k * c" "n - k * c \<le> k" "c < 3 \<Longrightarrow> n - k * c < k"
    "n - k * c = k \<Longrightarrow> c = 3 \<and> n = 4 * k"
    using le gt assms(3) pos_mod_sign [OF assms(3), of n] pos_mod_bound [OF assms(3), of n]
    by (cases "n div k \<le> 3"; auto)+
qed

lemma month_bounds:
  assumes "0 \<le> doy" "doy \<le> (365 :: int)" and "mp = (5 * doy + 2) div 153"
  shows "0 \<le> mp" "mp \<le> 11" "month_start mp \<le> doy"
    "mp < 11 \<Longrightarrow> doy - month_start mp + 1 \<le> days_in (if mp < 10 then mp + 3 else mp - 9) y"
    "mp = 11 \<Longrightarrow> doy - month_start mp + 1 \<le> (if doy = 365 then 29 else 28)"
proof -
  have lo: "153 * mp \<le> 5 * doy + 2" and hi: "5 * doy + 2 < 153 * mp + 153"
    using assms(3) div_mult_mod_eq [of "5 * doy + 2" 153] pos_mod_sign [of 153 "5 * doy + 2"]
      pos_mod_bound [of 153 "5 * doy + 2"] by linarith+
  then show "0 \<le> mp" "mp \<le> 11" using assms(1,2) by linarith+
  then have "mp = 0 \<or> mp = 1 \<or> mp = 2 \<or> mp = 3 \<or> mp = 4 \<or> mp = 5 \<or> mp = 6 \<or> mp = 7 \<or> mp = 8 \<or>
      mp = 9 \<or> mp = 10 \<or> mp = 11" by presburger
  then show "month_start mp \<le> doy"
    "mp < 11 \<Longrightarrow> doy - month_start mp + 1 \<le> days_in (if mp < 10 then mp + 3 else mp - 9) y"
    "mp = 11 \<Longrightarrow> doy - month_start mp + 1 \<le> (if doy = 365 then 29 else 28)"
    using lo hi assms(1,2) by (auto simp: month_start_def days_in_def)
qed

lemma leap_day_ends_its_year:
  assumes "c \<le> 3" "doc \<le> 36524" "c < 3 \<Longrightarrow> doc < 36524" "0 \<le> doc div 1461" "doc div 1461 \<le> (24 :: int)"
    and "doc mod 1461 = 1460" and "0 \<le> c" and "yy = 400 * era + 100 * c + 4 * (doc div 1461) + 3"
  shows "is_leap (yy + 1)"
proof -
  define q where "q = doc div 1461"
  have doc: "doc = 1461 * q + 1460"
    using div_mult_mod_eq [of doc 1461] assms(6) unfolding q_def by linarith
  show ?thesis
  proof (cases "q = 24")
    case True
    then have "c = 3" using doc assms(1,3) by linarith
    then have "yy + 1 = (era + 1) * 400" using True assms(8) by (simp add: q_def)
    then show ?thesis by (simp add: is_leap_def)
  next
    case False
    then have q: "0 \<le> q" "q < 24" using assms(4,5) by (simp_all add: q_def)
    have yy: "yy = 400 * era + 100 * c + 4 * q + 3" using assms(8) by (simp add: q_def)
    have "(yy + 1) div 100 = 4 * era + c" "(yy + 1) mod 100 = 4 * q + 4"
      using int_div_pos_eq [of "yy + 1" 100 "4 * era + c" "4 * q + 4"]
        int_mod_pos_eq [of "yy + 1" 100 "4 * era + c" "4 * q + 4"] q
      by (simp_all add: yy)
    moreover have "yy + 1 = (100 * era + 25 * c + q + 1) * 4" by (simp add: yy)
    then have "(yy + 1) mod 4 = 0" by simp
    ultimately show ?thesis using q(1) by (simp add: is_leap_def)
  qed
qed

lemma civil_from_days_correct:
  assumes "civil_from_days z = (y, m, d)"
  shows "days_from_civil y m d = z" "1 \<le> m" "m \<le> 12" "1 \<le> d" "d \<le> days_in m y"
proof -
  define z' where "z' = z + 719468"
  define era where "era = z' div 146097"
  define doe where "doe = z' mod 146097"
  define c where "c = min 3 (doe div 36524)"
  define doc where "doc = doe - 36524 * c"
  define q where "q = doc div 1461"
  define doq where "doq = doc mod 1461"
  define a where "a = min 3 (doq div 365)"
  define doy where "doy = doq - 365 * a"
  define yy where "yy = 400 * era + 100 * c + 4 * q + a"
  define mp where "mp = (5 * doy + 2) div 153"
  note defs = z'_def era_def doe_def c_def doc_def q_def doq_def a_def doy_def yy_def mp_def
  have doe: "0 \<le> doe" "doe < 146097" by (simp_all add: doe_def)
  have c: "0 \<le> c" "c \<le> 3" "0 \<le> doc" "doc \<le> 36524" "c < 3 \<Longrightarrow> doc < 36524"
    using min_digit [of doe 36524 c] doe by (simp_all add: c_def doc_def)
  have q: "0 \<le> q" "q \<le> 24" "0 \<le> doq" "doq \<le> 1460"
    using c zdiv_mono1 [of doc 36524 1461] pos_mod_bound [of 1461 doc]
    by (simp_all add: q_def doq_def pos_imp_zdiv_nonneg_iff)
  have a: "0 \<le> a" "a \<le> 3" "0 \<le> doy" "doy \<le> 365" "doy = 365 \<Longrightarrow> a = 3 \<and> doq = 1460"
    using min_digit [of doq 365 a] q by (simp_all add: a_def doy_def)
  note mb = month_bounds [OF a(3,4) mp_def]
  have days: "365 * yy + yy div 4 - yy div 100 + yy div 400 + doy = z'"
  proof -
    have "146097 * era + 36524 * c + 1461 * q + 365 * a + doy = z'"
      unfolding doy_def doq_def q_def doc_def doe_def era_def by (simp add: minus_mod_eq_mult_div [symmetric])
    then show ?thesis using era_digits [OF c(1,2) q(1,2) a(1,2) yy_def] by simp
  qed
  have res: "(y, m, d) = (if mp < 10 then (yy, mp + 3, doy - month_start mp + 1)
      else (yy + 1, mp - 9, doy - month_start mp + 1))"
    using assms unfolding civil_from_days_def Let_def z'_def [symmetric] era_def [symmetric]
      doe_def [symmetric] c_def [symmetric] doc_def [symmetric] q_def [symmetric] doq_def [symmetric]
      a_def [symmetric] doy_def [symmetric] yy_def [symmetric] mp_def [symmetric] by (rule sym)
  then show "1 \<le> m" "m \<le> 12" "1 \<le> d" using mb(1-3) by (auto split: if_splits)
  show "days_from_civil y m d = z"
    using res days mb(1,2) by (auto simp: days_from_civil_def Let_def z'_def split: if_splits)
  have leap: "is_leap (yy + 1)" if "doy = 365"
  proof -
    have "a = 3" "doq = 1460" using a(5) [OF that] by auto
    then show ?thesis using c q(1,2) unfolding yy_def q_def doq_def by (intro leap_day_ends_its_year [where doc = doc]) auto
  qed
  have "mp < 11 \<or> mp = 11" using mb(2) by linarith
  then show "d \<le> days_in m y"
  proof
    assume "mp < 11" then show ?thesis using res mb(4) by (auto split: if_splits)
  next
    assume "mp = 11"
    then show ?thesis using res mb(5) leap by (auto simp: days_in_def split: if_splits)
  qed
qed

lemma digit_char_0: "digit_char 0 = CHR ''0''"
  by (simp add: digit_char_def) code_simp

lemma pad2:
  assumes "0 \<le> n" and "n < 100"
  shows "pad_int 2 n = [digit_char (n div 10), digit_char (n mod 10)]"
proof (cases "n < 10")
  case True
  then show ?thesis using assms by (simp add: pad_int_def decimal.simps digit_char_0 Let_def)
next
  case False
  then have "n div 10 < 10" using assms by linarith
  then show ?thesis
    using False assms by (simp add: pad_int_def decimal.simps [of n] decimal.simps [of "n div 10"] Let_def)
qed

lemma getnum_pad2: "0 \<le> n \<Longrightarrow> n < 100 \<Longrightarrow> getnum fixed (pad_int 2 n @ r) = Some (n, r)"
  by (simp add: pad2 getnum_def)

lemma getrange_pad2: "0 \<le> n \<Longrightarrow> n < 100 \<Longrightarrow> lo \<le> n \<Longrightarrow> n \<le> hi \<Longrightarrow>
    getrange fixed lo hi (pad_int 2 n @ r) = Some (n, r)"
  by (simp add: getrange_def getnum_pad2)

lemma length_decimal: "0 \<le> n \<Longrightarrow> n < 10 ^ Suc k \<Longrightarrow> length (decimal n) \<le> Suc k"
proof (induction k arbitrary: n)
  case (Suc k)
  then show ?case
    using Suc.IH [of "n div 10"] by (cases "n < 10") (simp_all add: decimal.simps [of n])
qed (simp add: decimal.simps)

lemma digits_val_zeros: "digits_val 0 (replicate k (CHR ''0'') @ s) = digits_val 0 s"
proof (induction k)
  case (Suc k)
  have "digit_val (CHR ''0'') = Some 0" using digit_val_char [of 0] by (simp add: digit_char_0)
  with Suc show ?case by simp
qed simp

lemma getyear_pad4:
  assumes "0 \<le> n" and "n < 10000"
  shows "getyear (pad_int 4 n @ r) = Some (n, r)"
proof -
  have "length (decimal n) \<le> 4" using length_decimal [of n 3] assms by simp
  moreover have "\<not> n < 0" "\<bar>n\<bar> = n" using assms(1) by auto
  ultimately show ?thesis
    using digits_val_decimal [OF assms(1)]
    by (simp add: getyear_def pad_int_def Let_def digits_val_zeros)
qed

lemma parse_date_time:
  assumes "0 \<le> y" "y < 10000" "1 \<le> m" "m \<le> 12" "1 \<le> d" "d \<le> days_in m y"
    and "0 \<le> hh" "hh \<le> 23" "0 \<le> mi" "mi \<le> 59" "0 \<le> ss" "ss \<le> 59"
  shows "parse_RFC3339 (date_time \<lparr>cv_year = y, cv_month = m, cv_day = d, cv_hour = hh, cv_min = mi,
      cv_sec = ss, cv_nsec = ns\<rparr> @ ''Z'') =
    Some ((days_from_civil y m d * secs_per_day + hh * 3600 + mi * 60 + ss) * ns_per_sec)"
proof -
  have "d \<le> 31" using assms(6) by (auto simp: days_in_def split: if_splits)
  then show ?thesis
    using assms
    by (simp add: parse_RFC3339_def date_time_def getyear_pad4 getrange_pad2 getnum_pad2
        expect_def getfrac_def getzone_def)
qed

text \<open>Every instant of the years 0 to 9999, to the second.\<close>

lemma parse_format:
  assumes "0 \<le> cv_year (civil_of t)" and "cv_year (civil_of t) < 10000"
  shows "parse_RFC3339 (format_RFC3339 t) = Some (t - t mod ns_per_sec)"
proof -
  define secs where "secs = t div ns_per_sec"
  define sod where "sod = secs mod secs_per_day"
  obtain y m d where ymd: "civil_from_days (secs div secs_per_day) = (y, m, d)"
    by (metis prod_cases3)
  note day = civil_from_days_correct [OF ymd]
  have sod: "0 \<le> sod" "sod < 86400" by (simp_all add: sod_def secs_per_day_def)
  have "sod mod 3600 \<le> 3599" using pos_mod_bound [of 3600 sod] by linarith
  then have clock: "0 \<le> sod div 3600" "sod div 3600 \<le> 23" "0 \<le> sod mod 3600 div 60"
    "sod mod 3600 div 60 \<le> 59" "0 \<le> sod mod 60" "sod mod 60 \<le> 59"
    using sod zdiv_mono1 [of sod 86399 3600] zdiv_mono1 [of "sod mod 3600" 3599 60]
      pos_mod_bound [of 60 sod]
    by (simp_all add: pos_imp_zdiv_nonneg_iff)
  have "sod mod 3600 mod 60 = sod mod 60" by (simp add: mod_mod_cancel)
  then have total: "sod div 3600 * 3600 + sod mod 3600 div 60 * 60 + sod mod 60 = sod"
    using div_mult_mod_eq [of sod 3600] div_mult_mod_eq [of "sod mod 3600" 60] by linarith
  have civ: "civil_of t = \<lparr>cv_year = y, cv_month = m, cv_day = d, cv_hour = sod div 3600,
      cv_min = sod mod 3600 div 60, cv_sec = sod mod 60, cv_nsec = t mod ns_per_sec\<rparr>"
    using ymd by (simp add: civil_of_def Let_def secs_def sod_def)
  have "secs div secs_per_day * secs_per_day + sod div 3600 * 3600 + sod mod 3600 div 60 * 60 + sod mod 60
      = secs div secs_per_day * secs_per_day + sod"
    using total by linarith
  also have "\<dots> = secs" by (simp add: sod_def)
  finally have "(days_from_civil y m d * secs_per_day + sod div 3600 * 3600 +
      sod mod 3600 div 60 * 60 + sod mod 60) * ns_per_sec = t - t mod ns_per_sec"
    using day(1) by (simp add: secs_def minus_mod_eq_div_mult)
  then show ?thesis
    using parse_date_time [OF _ _ day(2-5) clock, of "t mod ns_per_sec"] assms civ
    by (simp add: format_RFC3339_def)
qed

text \<open>
  A time written to the database or a document is read back to the second, for every year of
  four digits.
\<close>

theorem timestamps_are_read_back:
  assumes "0 \<le> cv_year (civil_of t)" and "cv_year (civil_of t) < 10000"
  shows "parse_RFC3339 (format_RFC3339 t) = Some (t - t mod ns_per_sec)"
  by (rule parse_format [OF assms])

end
