(* ===== verification/Config.thy ===== *)
theory Config
  imports Prelude
begin

text \<open>
  The configuration the protocol handlers read (\<^verbatim>\<open>internal/config/config.go\<close>): the
  participant, its datasets and the per-dataset and per-agreement policies.  A field is named
  after the Go field; \<open>None\<close> is a nil pointer or nil slice where the code tells it from an empty
  one.
\<close>

record Dataset =
  d_ID :: string
  d_ValidityUntil :: "instant option"
  d_SourceFile :: string
  d_TerminateOnVerify :: bool
  d_TransferSequence :: "string list option"
  d_SimulateInterruptAfterBytes :: int64

record ConsumerPolicy =
  p_DatasetID :: string
  p_OnOffer :: string
  p_OnAgreement :: string
  p_OnIdle :: string

record TransferPolicy =
  tp_AgreementID :: string
  tp_Sequence :: "string list"

record ConsumerTransferPolicy =
  cp_AgreementID :: string
  cp_After :: string
  cp_Sequence :: "string list"

record Config =
  PublicURL :: string
  ParticipantID :: string
  Datasets :: "Dataset list"
  DevMode :: bool
  DSPAddr :: string
  MgmtAddr :: string
  MgmtToken :: string
  DataDir :: string
  DataIdleTimeout :: int64
  MaxDownloadBytes :: int64
  ConsumerPolicies :: "ConsumerPolicy list"
  TransferPolicies :: "TransferPolicy list"
  ConsumerTransferPolicies :: "ConsumerTransferPolicy list"
  ParticipantKey :: string
  RosterPath :: string
  RosterSigner :: string
  RequireAuth :: "bool option"

definition AuthRequired :: "Config \<Rightarrow> bool" where
  "AuthRequired c \<longleftrightarrow> RequireAuth c = None \<or> RequireAuth c = Some True"

end
