(* ===== verification/Messages.thy ===== *)
theory Messages
  imports Json GoTime Config Store
begin

text \<open>
  The wire documents of \<^verbatim>\<open>internal/dsp\<close>: what the two protocols declare of each message
  (\<^verbatim>\<open>negotiation.go\<close>, \<^verbatim>\<open>transfer.go\<close>, the policy part of \<^verbatim>\<open>catalog.go\<close>,
  \<^verbatim>\<open>error.go\<close>), the decoders of the messages received and the builders of the messages
  sent.  \<^verbatim>\<open>newMessageID\<close> and \<^verbatim>\<open>time.Now\<close> are arguments of the builders that use
  them.  The theory proves that the only constraint the provider writes is one the consumer
  recognises.
\<close>

section \<open>Constants\<close>

definition ContextURL :: string where
  "ContextURL = ''https://w3id.org/dspace/2025/1/context.jsonld''"

definition VersionPath :: string where "VersionPath = ''/2025-1''"

definition StateRequested :: string where "StateRequested = ''REQUESTED''"
definition StateOffered :: string where "StateOffered = ''OFFERED''"
definition StateAccepted :: string where "StateAccepted = ''ACCEPTED''"
definition StateAgreed :: string where "StateAgreed = ''AGREED''"
definition StateVerified :: string where "StateVerified = ''VERIFIED''"
definition StateFinalized :: string where "StateFinalized = ''FINALIZED''"
definition StateTerminated :: string where "StateTerminated = ''TERMINATED''"

definition TransferRequested :: string where "TransferRequested = ''REQUESTED''"
definition TransferStarted :: string where "TransferStarted = ''STARTED''"
definition TransferCompleted :: string where "TransferCompleted = ''COMPLETED''"
definition TransferSuspended :: string where "TransferSuspended = ''SUSPENDED''"
definition TransferTerminated :: string where "TransferTerminated = ''TERMINATED''"

lemmas state_defs = StateRequested_def StateOffered_def StateAccepted_def StateAgreed_def
  StateVerified_def StateFinalized_def StateTerminated_def

lemmas transfer_state_defs = TransferRequested_def TransferStarted_def TransferCompleted_def
  TransferSuspended_def TransferTerminated_def

definition ContractRequestMessageType :: string where
  "ContractRequestMessageType = ''ContractRequestMessage''"
definition ContractOfferMessageType :: string where
  "ContractOfferMessageType = ''ContractOfferMessage''"
definition ContractNegotiationEventMessageType :: string where
  "ContractNegotiationEventMessageType = ''ContractNegotiationEventMessage''"
definition ContractAgreementMessageType :: string where
  "ContractAgreementMessageType = ''ContractAgreementMessage''"
definition ContractAgreementVerificationMessageType :: string where
  "ContractAgreementVerificationMessageType = ''ContractAgreementVerificationMessage''"
definition ContractNegotiationTerminationMessageType :: string where
  "ContractNegotiationTerminationMessageType = ''ContractNegotiationTerminationMessage''"
definition ContractNegotiationType :: string where
  "ContractNegotiationType = ''ContractNegotiation''"
definition ContractNegotiationErrorType :: string where
  "ContractNegotiationErrorType = ''ContractNegotiationError''"
definition AgreementType :: string where "AgreementType = ''Agreement''"
definition eventTypeAccepted :: string where "eventTypeAccepted = ''ACCEPTED''"
definition eventTypeFinalized :: string where "eventTypeFinalized = ''FINALIZED''"
definition terminationCode :: string where "terminationCode = ''1''"
definition OfferType :: string where "OfferType = ''Offer''"
definition offerIDSuffix :: string where "offerIDSuffix = ''#offer''"
definition useAction :: string where "useAction = ''use''"
definition leftOperandDateTime :: string where "leftOperandDateTime = ''dateTime''"
definition operatorLTEq :: string where "operatorLTEq = ''lteq''"

definition TransferRequestMessageType :: string where
  "TransferRequestMessageType = ''TransferRequestMessage''"
definition TransferProcessType :: string where "TransferProcessType = ''TransferProcess''"
definition TransferStartMessageType :: string where
  "TransferStartMessageType = ''TransferStartMessage''"
definition TransferSuspensionMessageType :: string where
  "TransferSuspensionMessageType = ''TransferSuspensionMessage''"
definition TransferTerminationMessageType :: string where
  "TransferTerminationMessageType = ''TransferTerminationMessage''"
definition TransferCompletionMessageType :: string where
  "TransferCompletionMessageType = ''TransferCompletionMessage''"
definition TransferErrorType :: string where "TransferErrorType = ''TransferError''"

lemmas negotiation_type_defs = ContractRequestMessageType_def ContractOfferMessageType_def
  ContractNegotiationEventMessageType_def ContractAgreementMessageType_def
  ContractAgreementVerificationMessageType_def ContractNegotiationTerminationMessageType_def
  ContractNegotiationType_def ContractNegotiationErrorType_def

lemmas transfer_type_defs = TransferRequestMessageType_def TransferProcessType_def
  TransferStartMessageType_def TransferSuspensionMessageType_def
  TransferTerminationMessageType_def TransferCompletionMessageType_def TransferErrorType_def

section \<open>Policies\<close>

record Permission =
  pm_Action :: string
  pm_Constraint :: "json list"

record Constraint =
  k_LeftOperand :: string
  k_Operator :: string
  k_RightOperand :: string

definition zero_Constraint :: Constraint where
  "zero_Constraint = \<lparr>k_LeftOperand = '''', k_Operator = '''', k_RightOperand = ''''\<rparr>"

definition Constraint_fields :: "Constraint json_field list" where
  "Constraint_fields =
     [field_of ''leftOperand'' k_LeftOperand (\<lambda>x. k_LeftOperand_update (\<lambda>_. x)) dec_string,
      field_of ''operator'' k_Operator (\<lambda>x. k_Operator_update (\<lambda>_. x)) dec_string,
      field_of ''rightOperand'' k_RightOperand (\<lambda>x. k_RightOperand_update (\<lambda>_. x)) dec_string]"

definition json_of_Constraint :: "Constraint \<Rightarrow> json" where
  "json_of_Constraint c =
     JObj [(''leftOperand'', JStr (k_LeftOperand c)), (''operator'', JStr (k_Operator c)),
           (''rightOperand'', JStr (k_RightOperand c))]"

definition buildPermission :: "instant option \<Rightarrow> Permission list" where
  "buildPermission validityUntil = (case validityUntil of
     None \<Rightarrow> [\<lparr>pm_Action = useAction, pm_Constraint = []\<rparr>]
   | Some t \<Rightarrow> [\<lparr>pm_Action = useAction,
                 pm_Constraint = [json_of_Constraint \<lparr>k_LeftOperand = leftOperandDateTime,
                   k_Operator = operatorLTEq, k_RightOperand = format_RFC3339 t\<rparr>]\<rparr>])"

definition isValidityPeriodConstraint :: "json list \<Rightarrow> bool" where
  "isValidityPeriodConstraint cs = (case cs of
     [j] \<Rightarrow> (case decode (dec_struct Constraint_fields) zero_Constraint (Some j) of
        None \<Rightarrow> False
      | Some c \<Rightarrow>
          if k_LeftOperand c \<noteq> leftOperandDateTime \<or> k_Operator c \<noteq> operatorLTEq then False
          else parse_RFC3339 (k_RightOperand c) \<noteq> None)
   | _ \<Rightarrow> False)"

definition hasUnenforceableConstraint :: "Permission list \<Rightarrow> bool" where
  "hasUnenforceableConstraint permission \<longleftrightarrow>
     (\<exists>p \<in> set permission. pm_Constraint p \<noteq> [] \<and> \<not> isValidityPeriodConstraint (pm_Constraint p))"

definition zero_Permission :: Permission where
  "zero_Permission = \<lparr>pm_Action = '''', pm_Constraint = []\<rparr>"

definition dec_json :: "json decoder" where
  "dec_json j old = Some j"

definition Permission_fields :: "Permission json_field list" where
  "Permission_fields =
     [field_of ''action'' pm_Action (\<lambda>x. pm_Action_update (\<lambda>_. x)) dec_string,
      field_of ''constraint'' pm_Constraint (\<lambda>x. pm_Constraint_update (\<lambda>_. x))
        (dec_list dec_json JNull)]"

definition json_of_Permission :: "Permission \<Rightarrow> json" where
  "json_of_Permission p =
     JObj ((''action'', JStr (pm_Action p)) #
           (if pm_Constraint p = [] then [] else [(''constraint'', JArr (pm_Constraint p))]))"

section \<open>Messages received\<close>

text \<open>
  Each record declares the fields the code reads; \<open>zero_\<close> is Go's zero value, and
  \<open>_fields\<close> pairs the JSON names of the struct tags with the fields.
\<close>

record OfferRef =
  or_ID :: string
  or_Target :: string

definition zero_OfferRef :: OfferRef where
  "zero_OfferRef = \<lparr>or_ID = '''', or_Target = ''''\<rparr>"

definition OfferRef_fields :: "OfferRef json_field list" where
  "OfferRef_fields =
     [field_of ''@id'' or_ID (\<lambda>x. or_ID_update (\<lambda>_. x)) dec_string,
      field_of ''target'' or_Target (\<lambda>x. or_Target_update (\<lambda>_. x)) dec_string]"

record RequestMessage =
  rm_Context :: "string list"
  rm_Type :: string
  rm_ConsumerPID :: string
  rm_Offer :: OfferRef
  rm_CallbackAddress :: string

definition zero_RequestMessage :: RequestMessage where
  "zero_RequestMessage = \<lparr>rm_Context = [], rm_Type = '''', rm_ConsumerPID = '''', rm_Offer = zero_OfferRef, rm_CallbackAddress = ''''\<rparr>"

definition RequestMessage_fields :: "RequestMessage json_field list" where
  "RequestMessage_fields =
     [field_of ''@context'' rm_Context (\<lambda>x. rm_Context_update (\<lambda>_. x)) (dec_list dec_string ''''),
      field_of ''@type'' rm_Type (\<lambda>x. rm_Type_update (\<lambda>_. x)) dec_string,
      field_of ''consumerPid'' rm_ConsumerPID (\<lambda>x. rm_ConsumerPID_update (\<lambda>_. x)) dec_string,
      field_of ''offer'' rm_Offer (\<lambda>x. rm_Offer_update (\<lambda>_. x)) (dec_struct OfferRef_fields),
      field_of ''callbackAddress'' rm_CallbackAddress (\<lambda>x. rm_CallbackAddress_update (\<lambda>_. x)) dec_string]"

record envelope =
  ev_Context :: "string list"
  ev_Type :: string

definition zero_envelope :: envelope where
  "zero_envelope = \<lparr>ev_Context = [], ev_Type = ''''\<rparr>"

definition envelope_fields :: "envelope json_field list" where
  "envelope_fields =
     [field_of ''@context'' ev_Context (\<lambda>x. ev_Context_update (\<lambda>_. x)) (dec_list dec_string ''''),
      field_of ''@type'' ev_Type (\<lambda>x. ev_Type_update (\<lambda>_. x)) dec_string]"

record EventBody =
  eb_Context :: "string list"
  eb_Type :: string
  eb_EventType :: string

definition zero_EventBody :: EventBody where
  "zero_EventBody = \<lparr>eb_Context = [], eb_Type = '''', eb_EventType = ''''\<rparr>"

definition EventBody_fields :: "EventBody json_field list" where
  "EventBody_fields =
     [field_of ''@context'' eb_Context (\<lambda>x. eb_Context_update (\<lambda>_. x)) (dec_list dec_string ''''),
      field_of ''@type'' eb_Type (\<lambda>x. eb_Type_update (\<lambda>_. x)) dec_string,
      field_of ''eventType'' eb_EventType (\<lambda>x. eb_EventType_update (\<lambda>_. x)) dec_string]"

record NegotiationOffer =
  no_ID :: string
  no_Type :: string
  no_Target :: string
  no_Permission :: "Permission list"

definition zero_NegotiationOffer :: NegotiationOffer where
  "zero_NegotiationOffer = \<lparr>no_ID = '''', no_Type = '''', no_Target = '''', no_Permission = []\<rparr>"

definition NegotiationOffer_fields :: "NegotiationOffer json_field list" where
  "NegotiationOffer_fields =
     [field_of ''@id'' no_ID (\<lambda>x. no_ID_update (\<lambda>_. x)) dec_string,
      field_of ''@type'' no_Type (\<lambda>x. no_Type_update (\<lambda>_. x)) dec_string,
      field_of ''target'' no_Target (\<lambda>x. no_Target_update (\<lambda>_. x)) dec_string,
      field_of ''permission'' no_Permission (\<lambda>x. no_Permission_update (\<lambda>_. x)) (dec_list (dec_struct Permission_fields) zero_Permission)]"

record OfferMessage =
  om_Context :: "string list"
  om_ID :: string
  om_Type :: string
  om_ProviderPID :: string
  om_ConsumerPID :: string
  om_Offer :: NegotiationOffer

definition zero_OfferMessage :: OfferMessage where
  "zero_OfferMessage = \<lparr>om_Context = [], om_ID = '''', om_Type = '''', om_ProviderPID = '''', om_ConsumerPID = '''', om_Offer = zero_NegotiationOffer\<rparr>"

definition OfferMessage_fields :: "OfferMessage json_field list" where
  "OfferMessage_fields =
     [field_of ''@context'' om_Context (\<lambda>x. om_Context_update (\<lambda>_. x)) (dec_list dec_string ''''),
      field_of ''@id'' om_ID (\<lambda>x. om_ID_update (\<lambda>_. x)) dec_string,
      field_of ''@type'' om_Type (\<lambda>x. om_Type_update (\<lambda>_. x)) dec_string,
      field_of ''providerPid'' om_ProviderPID (\<lambda>x. om_ProviderPID_update (\<lambda>_. x)) dec_string,
      field_of ''consumerPid'' om_ConsumerPID (\<lambda>x. om_ConsumerPID_update (\<lambda>_. x)) dec_string,
      field_of ''offer'' om_Offer (\<lambda>x. om_Offer_update (\<lambda>_. x)) (dec_struct NegotiationOffer_fields)]"

text \<open>The wire type \<^verbatim>\<open>Agreement\<close> of \<^verbatim>\<open>negotiation.go\<close>, apart from the row of that name.\<close>

record AgreementBody =
  ab_ID :: string
  ab_Type :: string
  ab_Target :: string
  ab_Permission :: "Permission list"
  ab_Assigner :: string
  ab_Assignee :: string
  ab_Timestamp :: string

definition zero_AgreementBody :: AgreementBody where
  "zero_AgreementBody = \<lparr>ab_ID = '''', ab_Type = '''', ab_Target = '''', ab_Permission = [], ab_Assigner = '''', ab_Assignee = '''', ab_Timestamp = ''''\<rparr>"

definition AgreementBody_fields :: "AgreementBody json_field list" where
  "AgreementBody_fields =
     [field_of ''@id'' ab_ID (\<lambda>x. ab_ID_update (\<lambda>_. x)) dec_string,
      field_of ''@type'' ab_Type (\<lambda>x. ab_Type_update (\<lambda>_. x)) dec_string,
      field_of ''target'' ab_Target (\<lambda>x. ab_Target_update (\<lambda>_. x)) dec_string,
      field_of ''permission'' ab_Permission (\<lambda>x. ab_Permission_update (\<lambda>_. x)) (dec_list (dec_struct Permission_fields) zero_Permission),
      field_of ''assigner'' ab_Assigner (\<lambda>x. ab_Assigner_update (\<lambda>_. x)) dec_string,
      field_of ''assignee'' ab_Assignee (\<lambda>x. ab_Assignee_update (\<lambda>_. x)) dec_string,
      field_of ''timestamp'' ab_Timestamp (\<lambda>x. ab_Timestamp_update (\<lambda>_. x)) dec_string]"

record AgreementMessage =
  am_Context :: "string list"
  am_ID :: string
  am_Type :: string
  am_ProviderPID :: string
  am_ConsumerPID :: string
  am_Agreement :: AgreementBody
  am_CallbackAddress :: string

definition zero_AgreementMessage :: AgreementMessage where
  "zero_AgreementMessage = \<lparr>am_Context = [], am_ID = '''', am_Type = '''', am_ProviderPID = '''', am_ConsumerPID = '''', am_Agreement = zero_AgreementBody, am_CallbackAddress = ''''\<rparr>"

definition AgreementMessage_fields :: "AgreementMessage json_field list" where
  "AgreementMessage_fields =
     [field_of ''@context'' am_Context (\<lambda>x. am_Context_update (\<lambda>_. x)) (dec_list dec_string ''''),
      field_of ''@id'' am_ID (\<lambda>x. am_ID_update (\<lambda>_. x)) dec_string,
      field_of ''@type'' am_Type (\<lambda>x. am_Type_update (\<lambda>_. x)) dec_string,
      field_of ''providerPid'' am_ProviderPID (\<lambda>x. am_ProviderPID_update (\<lambda>_. x)) dec_string,
      field_of ''consumerPid'' am_ConsumerPID (\<lambda>x. am_ConsumerPID_update (\<lambda>_. x)) dec_string,
      field_of ''agreement'' am_Agreement (\<lambda>x. am_Agreement_update (\<lambda>_. x)) (dec_struct AgreementBody_fields),
      field_of ''callbackAddress'' am_CallbackAddress (\<lambda>x. am_CallbackAddress_update (\<lambda>_. x)) dec_string]"

record NegotiationStateDocument =
  nd_Context :: "string list"
  nd_ID :: string
  nd_Type :: string
  nd_ProviderPID :: string
  nd_ConsumerPID :: string
  nd_State :: string

definition zero_NegotiationStateDocument :: NegotiationStateDocument where
  "zero_NegotiationStateDocument = \<lparr>nd_Context = [], nd_ID = '''', nd_Type = '''', nd_ProviderPID = '''', nd_ConsumerPID = '''', nd_State = ''''\<rparr>"

definition NegotiationStateDocument_fields :: "NegotiationStateDocument json_field list" where
  "NegotiationStateDocument_fields =
     [field_of ''@context'' nd_Context (\<lambda>x. nd_Context_update (\<lambda>_. x)) (dec_list dec_string ''''),
      field_of ''@id'' nd_ID (\<lambda>x. nd_ID_update (\<lambda>_. x)) dec_string,
      field_of ''@type'' nd_Type (\<lambda>x. nd_Type_update (\<lambda>_. x)) dec_string,
      field_of ''providerPid'' nd_ProviderPID (\<lambda>x. nd_ProviderPID_update (\<lambda>_. x)) dec_string,
      field_of ''consumerPid'' nd_ConsumerPID (\<lambda>x. nd_ConsumerPID_update (\<lambda>_. x)) dec_string,
      field_of ''state'' nd_State (\<lambda>x. nd_State_update (\<lambda>_. x)) dec_string]"

record initiateRequestBody =
  ib_ProviderID :: string
  ib_OfferID :: string
  ib_DatasetID :: string
  ib_ConnectorAddress :: string

definition zero_initiateRequestBody :: initiateRequestBody where
  "zero_initiateRequestBody = \<lparr>ib_ProviderID = '''', ib_OfferID = '''', ib_DatasetID = '''', ib_ConnectorAddress = ''''\<rparr>"

definition initiateRequestBody_fields :: "initiateRequestBody json_field list" where
  "initiateRequestBody_fields =
     [field_of ''providerId'' ib_ProviderID (\<lambda>x. ib_ProviderID_update (\<lambda>_. x)) dec_string,
      field_of ''offerId'' ib_OfferID (\<lambda>x. ib_OfferID_update (\<lambda>_. x)) dec_string,
      field_of ''datasetId'' ib_DatasetID (\<lambda>x. ib_DatasetID_update (\<lambda>_. x)) dec_string,
      field_of ''connectorAddress'' ib_ConnectorAddress (\<lambda>x. ib_ConnectorAddress_update (\<lambda>_. x)) dec_string]"

record TransferRequestMessage =
  tm_Context :: "string list"
  tm_Type :: string
  tm_ConsumerPID :: string
  tm_AgreementID :: string
  tm_Format :: string
  tm_CallbackAddress :: string

definition zero_TransferRequestMessage :: TransferRequestMessage where
  "zero_TransferRequestMessage = \<lparr>tm_Context = [], tm_Type = '''', tm_ConsumerPID = '''', tm_AgreementID = '''', tm_Format = '''', tm_CallbackAddress = ''''\<rparr>"

definition TransferRequestMessage_fields :: "TransferRequestMessage json_field list" where
  "TransferRequestMessage_fields =
     [field_of ''@context'' tm_Context (\<lambda>x. tm_Context_update (\<lambda>_. x)) (dec_list dec_string ''''),
      field_of ''@type'' tm_Type (\<lambda>x. tm_Type_update (\<lambda>_. x)) dec_string,
      field_of ''consumerPid'' tm_ConsumerPID (\<lambda>x. tm_ConsumerPID_update (\<lambda>_. x)) dec_string,
      field_of ''agreementId'' tm_AgreementID (\<lambda>x. tm_AgreementID_update (\<lambda>_. x)) dec_string,
      field_of ''format'' tm_Format (\<lambda>x. tm_Format_update (\<lambda>_. x)) dec_string,
      field_of ''callbackAddress'' tm_CallbackAddress (\<lambda>x. tm_CallbackAddress_update (\<lambda>_. x)) dec_string]"

record DataAddress =
  da_Type :: string
  da_EndpointType :: string
  da_Endpoint :: string

definition zero_DataAddress :: DataAddress where
  "zero_DataAddress = \<lparr>da_Type = '''', da_EndpointType = '''', da_Endpoint = ''''\<rparr>"

definition DataAddress_fields :: "DataAddress json_field list" where
  "DataAddress_fields =
     [field_of ''@type'' da_Type (\<lambda>x. da_Type_update (\<lambda>_. x)) dec_string,
      field_of ''endpointType'' da_EndpointType (\<lambda>x. da_EndpointType_update (\<lambda>_. x)) dec_string,
      field_of ''endpoint'' da_Endpoint (\<lambda>x. da_Endpoint_update (\<lambda>_. x)) dec_string]"

record transferEnvelope =
  te_Context :: "string list"
  te_Type :: string
  te_DataAddress :: "DataAddress option"

definition zero_transferEnvelope :: transferEnvelope where
  "zero_transferEnvelope = \<lparr>te_Context = [], te_Type = '''', te_DataAddress = None\<rparr>"

definition transferEnvelope_fields :: "transferEnvelope json_field list" where
  "transferEnvelope_fields =
     [field_of ''@context'' te_Context (\<lambda>x. te_Context_update (\<lambda>_. x)) (dec_list dec_string ''''),
      field_of ''@type'' te_Type (\<lambda>x. te_Type_update (\<lambda>_. x)) dec_string,
      field_of ''dataAddress'' te_DataAddress (\<lambda>x. te_DataAddress_update (\<lambda>_. x)) (dec_pointer (dec_struct DataAddress_fields) zero_DataAddress)]"

record TransferProcessDoc =
  td_Context :: "string list"
  td_Type :: string
  td_ProviderPID :: string
  td_ConsumerPID :: string
  td_State :: string

definition zero_TransferProcessDoc :: TransferProcessDoc where
  "zero_TransferProcessDoc = \<lparr>td_Context = [], td_Type = '''', td_ProviderPID = '''', td_ConsumerPID = '''', td_State = ''''\<rparr>"

definition TransferProcessDoc_fields :: "TransferProcessDoc json_field list" where
  "TransferProcessDoc_fields =
     [field_of ''@context'' td_Context (\<lambda>x. td_Context_update (\<lambda>_. x)) (dec_list dec_string ''''),
      field_of ''@type'' td_Type (\<lambda>x. td_Type_update (\<lambda>_. x)) dec_string,
      field_of ''providerPid'' td_ProviderPID (\<lambda>x. td_ProviderPID_update (\<lambda>_. x)) dec_string,
      field_of ''consumerPid'' td_ConsumerPID (\<lambda>x. td_ConsumerPID_update (\<lambda>_. x)) dec_string,
      field_of ''state'' td_State (\<lambda>x. td_State_update (\<lambda>_. x)) dec_string]"

record transferInitiateBody =
  tb_ProviderID :: string
  tb_AgreementID :: string
  tb_Format :: string
  tb_ConnectorAddress :: string

definition zero_transferInitiateBody :: transferInitiateBody where
  "zero_transferInitiateBody = \<lparr>tb_ProviderID = '''', tb_AgreementID = '''', tb_Format = '''', tb_ConnectorAddress = ''''\<rparr>"

definition transferInitiateBody_fields :: "transferInitiateBody json_field list" where
  "transferInitiateBody_fields =
     [field_of ''providerId'' tb_ProviderID (\<lambda>x. tb_ProviderID_update (\<lambda>_. x)) dec_string,
      field_of ''agreementId'' tb_AgreementID (\<lambda>x. tb_AgreementID_update (\<lambda>_. x)) dec_string,
      field_of ''format'' tb_Format (\<lambda>x. tb_Format_update (\<lambda>_. x)) dec_string,
      field_of ''connectorAddress'' tb_ConnectorAddress (\<lambda>x. tb_ConnectorAddress_update (\<lambda>_. x)) dec_string]"

section \<open>Messages sent\<close>

record EventMessage =
  em_Context :: "string list"
  em_ID :: string
  em_Type :: string
  em_ProviderPID :: string
  em_ConsumerPID :: string
  em_EventType :: string

record TerminationReason =
  xr_Message :: string

record TerminationMessage =
  xm_Context :: "string list"
  xm_ID :: string
  xm_Type :: string
  xm_ProviderPID :: string
  xm_ConsumerPID :: string
  xm_Code :: string
  xm_Reason :: "TerminationReason list"

record ConsumerRequestMessage =
  crm_Context :: "string list"
  crm_Type :: string
  crm_ConsumerPID :: string
  crm_Offer :: NegotiationOffer
  crm_CallbackAddress :: string

record CounterRequestMessage =
  cnm_Context :: "string list"
  cnm_Type :: string
  cnm_ProviderPID :: string
  cnm_ConsumerPID :: string
  cnm_Offer :: NegotiationOffer

record VerificationMessage =
  vm_Context :: "string list"
  vm_ID :: string
  vm_Type :: string
  vm_ProviderPID :: string
  vm_ConsumerPID :: string

record TransferStartMessage =
  sm_Context :: "string list"
  sm_Type :: string
  sm_ProviderPID :: string
  sm_ConsumerPID :: string
  sm_DataAddress :: "DataAddress option"

record TransferSuspensionMessage =
  sp_Context :: "string list"
  sp_Type :: string
  sp_ProviderPID :: string
  sp_ConsumerPID :: string

record TransferTerminationMessage =
  xt_Context :: "string list"
  xt_Type :: string
  xt_ProviderPID :: string
  xt_ConsumerPID :: string

record TransferCompletionMessage =
  cm_Context :: "string list"
  cm_Type :: string
  cm_ProviderPID :: string
  cm_ConsumerPID :: string

record ErrorResponse =
  er_Context :: "string list"
  er_Type :: string
  er_Code :: string
  er_Reason :: "string list"

definition errorDocument :: "string \<Rightarrow> int \<Rightarrow> string \<Rightarrow> ErrorResponse" where
  "errorDocument dspType status reason =
     \<lparr>er_Context = [ContextURL], er_Type = dspType, er_Code = itoa status, er_Reason = [reason]\<rparr>"

section \<open>Catalog and management documents\<close>

definition Version :: string where "Version = ''2025-1''"
definition Binding :: string where "Binding = ''HTTPS''"
definition CatalogType :: string where "CatalogType = ''Catalog''"
definition DatasetType :: string where "DatasetType = ''Dataset''"
definition DistributionType :: string where "DistributionType = ''Distribution''"
definition DataServiceType :: string where "DataServiceType = ''DataService''"
definition catalogPath :: string where "catalogPath = VersionPath @ ''/catalog''"
definition servedFormat :: string where "servedFormat = ''HTTP-PULL''"
definition CatalogErrorType :: string where "CatalogErrorType = ''CatalogError''"
definition CatalogRequestMessageType :: string where
  "CatalogRequestMessageType = ''CatalogRequestMessage''"

record DataService =
  ds_ID :: string
  ds_Type :: string
  ds_EndpointURL :: string

record Distribution =
  di_Type :: string
  di_Format :: string
  di_AccessService :: DataService

record Offer =
  po_ID :: string
  po_Type :: string
  po_Permission :: "Permission list"

text \<open>\<^verbatim>\<open>dsp.Dataset\<close>, a node of the catalog; \<open>Dataset\<close> is \<^verbatim>\<open>config.Dataset\<close>.\<close>

record DatasetNode =
  dn_Context :: "string list"
  dn_ID :: string
  dn_Type :: string
  dn_HasPolicy :: "Offer list"
  dn_Distribution :: "Distribution list"

record Catalog =
  ca_Context :: "string list"
  ca_ID :: string
  ca_Type :: string
  ca_ParticipantID :: string
  ca_Dataset :: "DatasetNode list"

record CatalogRequestMessage =
  cq_Context :: "string list"
  cq_Type :: string
  cq_Filter :: "json option"

definition zero_CatalogRequestMessage :: CatalogRequestMessage where
  "zero_CatalogRequestMessage = \<lparr>cq_Context = [], cq_Type = '''', cq_Filter = None\<rparr>"

definition CatalogRequestMessage_fields :: "CatalogRequestMessage json_field list" where
  "CatalogRequestMessage_fields =
     [field_of ''@context'' cq_Context (\<lambda>x. cq_Context_update (\<lambda>_. x)) (dec_list dec_string ''''),
      field_of ''@type'' cq_Type (\<lambda>x. cq_Type_update (\<lambda>_. x)) dec_string,
      field_of ''filter'' cq_Filter (\<lambda>x. cq_Filter_update (\<lambda>_. x)) dec_raw]"

record datasetOffer =
  do_DatasetID :: string
  do_OfferID :: string
  do_Format :: string

record catalogLookupResponse =
  cl_ParticipantID :: string
  cl_ConnectorAddress :: string
  cl_Datasets :: "datasetOffer list"

record ProtocolVersion =
  pv_Version :: string
  pv_Path :: string
  pv_Binding :: string

record VersionResponse =
  vr_Context :: "string list"
  vr_ProtocolVersions :: "ProtocolVersion list"

record agreementView =
  av_AgreementID :: string
  av_DatasetID :: string
  av_Origin :: string
  av_CreatedAt :: string
  av_CounterpartyID :: string

record transferView =
  tv_Role :: string
  tv_ConsumerPID :: string
  tv_ProviderPID :: string
  tv_AgreementID :: string
  tv_State :: string
  tv_CounterpartyID :: string
  tv_CreatedAt :: string
  tv_ExpectedBytes :: int64
  tv_ReceivedBytes :: int64
  tv_DataPath :: string
  tv_DataCompletedAt :: string
  tv_DataError :: string

text \<open>Every document the handlers put on the wire.\<close>

datatype document =
    DState NegotiationStateDocument
  | DOffer OfferMessage
  | DAgreement AgreementMessage
  | DEvent EventMessage
  | DTermination TerminationMessage
  | DRequest ConsumerRequestMessage
  | DCounter CounterRequestMessage
  | DVerification VerificationMessage
  | DTransferRequest TransferRequestMessage
  | DTransferProcess TransferProcessDoc
  | DTransferStart TransferStartMessage
  | DTransferSuspension TransferSuspensionMessage
  | DTransferTermination TransferTerminationMessage
  | DTransferCompletion TransferCompletionMessage
  | DError ErrorResponse
  | DCatalogRequest CatalogRequestMessage
  | DCatalog Catalog
  | DDataset DatasetNode
  | DVersion VersionResponse
  | DCatalogLookup catalogLookupResponse
  | DAgreements "agreementView list"
  | DTransfers "transferView list"
  | DHealth string
  | DText string

section \<open>Builders, contract negotiation\<close>

definition newNegotiationOffer :: "string \<Rightarrow> string \<Rightarrow> instant option \<Rightarrow> NegotiationOffer" where
  "newNegotiationOffer offerID datasetID validityUntil =
     \<lparr>no_ID = offerID, no_Type = OfferType, no_Target = datasetID,
      no_Permission = buildPermission validityUntil\<rparr>"

text \<open>
  The datasets of a configuration by id; Go returns the zero dataset beside \<^verbatim>\<open>false\<close>, of
  which the builders read \<^verbatim>\<open>ValidityUntil\<close> (nil) only.
\<close>

definition findConfiguredDataset :: "Config \<Rightarrow> string \<Rightarrow> Dataset option" where
  "findConfiguredDataset cfg ident = find (\<lambda>d. d_ID d = ident) (Datasets cfg)"

definition dataset_validity :: "Dataset option \<Rightarrow> instant option" where
  "dataset_validity d = (case d of None \<Rightarrow> None | Some ds \<Rightarrow> d_ValidityUntil ds)"

definition buildNegotiationStateDocument :: "string \<Rightarrow> Negotiation \<Rightarrow> NegotiationStateDocument" where
  "buildNegotiationStateDocument mid n =
     \<lparr>nd_Context = [ContextURL], nd_ID = mid, nd_Type = ContractNegotiationType,
      nd_ProviderPID = n_ProviderPID n, nd_ConsumerPID = n_ConsumerPID n, nd_State = n_State n\<rparr>"

definition buildOfferMessage :: "Config \<Rightarrow> string \<Rightarrow> Negotiation \<Rightarrow> OfferMessage" where
  "buildOfferMessage cfg mid n =
     \<lparr>om_Context = [ContextURL], om_ID = mid, om_Type = ContractOfferMessageType,
      om_ProviderPID = n_ProviderPID n, om_ConsumerPID = n_ConsumerPID n,
      om_Offer = newNegotiationOffer (n_DatasetID n @ offerIDSuffix) (n_DatasetID n)
        (dataset_validity (findConfiguredDataset cfg (n_DatasetID n)))\<rparr>"

definition buildAgreementMessage ::
  "Config \<Rightarrow> string \<Rightarrow> instant \<Rightarrow> Negotiation \<Rightarrow> AgreementMessage" where
  "buildAgreementMessage cfg mid now n =
     (let assignee = (if n_CounterpartyID n = '''' then n_ConsumerPID n else n_CounterpartyID n)
      in \<lparr>am_Context = [ContextURL], am_ID = mid, am_Type = ContractAgreementMessageType,
          am_ProviderPID = n_ProviderPID n, am_ConsumerPID = n_ConsumerPID n,
          am_Agreement = \<lparr>ab_ID = n_ProviderPID n, ab_Type = AgreementType,
            ab_Target = n_DatasetID n,
            ab_Permission =
              buildPermission (dataset_validity (findConfiguredDataset cfg (n_DatasetID n))),
            ab_Assigner = ParticipantID cfg, ab_Assignee = assignee,
            ab_Timestamp = format_RFC3339 now\<rparr>,
          am_CallbackAddress = PublicURL cfg @ VersionPath\<rparr>)"

definition buildFinalizedEventMessage :: "string \<Rightarrow> Negotiation \<Rightarrow> EventMessage" where
  "buildFinalizedEventMessage mid n =
     \<lparr>em_Context = [ContextURL], em_ID = mid, em_Type = ContractNegotiationEventMessageType,
      em_ProviderPID = n_ProviderPID n, em_ConsumerPID = n_ConsumerPID n,
      em_EventType = eventTypeFinalized\<rparr>"

definition buildTerminationMessage :: "string \<Rightarrow> Negotiation \<Rightarrow> TerminationMessage" where
  "buildTerminationMessage mid n =
     \<lparr>xm_Context = [ContextURL], xm_ID = mid, xm_Type = ContractNegotiationTerminationMessageType,
      xm_ProviderPID = n_ProviderPID n, xm_ConsumerPID = n_ConsumerPID n,
      xm_Code = terminationCode, xm_Reason = []\<rparr>"

definition buildConsumerRequestMessage ::
  "string \<Rightarrow> string \<Rightarrow> string \<Rightarrow> string \<Rightarrow> ConsumerRequestMessage" where
  "buildConsumerRequestMessage consumerPID datasetID offerID callbackAddress =
     \<lparr>crm_Context = [ContextURL], crm_Type = ContractRequestMessageType,
      crm_ConsumerPID = consumerPID, crm_Offer = newNegotiationOffer offerID datasetID None,
      crm_CallbackAddress = callbackAddress\<rparr>"

definition buildCounterRequestMessage :: "ConsumerNegotiation \<Rightarrow> CounterRequestMessage" where
  "buildCounterRequestMessage n =
     \<lparr>cnm_Context = [ContextURL], cnm_Type = ContractRequestMessageType,
      cnm_ProviderPID = c_ProviderPID n, cnm_ConsumerPID = c_ConsumerPID n,
      cnm_Offer = newNegotiationOffer (c_OfferID n) (c_DatasetID n) None\<rparr>"

definition buildAcceptedEventMessage :: "string \<Rightarrow> ConsumerNegotiation \<Rightarrow> EventMessage" where
  "buildAcceptedEventMessage mid n =
     \<lparr>em_Context = [ContextURL], em_ID = mid, em_Type = ContractNegotiationEventMessageType,
      em_ProviderPID = c_ProviderPID n, em_ConsumerPID = c_ConsumerPID n,
      em_EventType = eventTypeAccepted\<rparr>"

definition buildVerificationMessage :: "string \<Rightarrow> ConsumerNegotiation \<Rightarrow> VerificationMessage" where
  "buildVerificationMessage mid n =
     \<lparr>vm_Context = [ContextURL], vm_ID = mid, vm_Type = ContractAgreementVerificationMessageType,
      vm_ProviderPID = c_ProviderPID n, vm_ConsumerPID = c_ConsumerPID n\<rparr>"

definition buildConsumerTerminationMessage ::
  "string \<Rightarrow> ConsumerNegotiation \<Rightarrow> TerminationMessage" where
  "buildConsumerTerminationMessage mid n =
     \<lparr>xm_Context = [ContextURL], xm_ID = mid, xm_Type = ContractNegotiationTerminationMessageType,
      xm_ProviderPID = c_ProviderPID n, xm_ConsumerPID = c_ConsumerPID n,
      xm_Code = terminationCode, xm_Reason = []\<rparr>"

definition buildConsumerNegotiationStateDocument ::
  "string \<Rightarrow> ConsumerNegotiation \<Rightarrow> NegotiationStateDocument" where
  "buildConsumerNegotiationStateDocument mid n =
     \<lparr>nd_Context = [ContextURL], nd_ID = mid, nd_Type = ContractNegotiationType,
      nd_ProviderPID = c_ProviderPID n, nd_ConsumerPID = c_ConsumerPID n, nd_State = c_State n\<rparr>"

section \<open>Builders, transfer process\<close>

definition buildTransferProcessDoc :: "TransferProcess \<Rightarrow> TransferProcessDoc" where
  "buildTransferProcessDoc t =
     \<lparr>td_Context = [ContextURL], td_Type = TransferProcessType,
      td_ProviderPID = t_ProviderPID t, td_ConsumerPID = t_ConsumerPID t, td_State = t_State t\<rparr>"

definition buildTransferStartMessage :: "TransferProcess \<Rightarrow> TransferStartMessage" where
  "buildTransferStartMessage t =
     \<lparr>sm_Context = [ContextURL], sm_Type = TransferStartMessageType,
      sm_ProviderPID = t_ProviderPID t, sm_ConsumerPID = t_ConsumerPID t, sm_DataAddress = None\<rparr>"

definition buildTransferStartMessageWithData ::
  "TransferProcess \<Rightarrow> string \<Rightarrow> TransferStartMessage" where
  "buildTransferStartMessageWithData t publicURL = (buildTransferStartMessage t)
     \<lparr>sm_DataAddress := Some \<lparr>da_Type = ''DataAddress'',
        da_EndpointType = ''https://w3id.org/idsa/v4.1/HTTP'',
        da_Endpoint = publicURL @ VersionPath @ ''/data/'' @ t_ProviderPID t\<rparr>\<rparr>"

definition buildTransferSuspensionMessage :: "TransferProcess \<Rightarrow> TransferSuspensionMessage" where
  "buildTransferSuspensionMessage t =
     \<lparr>sp_Context = [ContextURL], sp_Type = TransferSuspensionMessageType,
      sp_ProviderPID = t_ProviderPID t, sp_ConsumerPID = t_ConsumerPID t\<rparr>"

definition buildTransferCompletionMessage :: "TransferProcess \<Rightarrow> TransferCompletionMessage" where
  "buildTransferCompletionMessage t =
     \<lparr>cm_Context = [ContextURL], cm_Type = TransferCompletionMessageType,
      cm_ProviderPID = t_ProviderPID t, cm_ConsumerPID = t_ConsumerPID t\<rparr>"

definition buildTransferTerminationMessage :: "TransferProcess \<Rightarrow> TransferTerminationMessage" where
  "buildTransferTerminationMessage t =
     \<lparr>xt_Context = [ContextURL], xt_Type = TransferTerminationMessageType,
      xt_ProviderPID = t_ProviderPID t, xt_ConsumerPID = t_ConsumerPID t\<rparr>"

definition buildTransferRequestMessage :: "ConsumerTransfer \<Rightarrow> string \<Rightarrow> TransferRequestMessage" where
  "buildTransferRequestMessage t callbackAddress =
     \<lparr>tm_Context = [ContextURL], tm_Type = TransferRequestMessageType,
      tm_ConsumerPID = ct_ConsumerPID t, tm_AgreementID = ct_AgreementID t,
      tm_Format = ct_Format t, tm_CallbackAddress = callbackAddress\<rparr>"

section \<open>The one constraint both sides know\<close>

lemma decode_Constraint:
  "decode (dec_struct Constraint_fields) zero_Constraint (Some (json_of_Constraint c)) = Some c"
  by (simp add: decode_def dec_struct_def json_of_Constraint_def Constraint_fields_def
      zero_Constraint_def lookup_field_def field_of_def dec_string_def)

definition four_digit_year :: "instant \<Rightarrow> bool" where
  "four_digit_year t \<longleftrightarrow> 0 \<le> cv_year (civil_of t) \<and> cv_year (civil_of t) < 10000"

lemma buildPermission_enforceable:
  "(\<And>t. v = Some t \<Longrightarrow> four_digit_year t) \<Longrightarrow> \<not> hasUnenforceableConstraint (buildPermission v)"
  using parse_format
  by (auto simp: hasUnenforceableConstraint_def buildPermission_def isValidityPeriodConstraint_def
      decode_Constraint four_digit_year_def split: option.splits)

end
