(* ===== verification/Effects.thy ===== *)
theory Effects
  imports TableContract Messages
begin

text \<open>
  Handlers and goroutines as programs.  A handler of the code reads the clock, draws UUIDs, asks
  the outgoing-address filter, sends HTTP requests, runs SQL statements, writes its response and
  starts goroutines; \<open>prog\<close> is the tree of these effects, each with the continuation that
  receives the answer.  The same tree is read three ways: \<open>run\<close> executes one program alone,
  \<open>sys_step\<close> interleaves any number of them over the shared world one effect at a time, and
  \<open>safe\<close> is the rely-guarantee judgement that makes an invariant of the interleaving.
\<close>

section \<open>Requests, responses and the shared world\<close>

record request =
  rq_ID :: string
  rq_Issuer :: string
  rq_Body :: "json option"
  rq_Authorization :: string
  rq_ProviderID :: string
  rq_Range :: string

text \<open>
  A status with its JSON document, or the bare status of \<^verbatim>\<open>WriteHeader\<close>; the same with
  the headers the handler set; the bytes of a data transfer with their status,
  \<^verbatim>\<open>Content-Range\<close> and \<^verbatim>\<open>Content-Length\<close>.
\<close>

datatype response =
    Reply int "document option"
  | ReplyHeaders "(string \<times> string) list" int "document option"
  | Stream int string int64 "8 word list"

record HttpRequest =
  hq_Method :: string
  hq_URL :: string
  hq_Body :: "document option"
  hq_Authorization :: string
  hq_Range :: string

text \<open>Why an exchange or its body ended early: the cause of the request's context, if it has one.\<close>

datatype cause = CauseIdle | CauseShutdown | CauseOther

record HttpReply =
  hr_Status :: int
  hr_Body :: "json option"
  hr_ContentRange :: string
  hr_ContentLength :: int64
  hr_Data :: "8 word list"
  hr_DataEnd :: "cause option"

datatype http_result = HttpFailed cause | HttpOk HttpReply

record world =
  db :: store
  pulling :: "string list"
  files :: "string \<Rightarrow> 8 word list option"

section \<open>Programs\<close>

datatype prog =
    Done
  | Respond response prog
  | Go prog prog
  | Sleep instant prog
  | Now "instant \<Rightarrow> prog"
  | Uuid "string option \<Rightarrow> prog"
  | AllowURL string "bool \<Rightarrow> prog"
  | Http HttpRequest "http_result \<Rightarrow> prog"
  | Act "io \<Rightarrow> world \<Rightarrow> world" "io \<Rightarrow> world \<Rightarrow> prog"

text \<open>One statement of the store.\<close>

definition call :: "'a store_op \<Rightarrow> (store_error + 'a \<Rightarrow> prog) \<Rightarrow> prog" where
  "call f k = Act (\<lambda>i w. w\<lparr>db := snd (f i (db w))\<rparr>) (\<lambda>i w. k (fst (f i (db w))))"

section \<open>Running one program alone\<close>

record answer =
  an_Io :: io
  an_Now :: instant
  an_Uuid :: "string option"
  an_Allow :: bool
  an_Http :: http_result

datatype event = Answered response | Sent HttpRequest

type_synonym outcome = "event list \<times> prog list \<times> world"

definition emit :: "event list \<Rightarrow> prog list \<Rightarrow> outcome \<Rightarrow> outcome" where
  "emit es qs r = (es @ fst r, qs @ fst (snd r), snd (snd r))"

text \<open>
  \<open>run p a w\<close>: what happened, in order, the goroutines started, and the final world, when the
  environment gives the answers \<open>a 0\<close>, \<open>a 1\<close>, \<open>...\<close> to the successive effects.
\<close>

primrec run :: "prog \<Rightarrow> (nat \<Rightarrow> answer) \<Rightarrow> world \<Rightarrow> outcome" where
  "run Done a w = ([], [], w)"
| "run (Respond r p) a w = emit [Answered r] [] (run p a w)"
| "run (Go q p) a w = emit [] [q] (run p a w)"
| "run (Sleep d p) a w = run p a w"
| "run (Now f) a w = run (f (an_Now (a 0))) (\<lambda>i. a (Suc i)) w"
| "run (Uuid f) a w = run (f (an_Uuid (a 0))) (\<lambda>i. a (Suc i)) w"
| "run (AllowURL u f) a w = run (f (an_Allow (a 0))) (\<lambda>i. a (Suc i)) w"
| "run (Http q f) a w = emit [Sent q] [] (run (f (an_Http (a 0))) (\<lambda>i. a (Suc i)) w)"
| "run (Act u k) a w = run (k (an_Io (a 0)) w) (\<lambda>i. a (Suc i)) (u (an_Io (a 0)) w)"

lemma emit_simps [simp]:
  "emit es qs (es', qs', w) = (es @ es', qs @ qs', w)"
  "fst (emit es qs r) = es @ fst r"
  "fst (snd (emit es qs r)) = qs @ fst (snd r)"
  "snd (snd (emit es qs r)) = snd (snd r)"
  by (simp_all add: emit_def)

lemma run_call [simp]:
  "run (call f k) a w =
     run (k (fst (f (an_Io (a 0)) (db w)))) (\<lambda>i. a (Suc i)) (w\<lparr>db := snd (f (an_Io (a 0)) (db w))\<rparr>)"
  by (simp add: call_def)

text \<open>The number of responses a program writes, on every path.\<close>

primrec responds :: "prog \<Rightarrow> nat \<Rightarrow> bool" where
  "responds Done n \<longleftrightarrow> n = 0"
| "responds (Respond r p) n \<longleftrightarrow> (case n of 0 \<Rightarrow> False | Suc m \<Rightarrow> responds p m)"
| "responds (Go q p) n \<longleftrightarrow> responds q 0 \<and> responds p n"
| "responds (Sleep d p) n \<longleftrightarrow> responds p n"
| "responds (Now f) n \<longleftrightarrow> (\<forall>t. responds (f t) n)"
| "responds (Uuid f) n \<longleftrightarrow> (\<forall>u. responds (f u) n)"
| "responds (AllowURL u f) n \<longleftrightarrow> (\<forall>b. responds (f b) n)"
| "responds (Http q f) n \<longleftrightarrow> (\<forall>r. responds (f r) n)"
| "responds (Act u k) n \<longleftrightarrow> (\<forall>i w. responds (k i w) n)"

lemma responds_call: "(\<And>i s. responds (k (fst (f i s))) n) \<Longrightarrow> responds (call f k) n"
  by (simp add: call_def)

definition answered :: "event list \<Rightarrow> response list" where
  "answered es = List.map_filter (\<lambda>e. case e of Answered r \<Rightarrow> Some r | Sent _ \<Rightarrow> None) es"

lemma answered_simps [simp]:
  "answered [] = []"
  "answered (Answered r # es) = r # answered es"
  "answered (Sent q # es) = answered es"
  by (simp_all add: answered_def map_filter_simps)

lemma responds_run: "responds p n \<Longrightarrow> length (answered (fst (run p a w))) = n"
proof (induction p arbitrary: a w n)
  case (Act u k)
  then show ?case using Act.IH [OF rangeI rangeI] by simp
qed (auto split: nat.splits)

section \<open>Interleaving\<close>

text \<open>One effect of one program: what it becomes, the goroutines it started, what was seen.\<close>

primrec advance :: "prog \<Rightarrow> answer \<Rightarrow> world \<Rightarrow> prog \<times> prog list \<times> event list \<times> world" where
  "advance Done a w = (Done, [], [], w)"
| "advance (Respond r p) a w = (p, [], [Answered r], w)"
| "advance (Go q p) a w = (p, [q], [], w)"
| "advance (Sleep d p) a w = (p, [], [], w)"
| "advance (Now f) a w = (f (an_Now a), [], [], w)"
| "advance (Uuid f) a w = (f (an_Uuid a), [], [], w)"
| "advance (AllowURL u f) a w = (f (an_Allow a), [], [], w)"
| "advance (Http q f) a w = (f (an_Http a), [], [Sent q], w)"
| "advance (Act u k) a w = (k (an_Io a) w, [], [], u (an_Io a) w)"

type_synonym system = "world \<times> prog list \<times> event list"

text \<open>
  A step of the connector: a request arrives and its handler joins the running programs, or one
  of them performs its next effect.  \<open>entry\<close> says which programs a request can start.
\<close>

inductive sys_step :: "(prog \<Rightarrow> bool) \<Rightarrow> system \<Rightarrow> system \<Rightarrow> bool" for entry where
  arrive: "entry p \<Longrightarrow> sys_step entry (w, ps, tr) (w, ps @ [p], tr)"
| perform: "i < length ps \<Longrightarrow> advance (ps ! i) a w = (p', new, evs, w') \<Longrightarrow>
     sys_step entry (w, ps, tr) (w', ps[i := p'] @ new, tr @ evs)"

inductive_cases sys_stepE: "sys_step entry (w, ps, tr) (w', ps', tr')"

inductive reachable :: "(prog \<Rightarrow> bool) \<Rightarrow> system \<Rightarrow> system \<Rightarrow> bool" for entry c0 where
  start: "reachable entry c0 c0"
| step: "reachable entry c0 c \<Longrightarrow> sys_step entry c c' \<Longrightarrow> reachable entry c0 c'"

lemma reachable_trans: "reachable entry b c \<Longrightarrow> reachable entry a b \<Longrightarrow> reachable entry a c"
  by (induction rule: reachable.induct) (auto intro: reachable.intros)

section \<open>Rely-guarantee\<close>

text \<open>
  \<open>safe R G p w\<close>: from any world the other programs can make of \<open>w\<close> by steps of \<open>R\<close>, every
  effect of \<open>p\<close> is a step of \<open>G\<close>, and so on to the end of \<open>p\<close> and of all it starts.
\<close>

primrec safe ::
  "(world \<Rightarrow> world \<Rightarrow> bool) \<Rightarrow> (world \<Rightarrow> world \<Rightarrow> bool) \<Rightarrow> prog \<Rightarrow> world \<Rightarrow> bool" where
  "safe R G Done w \<longleftrightarrow> True"
| "safe R G (Respond r p) w \<longleftrightarrow> safe R G p w"
| "safe R G (Go q p) w \<longleftrightarrow> safe R G q w \<and> safe R G p w"
| "safe R G (Sleep d p) w \<longleftrightarrow> safe R G p w"
| "safe R G (Now f) w \<longleftrightarrow> (\<forall>t. safe R G (f t) w)"
| "safe R G (Uuid f) w \<longleftrightarrow> (\<forall>u. safe R G (f u) w)"
| "safe R G (AllowURL u f) w \<longleftrightarrow> (\<forall>b. safe R G (f b) w)"
| "safe R G (Http q f) w \<longleftrightarrow> (\<forall>r. safe R G (f r) w)"
| "safe R G (Act u k) w \<longleftrightarrow>
     (\<forall>w' i. R w w' \<longrightarrow> G w' (u i w') \<and> safe R G (k i w') (u i w'))"

lemma safe_mono: "safe R G p w \<Longrightarrow> (\<And>v v'. G v v' \<Longrightarrow> G' v v') \<Longrightarrow> safe R G' p w"
  by (induction p arbitrary: w) (simp_all, (meson rangeI)+)

text \<open>All programs safe and the invariant true: so it stays, whatever step is taken.\<close>

definition all_safe ::
  "(world \<Rightarrow> bool) \<Rightarrow> (world \<Rightarrow> world \<Rightarrow> bool) \<Rightarrow> system \<Rightarrow> bool" where
  "all_safe invar R c \<longleftrightarrow> (case c of (w, ps, tr) \<Rightarrow> invar w \<and> (\<forall>p \<in> set ps. safe R R p w))"

locale rely_guarantee =
  fixes invar :: "world \<Rightarrow> bool"
    and R :: "world \<Rightarrow> world \<Rightarrow> bool"
  assumes R_refl: "invar w \<Longrightarrow> R w w"
    and R_trans: "R w w' \<Longrightarrow> R w' w'' \<Longrightarrow> R w w''"
    and R_inv: "R w w' \<Longrightarrow> invar w'"
begin

lemma safe_later: "safe R G p w \<Longrightarrow> R w w' \<Longrightarrow> safe R G p w'"
proof (induction p arbitrary: w w')
  case (Act u k)
  then show ?case by (auto intro: R_trans)
qed (simp_all, (meson rangeI)+)

lemma advance_safe:
  assumes "safe R R p w" and "invar w" and "advance p a w = (p', new, evs, w')"
  shows "R w w' \<and> safe R R p' w' \<and> (\<forall>q \<in> set new. safe R R q w')"
  using assms by (cases p) (auto intro: R_refl)

lemma sys_step_all_safe:
  assumes "sys_step entry c c'" and "all_safe invar R c" and "\<And>p w. entry p \<Longrightarrow> invar w \<Longrightarrow> safe R R p w"
  shows "all_safe invar R c' \<and> R (fst c) (fst c')"
  using assms
proof (induction rule: sys_step.induct)
  case (arrive p w ps tr)
  then show ?case by (auto simp: all_safe_def intro: R_refl)
next
  case (perform i ps a w p' new evs w' tr)
  have old: "\<And>p. p \<in> set ps \<Longrightarrow> safe R R p w" and "invar w"
    using perform.prems(1) by (auto simp: all_safe_def)
  then have step: "R w w' \<and> safe R R p' w' \<and> (\<forall>q \<in> set new. safe R R q w')"
    using perform.hyps by (intro advance_safe) auto
  then have "safe R R p w'" if "p \<in> set ps" for p
    using old that by (blast intro: safe_later)
  then have "\<forall>q \<in> set (ps[i := p'] @ new). safe R R q w'"
    using step set_update_subset_insert [of ps i p'] by auto
  then show ?case using step by (auto simp: all_safe_def intro: R_inv)
qed

lemma reachable_all_safe:
  assumes "reachable entry c0 c" and "all_safe invar R c0" and "\<And>p w. entry p \<Longrightarrow> invar w \<Longrightarrow> safe R R p w"
  shows "all_safe invar R c \<and> R (fst c0) (fst c)"
  using assms
proof (induction rule: reachable.induct)
  case start
  then show ?case by (auto simp: all_safe_def intro: R_refl)
next
  case (step c c')
  then have "all_safe invar R c" and "R (fst c0) (fst c)" by auto
  moreover have "all_safe invar R c' \<and> R (fst c) (fst c')"
    using sys_step_all_safe [OF step.hyps(2) \<open>all_safe invar R c\<close> step.prems(2)] by auto
  ultimately show ?case by (blast intro: R_trans)
qed

text \<open>The rules that step through a handler: one statement, and one query.\<close>

lemma safe_call:
  assumes "\<And>v v'. invar v \<Longrightarrow> G v v' \<Longrightarrow> R v v'"
    and "\<And>w' i. R w w' \<Longrightarrow> G w' (w'\<lparr>db := snd (f i (db w'))\<rparr>)"
    and "\<And>w' i. R w w' \<Longrightarrow> R w (w'\<lparr>db := snd (f i (db w'))\<rparr>) \<Longrightarrow>
           safe R G (k (fst (f i (db w')))) (w'\<lparr>db := snd (f i (db w'))\<rparr>)"
  shows "safe R G (call f k) w"
proof -
  have "G w' (w'\<lparr>db := snd (f i (db w'))\<rparr>)
      \<and> safe R G (k (fst (f i (db w')))) (w'\<lparr>db := snd (f i (db w'))\<rparr>)" if "R w w'" for w' i
  proof -
    have G: "G w' (w'\<lparr>db := snd (f i (db w'))\<rparr>)" by (rule assms(2) [OF that])
    then have "R w (w'\<lparr>db := snd (f i (db w'))\<rparr>)"
      by (blast intro: R_trans [OF that] assms(1) R_inv [OF that])
    with G assms(3) [OF that] show ?thesis by blast
  qed
  then show ?thesis by (simp add: call_def)
qed

lemma safe_query:
  assumes "\<And>v. invar v \<Longrightarrow> G v v"
    and "\<And>w'. R w w' \<Longrightarrow> invar w' \<Longrightarrow> safe R G (k (Inl ErrDriver)) w'"
    and "\<And>w'. R w w' \<Longrightarrow> invar w' \<Longrightarrow> safe R G (k (Inr (f (db w')))) w'"
  shows "safe R G (call (query f) k) w"
proof -
  have "G w' w' \<and> safe R G (k (fst (query f i (db w')))) w'" if "R w w'" for w' i
    using assms(1) [OF R_inv [OF that]] assms(2,3) [OF that R_inv [OF that]]
    by (simp add: query_result)
  then show ?thesis by (simp add: call_def)
qed

end

section \<open>A run alone is one of the interleavings\<close>

lemma perform_last:
  "advance p a w = (p', new, evs, w') \<Longrightarrow>
     sys_step entry (w, ps @ p # qs, tr) (w', ps @ p' # qs @ new, tr @ evs)"
  using sys_step.perform [of "length ps" "ps @ p # qs" a w p' new evs w' entry tr]
  by simp

lemma advance_then:
  assumes "advance p a w = (p', new, evs, w')"
    and "reachable entry (w', ps @ p' # qs @ new, tr @ evs) c"
  shows "reachable entry (w, ps @ p # qs, tr) c"
  using reachable_trans [OF assms(2) reachable.step [OF reachable.start perform_last [OF assms(1)]]] .

lemma run_reachable:
  "reachable entry (w, ps @ p # qs, tr)
     (snd (snd (run p a w)), ps @ Done # qs @ fst (snd (run p a w)), tr @ fst (run p a w))"
proof (induction p arbitrary: a w qs tr)
  case Done
  show ?case by (simp add: reachable.start)
next
  case (Respond r p)
  show ?case by (rule advance_then [where a = "a 0"], simp) (use Respond [of w qs "tr @ [Answered r]" a] in simp)
next
  case (Go q p)
  show ?case by (rule advance_then [where a = "a 0"], simp) (use Go(2) [of w "qs @ [q]" tr a] in simp)
next
  case (Sleep d p)
  show ?case by (rule advance_then [where a = "a 0"], simp) (use Sleep [of w qs tr a] in simp)
next
  case (Now f)
  show ?case by (rule advance_then [where a = "a 0"], simp) (use Now [OF rangeI, where w = w and tr = tr] in simp)
next
  case (Uuid f)
  show ?case by (rule advance_then [where a = "a 0"], simp) (use Uuid [OF rangeI, where w = w and tr = tr] in simp)
next
  case (AllowURL u f)
  show ?case by (rule advance_then [where a = "a 0"], simp) (use AllowURL [OF rangeI, where w = w and tr = tr] in simp)
next
  case (Http q f)
  show ?case by (rule advance_then [where a = "a 0"], simp) (use Http [OF rangeI, where w = w and qs = qs and tr = "tr @ [Sent q]"] in simp)
next
  case (Act u k)
  show ?case by (rule advance_then [where a = "a 0"], simp) (use Act [OF rangeI rangeI, where w = "u (an_Io (a 0)) w" and tr = tr] in simp)
qed

end
