(* ===== verification/Protocol.thy ===== *)
theory Protocol
  imports Effects
begin

text \<open>
  What every handler of \<^verbatim>\<open>internal/dsp\<close> shares: the fields of the handler structs, the error
  and state documents they answer with (\<^verbatim>\<open>error.go\<close>), the envelope and party checks
  (\<^verbatim>\<open>negotiation_handler.go\<close>, \<^verbatim>\<open>auth_middleware.go\<close>), and the outbound
  calls: the credential of a message, one push and its retry schedule, the synchronous requests
  (\<^verbatim>\<open>callback.go\<close>, \<^verbatim>\<open>negotiation_client.go\<close>,
  \<^verbatim>\<open>transfer_client.go\<close>, \<^verbatim>\<open>router.go\<close>).  The theory proves the answers of the
  checks and the bounds of the retry schedule.
\<close>

section \<open>The handlers' fields\<close>

text \<open>
  The fields \<^verbatim>\<open>negotiationHandler\<close> and \<^verbatim>\<open>transferHandler\<close> share, with
  \<^verbatim>\<open>stepDelay\<close> of the latter.  A nil function of the code is \<open>None\<close>.  \<open>h_guard\<close> is
  \<^verbatim>\<open>rosterGuard.check\<close>, a function of the clock; \<open>h_sign\<close> is \<^verbatim>\<open>auth.Mint\<close>
  with the connector's own key, identifier and lifetime, of which only the audience and the time
  vary, and \<open>None\<close> is its error.
\<close>

record handler =
  h_cfg :: Config
  h_stepDelay :: instant
  h_knownParticipant :: "(string \<Rightarrow> bool) option"
  h_providerAddress :: "(string \<Rightarrow> string option) option"
  h_guard :: "(instant \<Rightarrow> bool) option"
  h_sign :: "string \<Rightarrow> instant \<Rightarrow> string option"

definition millisecond :: instant where "millisecond = 1000000"

section \<open>Answers\<close>

definition writeJSON :: "int \<Rightarrow> document \<Rightarrow> prog \<Rightarrow> prog" where
  "writeJSON status v k = Respond (Reply status (Some v)) k"

definition writeError :: "string \<Rightarrow> int \<Rightarrow> string \<Rightarrow> prog" where
  "writeError dspType status reason = writeJSON status (DError (errorDocument dspType status reason)) Done"

definition WriteHeader :: "int \<Rightarrow> prog \<Rightarrow> prog" where
  "WriteHeader status k = Respond (Reply status None) k"

definition StatusOK :: int where "StatusOK = 200"
definition StatusCreated :: int where "StatusCreated = 201"
definition StatusBadRequest :: int where "StatusBadRequest = 400"
definition StatusUnauthorized :: int where "StatusUnauthorized = 401"
definition StatusForbidden :: int where "StatusForbidden = 403"
definition StatusNotFound :: int where "StatusNotFound = 404"
definition StatusConflict :: int where "StatusConflict = 409"
definition StatusInternalServerError :: int where "StatusInternalServerError = 500"

lemmas status_defs = StatusOK_def StatusCreated_def StatusBadRequest_def StatusUnauthorized_def
  StatusForbidden_def StatusNotFound_def StatusConflict_def StatusInternalServerError_def

text \<open>The continuation runs when the check passes; the code returns when it does not.\<close>

definition checkEnvelope :: "string \<Rightarrow> string list \<Rightarrow> string \<Rightarrow> string \<Rightarrow> prog \<Rightarrow> prog" where
  "checkEnvelope dspType ctx gotType wantType k =
     (if ContextURL \<notin> set ctx then
        writeError dspType StatusBadRequest (''@context must contain '' @ ContextURL)
      else if gotType \<noteq> wantType then
        writeError dspType StatusBadRequest (''@type must be '' @ wantType)
      else k)"

definition refuseIfNotParty :: "request \<Rightarrow> string \<Rightarrow> string \<Rightarrow> bool \<Rightarrow> prog \<Rightarrow> prog" where
  "refuseIfNotParty r errType stored authRequired k =
     (if authRequired \<and> rq_Issuer r \<noteq> stored then
        writeError errType StatusForbidden ''this exchange is not yours''
      else k)"

text \<open>Decoding the body of a request into a declared message, or the 400 of the code.\<close>

definition decode_body ::
  "string \<Rightarrow> string \<Rightarrow> 'a json_field list \<Rightarrow> 'a \<Rightarrow> request \<Rightarrow> ('a \<Rightarrow> prog) \<Rightarrow> prog" where
  "decode_body dspType reason flds zero r k =
     (case decode (dec_struct flds) zero (rq_Body r) of
        None \<Rightarrow> writeError dspType StatusBadRequest reason
      | Some msg \<Rightarrow> k msg)"

definition notCompactForm :: string where
  "notCompactForm = ''the request body is not a JSON object in the DSP compact form''"

definition notJSONObject :: string where
  "notJSONObject = ''the request body is not a JSON object''"

definition usable :: "handler \<Rightarrow> (bool \<Rightarrow> prog) \<Rightarrow> prog" where
  "usable h k = (case h_guard h of None \<Rightarrow> k True | Some check \<Rightarrow> Now (\<lambda>t. k (check t)))"

definition refuseExpiredRoster :: "string \<Rightarrow> prog" where
  "refuseExpiredRoster errType = writeError errType StatusConflict
     ''this connector's roster has expired and it cannot act until the roster is replaced''"

section \<open>Outbound calls\<close>

definition newMessageID :: "(string \<Rightarrow> prog) \<Rightarrow> prog" where
  "newMessageID k = Uuid (\<lambda>u. k (case u of None \<Rightarrow> '''' | Some x \<Rightarrow> x))"

text \<open>
  \<^verbatim>\<open>mintOutboundCredential\<close>: the package default when authentication is off, else the
  closure \<^verbatim>\<open>NewRouter\<close> installs.  The continuation receives the header and whether the
  message may be sent.
\<close>

definition mintOutboundCredential :: "handler \<Rightarrow> string \<Rightarrow> (string \<times> bool \<Rightarrow> prog) \<Rightarrow> prog" where
  "mintOutboundCredential h aud k =
     (if \<not> AuthRequired (h_cfg h) then k ('''', True)
      else usable h (\<lambda>ok.
        if \<not> ok then k ('''', False)
        else if aud = '''' then k ('''', True)
        else Now (\<lambda>now. case h_sign h aud now of
               None \<Rightarrow> k ('''', True)
             | Some tok \<Rightarrow> k (''Bearer '' @ tok, True))))"

definition post :: "string \<Rightarrow> document \<Rightarrow> string \<Rightarrow> HttpRequest" where
  "post url body authorization =
     \<lparr>hq_Method = ''POST'', hq_URL = url, hq_Body = Some body,
      hq_Authorization = authorization, hq_Range = ''''\<rparr>"

definition push_ok :: "http_result \<Rightarrow> bool" where
  "push_ok r = (case r of HttpFailed c \<Rightarrow> False | HttpOk resp \<Rightarrow> hr_Status resp < 300)"

definition attemptPush :: "string \<Rightarrow> document \<Rightarrow> string \<Rightarrow> (bool \<Rightarrow> prog) \<Rightarrow> prog" where
  "attemptPush url body authorization k = Http (post url body authorization) (\<lambda>r. k (push_ok r))"

definition callbackRetryBackoffs :: "instant list" where
  "callbackRetryBackoffs =
     [300 * millisecond, 700 * millisecond, 1500 * millisecond, 3000 * millisecond]"

text \<open>The loop of \<^verbatim>\<open>pushCallback\<close>: the waits that are left, and an attempt before each.\<close>

primrec push_attempts ::
  "handler \<Rightarrow> string \<Rightarrow> document \<Rightarrow> string \<Rightarrow> instant list \<Rightarrow> (bool \<Rightarrow> prog) \<Rightarrow> prog" where
  "push_attempts h url v aud [] k =
     mintOutboundCredential h aud (\<lambda>(authorization, maySend).
       if \<not> maySend then k False else attemptPush url v authorization k)"
| "push_attempts h url v aud (d # ds) k =
     mintOutboundCredential h aud (\<lambda>(authorization, maySend).
       if \<not> maySend then k False
       else attemptPush url v authorization (\<lambda>ok.
         if ok then k True else Sleep d (push_attempts h url v aud ds k)))"

definition pushCallback ::
  "handler \<Rightarrow> string \<Rightarrow> document \<Rightarrow> string \<Rightarrow> (bool \<Rightarrow> prog) \<Rightarrow> prog" where
  "pushCallback h url v aud k = push_attempts h url v aud callbackRetryBackoffs k"

text \<open>
  The two synchronous requests: one attempt, a status below 300, a decodable document and a
  non-empty \<^verbatim>\<open>providerPid\<close>, else an error, here \<open>None\<close>.
\<close>

definition consumerRequestPath :: string where "consumerRequestPath = ''/negotiations/request''"
definition transferRequestPath :: string where "transferRequestPath = ''/transfers/request''"

definition providerPID_of_reply :: "('a \<Rightarrow> string) \<Rightarrow> 'a json_field list \<Rightarrow> 'a \<Rightarrow> http_result \<Rightarrow> string option" where
  "providerPID_of_reply pid flds zero r = (case r of
     HttpFailed c \<Rightarrow> None
   | HttpOk resp \<Rightarrow>
       if hr_Status resp \<ge> 300 then None
       else (case decode (dec_struct flds) zero (hr_Body resp) of
               None \<Rightarrow> None
             | Some doc \<Rightarrow> if pid doc = '''' then None else Some (pid doc)))"

definition sendInitialRequest ::
  "handler \<Rightarrow> string \<Rightarrow> ConsumerRequestMessage \<Rightarrow> string \<Rightarrow> (string option \<Rightarrow> prog) \<Rightarrow> prog" where
  "sendInitialRequest h providerBaseURL msg aud k =
     mintOutboundCredential h aud (\<lambda>(authorization, maySend).
       if \<not> maySend then k None
       else Http (post (providerBaseURL @ consumerRequestPath) (DRequest msg) authorization)
         (\<lambda>r. k (providerPID_of_reply nd_ProviderPID NegotiationStateDocument_fields
                   zero_NegotiationStateDocument r)))"

definition sendTransferRequest ::
  "handler \<Rightarrow> string \<Rightarrow> TransferRequestMessage \<Rightarrow> string \<Rightarrow> (string option \<Rightarrow> prog) \<Rightarrow> prog" where
  "sendTransferRequest h providerBaseURL msg aud k =
     mintOutboundCredential h aud (\<lambda>(authorization, maySend).
       if \<not> maySend then k None
       else Http (post (providerBaseURL @ transferRequestPath) (DTransferRequest msg) authorization)
         (\<lambda>r. k (providerPID_of_reply td_ProviderPID TransferProcessDoc_fields
                   zero_TransferProcessDoc r)))"

text \<open>
  A failed conditional update: a lost race is the 400 the state check would have given a moment
  later, anything else a storage failure.
\<close>

definition writeStateUpdateError :: "string \<Rightarrow> store_error \<Rightarrow> prog" where
  "writeStateUpdateError negotiationPID e =
     (if e = ErrStateChanged then
        writeError ContractNegotiationErrorType StatusBadRequest
          (''negotiation '' @ negotiationPID @ '' changed while this request was being handled'')
      else WriteHeader StatusInternalServerError Done)"

definition writeTransferStateUpdateError :: "string \<Rightarrow> store_error \<Rightarrow> prog" where
  "writeTransferStateUpdateError ident e =
     (if e = ErrStateChanged then
        writeError TransferErrorType StatusBadRequest
          (''transfer '' @ ident @ '' changed while this request was being handled'')
      else WriteHeader StatusInternalServerError Done)"

section \<open>What the checks answer\<close>

lemmas answer_defs [run_simps] = writeError_def writeJSON_def WriteHeader_def

lemma responds_writeError [simp]: "responds (writeError ty st reason) n \<longleftrightarrow> n = 1"
  by (auto simp: writeError_def writeJSON_def split: nat.splits)

lemma responds_writeJSON [simp]:
  "responds (writeJSON st v k) n \<longleftrightarrow> (case n of 0 \<Rightarrow> False | Suc m \<Rightarrow> responds k m)"
  by (simp add: writeJSON_def)

lemma responds_WriteHeader [simp]:
  "responds (WriteHeader st k) n \<longleftrightarrow> (case n of 0 \<Rightarrow> False | Suc m \<Rightarrow> responds k m)"
  by (simp add: WriteHeader_def)

lemma responds_checkEnvelope: "responds k (Suc 0) \<Longrightarrow> responds (checkEnvelope ty ctx got want k) (Suc 0)"
  by (simp add: checkEnvelope_def)

lemma responds_refuseIfNotParty: "responds k (Suc 0) \<Longrightarrow> responds (refuseIfNotParty r ty stored auth k) (Suc 0)"
  by (simp add: refuseIfNotParty_def)

lemma responds_decode_body: "(\<And>m. responds (k m) (Suc 0)) \<Longrightarrow> responds (decode_body ty rs flds z r k) (Suc 0)"
  by (simp add: decode_body_def split: option.splits)

lemma responds_usable: "(\<And>b. responds (k b) n) \<Longrightarrow> responds (usable h k) n"
  by (simp add: usable_def split: option.splits)

lemma responds_newMessageID: "(\<And>x. responds (k x) n) \<Longrightarrow> responds (newMessageID k) n"
  by (simp add: newMessageID_def)

lemma responds_mint: "(\<And>x. responds (k x) n) \<Longrightarrow> responds (mintOutboundCredential h aud k) n"
  by (auto simp: mintOutboundCredential_def intro!: responds_usable split: option.splits)

lemma responds_push_attempts:
  "(\<And>x. responds (k x) n) \<Longrightarrow> responds (push_attempts h url v aud ds k) n"
  by (induction ds) (auto simp: attemptPush_def intro!: responds_mint)

lemma responds_pushCallback: "(\<And>x. responds (k x) n) \<Longrightarrow> responds (pushCallback h url v aud k) n"
  unfolding pushCallback_def by (rule responds_push_attempts)

lemma responds_sendInitialRequest:
  "(\<And>x. responds (k x) n) \<Longrightarrow> responds (sendInitialRequest h url msg aud k) n"
  by (auto simp: sendInitialRequest_def intro!: responds_mint)

lemma responds_sendTransferRequest:
  "(\<And>x. responds (k x) n) \<Longrightarrow> responds (sendTransferRequest h url msg aud k) n"
  by (auto simp: sendTransferRequest_def intro!: responds_mint)

lemma responds_updateErrors [simp]:
  "responds (writeStateUpdateError pid e) n \<longleftrightarrow> n = 1"
  "responds (writeTransferStateUpdateError pid e) n \<longleftrightarrow> n = 1"
  by (auto simp: writeStateUpdateError_def writeTransferStateUpdateError_def split: nat.splits)

lemma responds_refuseExpiredRoster [simp]: "responds (refuseExpiredRoster ty) n \<longleftrightarrow> n = 1"
  by (simp add: refuseExpiredRoster_def)

named_theorems responds_rules
lemmas responds_basic [responds_rules] = responds_call responds_checkEnvelope
  responds_refuseIfNotParty responds_decode_body responds_usable responds_newMessageID responds_mint
  responds_pushCallback responds_sendInitialRequest responds_sendTransferRequest

text \<open>The rules that take a program apart.\<close>

lemma safe_structure:
  "safe R G Done w"
  "safe R G k w \<Longrightarrow> safe R G (Respond rsp k) w"
  "safe R G q w \<Longrightarrow> safe R G k w \<Longrightarrow> safe R G (Go q k) w"
  "safe R G k w \<Longrightarrow> safe R G (Sleep d k) w"
  "(\<And>t. safe R G (f t) w) \<Longrightarrow> safe R G (Now f) w"
  "(\<And>u. safe R G (g u) w) \<Longrightarrow> safe R G (Uuid g) w"
  "(\<And>b. safe R G (l b) w) \<Longrightarrow> safe R G (AllowURL url l) w"
  "(\<And>r. safe R G (e r) w) \<Longrightarrow> safe R G (Http q' e) w"
  "(c \<Longrightarrow> safe R G k w) \<Longrightarrow> (\<not> c \<Longrightarrow> safe R G q w) \<Longrightarrow> safe R G (if c then k else q) w"
  "(x = None \<Longrightarrow> safe R G k w) \<Longrightarrow> (\<And>y. x = Some y \<Longrightarrow> safe R G (m y) w) \<Longrightarrow>
     safe R G (case x of None \<Rightarrow> k | Some y \<Rightarrow> m y) w"
  "(\<And>y. z = Inl y \<Longrightarrow> safe R G (n y) w) \<Longrightarrow> (\<And>y. z = Inr y \<Longrightarrow> safe R G (o' y) w) \<Longrightarrow>
     safe R G (case z of Inl y \<Rightarrow> n y | Inr y \<Rightarrow> o' y) w"
  "(\<And>y. y = v \<Longrightarrow> safe R G (p' y) w) \<Longrightarrow> safe R G (let y = v in p' y) w"
  by (simp_all split: option.split sum.split)

text \<open>None of the outbound helpers touches the world by itself.\<close>

lemma safe_writeError [simp]: "safe R G (writeError ty st reason) w"
  by (simp add: writeError_def writeJSON_def)

lemma safe_writeJSON [simp]: "safe R G (writeJSON st v k) w = safe R G k w"
  by (simp add: writeJSON_def)

lemma safe_WriteHeader [simp]: "safe R G (WriteHeader st k) w = safe R G k w"
  by (simp add: WriteHeader_def)

lemma safe_refuseExpiredRoster [simp]: "safe R G (refuseExpiredRoster ty) w"
  by (simp add: refuseExpiredRoster_def)

lemma safe_checkEnvelope: "(ContextURL \<in> set ctx \<Longrightarrow> got = want \<Longrightarrow> safe R G k w) \<Longrightarrow>
    safe R G (checkEnvelope ty ctx got want k) w"
  by (simp add: checkEnvelope_def)

lemma safe_refuseIfNotParty: "((auth \<Longrightarrow> rq_Issuer r = stored) \<Longrightarrow> safe R G k w) \<Longrightarrow>
    safe R G (refuseIfNotParty r ty stored auth k) w"
  by (auto simp: refuseIfNotParty_def)

lemma safe_decode_body:
  "(\<And>m. safe R G (k m) w) \<Longrightarrow> safe R G (decode_body ty rs flds z r k) w"
  by (simp add: decode_body_def split: option.splits)

lemma safe_usable: "(\<And>b. safe R G (k b) w) \<Longrightarrow> safe R G (usable h k) w"
  by (simp add: usable_def split: option.splits)

lemma safe_newMessageID: "(\<And>x. safe R G (k x) w) \<Longrightarrow> safe R G (newMessageID k) w"
  by (simp add: newMessageID_def)

lemma safe_mint: "(\<And>x. safe R G (k x) w) \<Longrightarrow> safe R G (mintOutboundCredential h aud k) w"
  by (auto simp: mintOutboundCredential_def intro!: safe_usable split: option.splits)

lemma safe_push_attempts:
  "(\<And>x. safe R G (k x) w) \<Longrightarrow> safe R G (push_attempts h url v aud ds k) w"
  by (induction ds) (auto simp: attemptPush_def intro!: safe_mint)

lemma safe_pushCallback: "(\<And>x. safe R G (k x) w) \<Longrightarrow> safe R G (pushCallback h url v aud k) w"
  unfolding pushCallback_def by (rule safe_push_attempts)

lemma safe_sendInitialRequest:
  "(\<And>x. safe R G (k x) w) \<Longrightarrow> safe R G (sendInitialRequest h url msg aud k) w"
  by (auto simp: sendInitialRequest_def intro!: safe_mint)

lemma safe_sendTransferRequest:
  "(\<And>x. safe R G (k x) w) \<Longrightarrow> safe R G (sendTransferRequest h url msg aud k) w"
  by (auto simp: sendTransferRequest_def intro!: safe_mint)

lemma safe_updateErrors [simp]:
  "safe R G (writeStateUpdateError pid e) w" "safe R G (writeTransferStateUpdateError pid e) w"
  by (simp_all add: writeStateUpdateError_def writeTransferStateUpdateError_def)

named_theorems safe_rules
lemmas safe_basic [safe_rules] = safe_checkEnvelope safe_refuseIfNotParty safe_decode_body safe_usable
  safe_newMessageID safe_mint safe_pushCallback safe_sendInitialRequest safe_sendTransferRequest

section \<open>What a run of the outbound calls does\<close>

lemma emit_none [simp]: "emit [] [] r = r"
  by (simp add: emit_def)

lemma run_usable: "\<exists>b j. run (usable h k) a w = run (k b) (\<lambda>i. a (i + j)) w"
proof (cases "h_guard h")
  case None
  then show ?thesis by (intro exI [of _ True] exI [of _ 0]) (simp add: usable_def)
next
  case (Some check)
  then show ?thesis by (intro exI [of _ "check (an_Now (a 0))"] exI [of _ "Suc 0"]) (simp add: usable_def)
qed

lemma run_mint: "\<exists>x j. run (mintOutboundCredential h aud k) a w = run (k x) (\<lambda>i. a (i + j)) w"
proof (cases "AuthRequired (h_cfg h)")
  case False
  then show ?thesis by (intro exI [of _ "('''', True)"] exI [of _ 0]) (simp add: mintOutboundCredential_def)
next
  case True
  let ?k = "\<lambda>ok. if \<not> ok then k ('''', False) else if aud = '''' then k ('''', True)
    else Now (\<lambda>now. case h_sign h aud now of None \<Rightarrow> k ('''', True) | Some tok \<Rightarrow> k (''Bearer '' @ tok, True))"
  obtain b j where "run (mintOutboundCredential h aud k) a w = run (?k b) (\<lambda>i. a (i + j)) w"
    using run_usable [of h ?k a w] True by (auto simp: mintOutboundCredential_def)
  moreover have "\<exists>x m. run (?k b) c w = run (k x) (\<lambda>i. c (i + m)) w" for c
  proof (cases "b \<and> aud \<noteq> ''''")
    case True
    then show ?thesis
      by (intro exI [of _ "case h_sign h aud (an_Now (c 0)) of None \<Rightarrow> ('''', True)
          | Some tok \<Rightarrow> (''Bearer '' @ tok, True)"] exI [of _ "Suc 0"]) (simp split: option.split)
  next
    case False
    then show ?thesis by (intro exI [of _ "('''', b)"] exI [of _ 0]) auto
  qed
  then obtain x m where "run (?k b) (\<lambda>i. a (i + j)) w = run (k x) (\<lambda>i. a (i + m + j)) w" by blast
  ultimately show ?thesis by (intro exI [of _ x] exI [of _ "m + j"]) (simp add: add.assoc)
qed

text \<open>
  A push sends the same message to the same address, five times at most; its result is true only
  when an exchange succeeded.
\<close>

definition pushes :: "string \<Rightarrow> document \<Rightarrow> event list \<Rightarrow> bool" where
  "pushes url v evs \<longleftrightarrow> length evs \<le> 5 \<and> (\<forall>e \<in> set evs. \<exists>au. e = Sent (post url v au))"

lemma run_push_attempts_any:
  "\<exists>evs ok j. run (push_attempts h url v aud ds k) a w = emit evs [] (run (k ok) (\<lambda>i. a (i + j)) w) \<and>
     length evs \<le> Suc (length ds) \<and> (\<forall>e \<in> set evs. \<exists>au. e = Sent (post url v au)) \<and>
     (ok \<longrightarrow> evs \<noteq> [] \<and> (\<exists>i. push_ok (an_Http (a i))))"
proof (induction ds arbitrary: a)
  case Nil
  let ?k = "\<lambda>(authorization, maySend). if \<not> maySend then k False else attemptPush url v authorization k"
  obtain au ms j where "run (mintOutboundCredential h aud ?k) a w = run (?k (au, ms)) (\<lambda>i. a (i + j)) w"
    using run_mint [of h aud ?k a w] by (auto split del: if_split)
  then show ?case
  proof (cases ms)
    case True
    then show ?thesis using \<open>run (mintOutboundCredential h aud ?k) a w = _\<close>
      by (intro exI [of _ "[Sent (post url v au)]"] exI [of _ "push_ok (an_Http (a j))"] exI [of _ "Suc j"])
        (auto simp: attemptPush_def)
  next
    case False
    then show ?thesis using \<open>run (mintOutboundCredential h aud ?k) a w = _\<close>
      by (intro exI [of _ "[]"] exI [of _ False] exI [of _ j]) simp
  qed
next
  case (Cons d ds)
  let ?k = "\<lambda>(authorization, maySend). if \<not> maySend then k False
    else attemptPush url v authorization (\<lambda>ok. if ok then k True else Sleep d (push_attempts h url v aud ds k))"
  obtain au ms j where start: "run (mintOutboundCredential h aud ?k) a w = run (?k (au, ms)) (\<lambda>i. a (i + j)) w"
    using run_mint [of h aud ?k a w] by (auto split del: if_split)
  consider "\<not> ms" | "ms" "push_ok (an_Http (a j))" | "ms" "\<not> push_ok (an_Http (a j))" by blast
  then show ?case
  proof cases
    case 1
    then show ?thesis using start
      by (intro exI [of _ "[]"] exI [of _ False] exI [of _ j]) simp
  next
    case 2
    then show ?thesis using start
      by (intro exI [of _ "[Sent (post url v au)]"] exI [of _ True] exI [of _ "Suc j"])
        (auto simp: attemptPush_def)
  next
    case 3
    obtain evs ok m where rest: "run (push_attempts h url v aud ds k) (\<lambda>i. a (Suc (i + j))) w =
        emit evs [] (run (k ok) (\<lambda>i. a (Suc (i + m + j))) w)" "length evs \<le> Suc (length ds)"
        "\<forall>e \<in> set evs. \<exists>au. e = Sent (post url v au)"
        "ok \<longrightarrow> evs \<noteq> [] \<and> (\<exists>i. push_ok (an_Http (a (Suc (i + j)))))"
      using Cons.IH [of "\<lambda>i. a (Suc (i + j))"] by blast
    then show ?thesis using 3 start
      by (intro exI [of _ "Sent (post url v au) # evs"] exI [of _ ok] exI [of _ "Suc (m + j)"])
        (auto simp: attemptPush_def emit_def ac_simps)
  qed
qed

lemma run_pushCallback:
  "\<exists>evs ok j. run (pushCallback h url v aud k) a w = emit evs [] (run (k ok) (\<lambda>i. a (i + j)) w) \<and>
    pushes url v evs \<and> (ok \<longrightarrow> evs \<noteq> [] \<and> (\<exists>i. push_ok (an_Http (a i))))"
proof -
  have "length callbackRetryBackoffs = 4" by (simp add: callbackRetryBackoffs_def)
  then show ?thesis
    using run_push_attempts_any [of h url v aud callbackRetryBackoffs k a w]
    unfolding pushCallback_def pushes_def by simp
qed

lemma run_push_attempts:
  assumes "\<not> AuthRequired (h_cfg h)"
  shows "\<exists>m ok. run (push_attempts h url v aud ds k) a w =
      emit (replicate (Suc m) (Sent (post url v ''''))) [] (run (k ok) (\<lambda>i. a (i + Suc m)) w) \<and>
    m \<le> length ds \<and> (\<forall>i < m. \<not> push_ok (an_Http (a i))) \<and> (ok \<longleftrightarrow> push_ok (an_Http (a m))) \<and>
    (ok \<or> m = length ds)"
proof (induction ds arbitrary: a)
  case Nil
  then show ?case using assms
    by (auto simp: mintOutboundCredential_def attemptPush_def intro!: exI [of _ 0])
next
  case (Cons d ds)
  show ?case
  proof (cases "push_ok (an_Http (a 0))")
    case True
    then show ?thesis using assms
      by (auto simp: mintOutboundCredential_def attemptPush_def intro!: exI [of _ 0] exI [of _ True])
  next
    case False
    obtain m ok where IH: "run (push_attempts h url v aud ds k) (\<lambda>i. a (Suc i)) w =
        emit (replicate (Suc m) (Sent (post url v ''''))) [] (run (k ok) (\<lambda>i. a (Suc (i + Suc m))) w)"
      "m \<le> length ds" "\<forall>i < m. \<not> push_ok (an_Http (a (Suc i)))" "ok \<longleftrightarrow> push_ok (an_Http (a (Suc m)))"
      "ok \<or> m = length ds"
      using Cons.IH [of "\<lambda>i. a (Suc i)"] by blast
    have "\<forall>i < Suc m. \<not> push_ok (an_Http (a i))" using IH(3) False less_Suc_eq_0_disj by auto
    then show ?thesis using assms IH False
      by (intro exI [of _ "Suc m"] exI [of _ ok])
        (simp add: mintOutboundCredential_def attemptPush_def emit_def)
  qed
qed


definition example_handler :: handler where
  "example_handler = \<lparr>h_cfg = \<lparr>PublicURL = '''', ParticipantID = '''', Datasets = [], DevMode = False,
     DSPAddr = '''', MgmtAddr = '''', MgmtToken = '''', DataDir = '''', DataIdleTimeout = 0,
     MaxDownloadBytes = 0, ConsumerPolicies = [], TransferPolicies = [], ConsumerTransferPolicies = [],
     ParticipantKey = '''', RosterPath = '''', RosterSigner = '''', RequireAuth = Some False\<rparr>,
     h_stepDelay = 0, h_knownParticipant = None, h_providerAddress = None, h_guard = None,
     h_sign = (\<lambda>aud now. None)\<rparr>"


end
