(* ===== verification/Lifecycle.thy ===== *)
theory Lifecycle
  imports Protocol
begin

text \<open>
  How the records of the connector may change, whatever requests and goroutines interleave: the
  state machines of the two protocols, the columns nothing ever rewrites, and the relation
  \<open>evolves\<close> between an earlier and a later store, which is reflexive and transitive and keeps
  every row.
\<close>

section \<open>The state machines\<close>

definition negotiation_edges :: "(string \<times> string) list" where
  "negotiation_edges =
     [(StateRequested, StateOffered), (StateRequested, StateAgreed),
      (StateRequested, StateTerminated), (StateOffered, StateAccepted),
      (StateOffered, StateTerminated), (StateAccepted, StateAgreed),
      (StateAccepted, StateTerminated), (StateAgreed, StateVerified),
      (StateAgreed, StateTerminated), (StateVerified, StateFinalized),
      (StateVerified, StateTerminated)]"

definition transfer_edges :: "(string \<times> string) list" where
  "transfer_edges =
     [(TransferRequested, TransferStarted), (TransferRequested, TransferTerminated),
      (TransferStarted, TransferSuspended), (TransferStarted, TransferCompleted),
      (TransferStarted, TransferTerminated), (TransferSuspended, TransferStarted),
      (TransferSuspended, TransferTerminated)]"

definition negotiation_edge :: "string \<Rightarrow> string \<Rightarrow> bool" where
  "negotiation_edge a b \<longleftrightarrow> (a, b) \<in> set negotiation_edges"

definition transfer_edge :: "string \<Rightarrow> string \<Rightarrow> bool" where
  "transfer_edge a b \<longleftrightarrow> (a, b) \<in> set transfer_edges"

definition negotiation_states :: "string list" where
  "negotiation_states = [StateRequested, StateOffered, StateAccepted, StateAgreed,
     StateVerified, StateFinalized, StateTerminated]"

definition transfer_states :: "string list" where
  "transfer_states = [TransferRequested, TransferStarted, TransferCompleted,
     TransferSuspended, TransferTerminated]"

text \<open>The states a negotiation can be in once its agreement has been issued.\<close>

definition agreement_issued :: "string \<Rightarrow> bool" where
  "agreement_issued st \<longleftrightarrow> st \<in> {StateAgreed, StateVerified, StateFinalized, StateTerminated}"

lemma negotiation_edges_simps [simp]:
  "negotiation_edge StateRequested StateOffered" "negotiation_edge StateRequested StateAgreed"
  "negotiation_edge StateOffered StateAccepted" "negotiation_edge StateAccepted StateAgreed"
  "negotiation_edge StateAgreed StateVerified" "negotiation_edge StateVerified StateFinalized"
  by (simp_all add: negotiation_edge_def negotiation_edges_def)

lemma negotiation_edge_terminate [simp]:
  "st \<in> set negotiation_states \<Longrightarrow> st \<noteq> StateFinalized \<Longrightarrow> st \<noteq> StateTerminated \<Longrightarrow>
     negotiation_edge st StateTerminated"
  by (auto simp: negotiation_edge_def negotiation_edges_def negotiation_states_def)

lemma transfer_edges_simps [simp]:
  "transfer_edge TransferRequested TransferStarted" "transfer_edge TransferSuspended TransferStarted"
  "transfer_edge TransferStarted TransferSuspended" "transfer_edge TransferStarted TransferCompleted"
  "transfer_edge TransferRequested TransferTerminated"
  "transfer_edge TransferStarted TransferTerminated"
  "transfer_edge TransferSuspended TransferTerminated"
  by (simp_all add: transfer_edge_def transfer_edges_def)

text \<open>The states are pairwise different, and each is one of them.\<close>

lemma state_distinct [simp]:
  "distinct negotiation_states" "distinct transfer_states"
  by (simp_all add: negotiation_states_def transfer_states_def state_defs transfer_state_defs)

lemma state_members [simp]:
  "StateRequested \<in> set negotiation_states" "StateOffered \<in> set negotiation_states"
  "StateAccepted \<in> set negotiation_states" "StateAgreed \<in> set negotiation_states"
  "StateVerified \<in> set negotiation_states" "StateFinalized \<in> set negotiation_states"
  "StateTerminated \<in> set negotiation_states" "TransferRequested \<in> set transfer_states"
  by (simp_all add: negotiation_states_def transfer_states_def)

lemma states_differ [simp]:
  "StateRequested \<noteq> StateOffered" "StateRequested \<noteq> StateAccepted" "StateRequested \<noteq> StateAgreed"
  "StateRequested \<noteq> StateVerified" "StateRequested \<noteq> StateFinalized"
  "StateRequested \<noteq> StateTerminated" "StateOffered \<noteq> StateRequested"
  "StateOffered \<noteq> StateAgreed" "StateOffered \<noteq> StateVerified" "StateOffered \<noteq> StateFinalized"
  "StateOffered \<noteq> StateTerminated" "StateAccepted \<noteq> StateAgreed" "StateAccepted \<noteq> StateFinalized"
  "StateAccepted \<noteq> StateTerminated" "StateAgreed \<noteq> StateOffered" "StateAgreed \<noteq> StateAccepted"
  "StateAgreed \<noteq> StateFinalized" "StateAgreed \<noteq> StateTerminated" "StateVerified \<noteq> StateOffered"
  "StateVerified \<noteq> StateAccepted" "StateVerified \<noteq> StateAgreed" "StateVerified \<noteq> StateFinalized"
  "StateVerified \<noteq> StateTerminated" "StateFinalized \<noteq> StateOffered" "StateFinalized \<noteq> StateAccepted"
  "StateFinalized \<noteq> StateAgreed" "StateTerminated \<noteq> StateOffered" "StateTerminated \<noteq> StateAccepted"
  "StateTerminated \<noteq> StateAgreed" "StateTerminated \<noteq> StateFinalized"
  by (simp_all add: state_defs)

lemma negotiation_edge_states: "negotiation_edge a b \<Longrightarrow> b \<in> set negotiation_states"
  by (auto simp: negotiation_edge_def negotiation_edges_def negotiation_states_def)

lemma transfer_edge_states: "transfer_edge a b \<Longrightarrow> b \<in> set transfer_states"
  by (auto simp: transfer_edge_def transfer_edges_def transfer_states_def)

lemma agreement_issued_edge: "negotiation_edge a b \<Longrightarrow> agreement_issued a \<Longrightarrow> agreement_issued b"
  by (auto simp: negotiation_edge_def negotiation_edges_def agreement_issued_def state_defs)

lemma agreement_issued_later: "negotiation_edge\<^sup>*\<^sup>* a b \<Longrightarrow> agreement_issued a \<Longrightarrow> agreement_issued b"
  by (induction rule: rtranclp_induct) (auto intro: agreement_issued_edge)

lemma negotiation_final:
  "\<not> negotiation_edge StateFinalized b" "\<not> negotiation_edge StateTerminated b"
  by (auto simp: negotiation_edge_def negotiation_edges_def state_defs)

lemma transfer_final:
  "\<not> transfer_edge TransferCompleted b" "\<not> transfer_edge TransferTerminated b"
  by (auto simp: transfer_edge_def transfer_edges_def transfer_state_defs)

text \<open>No path leads out of a terminal state.\<close>

lemma rtranclp_stuck: "R\<^sup>*\<^sup>* a b \<Longrightarrow> (\<And>x. \<not> R a x) \<Longrightarrow> b = a"
  by (metis converse_rtranclpE)

lemma negotiation_stuck:
  "negotiation_edge\<^sup>*\<^sup>* a b \<Longrightarrow> a \<in> {StateFinalized, StateTerminated} \<Longrightarrow> b = a"
  by (rule rtranclp_stuck) (use negotiation_final in auto)

lemma transfer_stuck:
  "transfer_edge\<^sup>*\<^sup>* a b \<Longrightarrow> a \<in> {TransferCompleted, TransferTerminated} \<Longrightarrow> b = a"
  by (rule rtranclp_stuck) (use transfer_final in auto)

section \<open>How a row may change\<close>

definition same_negotiation :: "Negotiation \<Rightarrow> Negotiation \<Rightarrow> bool" where
  "same_negotiation n n' \<longleftrightarrow>
     n_ProviderPID n' = n_ProviderPID n \<and> n_ConsumerPID n' = n_ConsumerPID n \<and>
     n_DatasetID n' = n_DatasetID n \<and> n_OfferID n' = n_OfferID n \<and>
     n_CallbackAddress n' = n_CallbackAddress n \<and> n_CounterpartyID n' = n_CounterpartyID n \<and>
     n_CreatedAt n' = n_CreatedAt n"

definition negotiation_step :: "Negotiation \<Rightarrow> Negotiation \<Rightarrow> bool" where
  "negotiation_step n n' \<longleftrightarrow> same_negotiation n n' \<and>
     negotiation_edge\<^sup>*\<^sup>* (n_State n) (n_State n') \<and> (n_Rerequested n \<longrightarrow> n_Rerequested n')"

definition same_consumer :: "ConsumerNegotiation \<Rightarrow> ConsumerNegotiation \<Rightarrow> bool" where
  "same_consumer c c' \<longleftrightarrow>
     c_ConsumerPID c' = c_ConsumerPID c \<and> c_ProviderBaseURL c' = c_ProviderBaseURL c \<and>
     c_DatasetID c' = c_DatasetID c \<and> c_OfferID c' = c_OfferID c \<and>
     c_CounterpartyID c' = c_CounterpartyID c \<and> c_CreatedAt c' = c_CreatedAt c"

definition consumer_step :: "ConsumerNegotiation \<Rightarrow> ConsumerNegotiation \<Rightarrow> bool" where
  "consumer_step c c' \<longleftrightarrow> same_consumer c c' \<and> negotiation_edge\<^sup>*\<^sup>* (c_State c) (c_State c')"

definition same_transfer :: "TransferProcess \<Rightarrow> TransferProcess \<Rightarrow> bool" where
  "same_transfer t t' \<longleftrightarrow>
     t_ProviderPID t' = t_ProviderPID t \<and> t_ConsumerPID t' = t_ConsumerPID t \<and>
     t_AgreementID t' = t_AgreementID t \<and> t_CallbackAddress t' = t_CallbackAddress t \<and>
     t_Format t' = t_Format t \<and> t_CounterpartyID t' = t_CounterpartyID t \<and>
     t_CreatedAt t' = t_CreatedAt t"

definition transfer_step :: "TransferProcess \<Rightarrow> TransferProcess \<Rightarrow> bool" where
  "transfer_step t t' \<longleftrightarrow> same_transfer t t' \<and> transfer_edge\<^sup>*\<^sup>* (t_State t) (t_State t')"

definition same_consumer_transfer :: "ConsumerTransfer \<Rightarrow> ConsumerTransfer \<Rightarrow> bool" where
  "same_consumer_transfer t t' \<longleftrightarrow>
     ct_ConsumerPID t' = ct_ConsumerPID t \<and> ct_ProviderBaseURL t' = ct_ProviderBaseURL t \<and>
     ct_AgreementID t' = ct_AgreementID t \<and> ct_Format t' = ct_Format t \<and>
     ct_CounterpartyID t' = ct_CounterpartyID t \<and> ct_CreatedAt t' = ct_CreatedAt t"

definition consumer_transfer_step :: "ConsumerTransfer \<Rightarrow> ConsumerTransfer \<Rightarrow> bool" where
  "consumer_transfer_step t t' \<longleftrightarrow>
     same_consumer_transfer t t' \<and> transfer_edge\<^sup>*\<^sup>* (ct_State t) (ct_State t')"

text \<open>The highest roster version only grows.\<close>

definition roster_step :: "int option \<Rightarrow> int option \<Rightarrow> bool" where
  "roster_step v v' \<longleftrightarrow> (case v of None \<Rightarrow> True
     | Some x \<Rightarrow> (case v' of None \<Rightarrow> False | Some y \<Rightarrow> x \<le> y))"

definition evolves :: "store \<Rightarrow> store \<Rightarrow> bool" where
  "evolves s s' \<longleftrightarrow>
     rows_evolve n_ProviderPID negotiation_step (negotiations s) (negotiations s') \<and>
     rows_evolve c_ConsumerPID consumer_step (consumer_negotiations s) (consumer_negotiations s') \<and>
     rows_evolve a_AgreementID (=) (agreements s) (agreements s') \<and>
     rows_evolve t_ProviderPID transfer_step (transfer_processes s) (transfer_processes s') \<and>
     rows_evolve ct_ConsumerPID consumer_transfer_step
       (consumer_transfer_processes s) (consumer_transfer_processes s') \<and>
     roster_step (roster_version s) (roster_version s')"

lemma same_refl [simp]:
  "same_negotiation n n" "same_consumer c c" "same_transfer t t" "same_consumer_transfer u u"
  by (simp_all add: same_negotiation_def same_consumer_def same_transfer_def
      same_consumer_transfer_def)

lemma step_refl [simp]:
  "negotiation_step n n" "consumer_step c c" "transfer_step t t" "consumer_transfer_step u u"
  "roster_step v v"
  by (auto simp: negotiation_step_def consumer_step_def transfer_step_def
      consumer_transfer_step_def roster_step_def split: option.splits)

lemma negotiation_step_trans:
  "negotiation_step a b \<Longrightarrow> negotiation_step b c \<Longrightarrow> negotiation_step a c"
  by (auto simp: negotiation_step_def same_negotiation_def intro: rtranclp_trans)

lemma consumer_step_trans: "consumer_step a b \<Longrightarrow> consumer_step b c \<Longrightarrow> consumer_step a c"
  by (auto simp: consumer_step_def same_consumer_def intro: rtranclp_trans)

lemma transfer_step_trans: "transfer_step a b \<Longrightarrow> transfer_step b c \<Longrightarrow> transfer_step a c"
  by (auto simp: transfer_step_def same_transfer_def intro: rtranclp_trans)

lemma consumer_transfer_step_trans:
  "consumer_transfer_step a b \<Longrightarrow> consumer_transfer_step b c \<Longrightarrow> consumer_transfer_step a c"
  by (auto simp: consumer_transfer_step_def same_consumer_transfer_def intro: rtranclp_trans)

lemma roster_step_trans: "roster_step a b \<Longrightarrow> roster_step b c \<Longrightarrow> roster_step a c"
  by (auto simp: roster_step_def split: option.splits)

lemma evolves_refl [simp]: "evolves s s"
  by (simp add: evolves_def rows_evolve_refl)

lemma evolves_trans: "evolves a b \<Longrightarrow> evolves b c \<Longrightarrow> evolves a c"
  unfolding evolves_def
  by (elim conjE, intro conjI;
      ((rule rows_evolve_trans, (erule (1) negotiation_step_trans | erule (1) consumer_step_trans
          | erule (1) trans | erule (1) transfer_step_trans | erule (1) consumer_transfer_step_trans))
        | erule (1) roster_step_trans); assumption?)

lemma evolvesD:
  assumes "evolves s s'"
  shows "find_negotiation k s = Some n \<Longrightarrow> \<exists>n'. find_negotiation k s' = Some n' \<and> negotiation_step n n'"
    and "find_consumer k s = Some c \<Longrightarrow> \<exists>c'. find_consumer k s' = Some c' \<and> consumer_step c c'"
    and "find_agreement k s = Some a \<Longrightarrow> find_agreement k s' = Some a"
    and "find_transfer k s = Some t \<Longrightarrow> \<exists>t'. find_transfer k s' = Some t' \<and> transfer_step t t'"
    and "find_consumer_transfer k s = Some u \<Longrightarrow>
      \<exists>u'. find_consumer_transfer k s' = Some u' \<and> consumer_transfer_step u u'"
  using assms unfolding evolves_def by (auto dest: rows_evolveD)

lemma evolves_terminal:
  assumes "evolves s s'"
  shows "find_negotiation k s = Some n \<Longrightarrow> n_State n \<in> {StateFinalized, StateTerminated} \<Longrightarrow>
      map_option n_State (find_negotiation k s') = Some (n_State n)"
    and "find_consumer k s = Some m \<Longrightarrow> c_State m \<in> {StateFinalized, StateTerminated} \<Longrightarrow>
      map_option c_State (find_consumer k s') = Some (c_State m)"
    and "find_transfer k s = Some t \<Longrightarrow> t_State t \<in> {TransferCompleted, TransferTerminated} \<Longrightarrow>
      map_option t_State (find_transfer k s') = Some (t_State t)"
    and "find_consumer_transfer k s = Some u \<Longrightarrow> ct_State u \<in> {TransferCompleted, TransferTerminated} \<Longrightarrow>
      map_option ct_State (find_consumer_transfer k s') = Some (ct_State u)"
  using evolvesD(1,2,4,5) [OF assms] negotiation_stuck transfer_stuck
  by (fastforce simp: negotiation_step_def consumer_step_def transfer_step_def consumer_transfer_step_def)+

end
