(* ===== verification/Guarantee.thy ===== *)
theory Guarantee
  imports Lifecycle
begin

text \<open>
  The promise the handlers keep: what holds of every row (\<open>conn_invar\<close>), how the store evolves,
  and, with authentication on, whose rows a message may touch (\<open>only_touches\<close>).  For each
  statement of the store the theory shows when it keeps the promise, and interprets
  \<open>rely_guarantee\<close> with it; the handler theories then show \<open>safe\<close> for one handler at a time
  with the rules collected in \<open>safe_rules\<close>.
\<close>

section \<open>What holds of every row\<close>

text \<open>With a roster, the counterparty is listed and the address is the one listed for it.\<close>

definition listed :: "handler \<Rightarrow> string \<Rightarrow> string \<Rightarrow> bool" where
  "listed h counterparty address \<longleftrightarrow>
     (case h_knownParticipant h of None \<Rightarrow> True | Some known \<Rightarrow> known counterparty) \<and>
     (case h_providerAddress h of None \<Rightarrow> True
        | Some addressFor \<Rightarrow> addressFor counterparty = Some address)"

text \<open>A counter-offer is only on the table, or accepted, when the request did not match.\<close>

definition negotiation_ok :: "Negotiation \<Rightarrow> bool" where
  "negotiation_ok n \<longleftrightarrow> n_State n \<in> set negotiation_states \<and>
     (n_State n \<in> {StateOffered, StateAccepted} \<longrightarrow> n_OfferID n \<noteq> n_DatasetID n @ offerIDSuffix)"

definition consumer_ok :: "handler \<Rightarrow> store \<Rightarrow> ConsumerNegotiation \<Rightarrow> bool" where
  "consumer_ok h s c \<longleftrightarrow> c_State c \<in> set negotiation_states \<and>
     listed h (c_CounterpartyID c) (c_ProviderBaseURL c) \<and>
     (c_State c \<in> {StateAgreed, StateVerified, StateFinalized} \<longrightarrow>
        (\<exists>k a. find_agreement k s = Some a \<and> a_Origin a = OriginAgreed \<and>
           a_ConsumerPID a = c_ConsumerPID c \<and> a_CounterpartyID a = c_CounterpartyID c))"

definition agreement_ok :: "store \<Rightarrow> Agreement \<Rightarrow> bool" where
  "agreement_ok s a \<longleftrightarrow>
     (a_Origin a = OriginNegotiated \<longrightarrow>
        (\<exists>n. find_negotiation (a_AgreementID a) s = Some n \<and> a_DatasetID a = n_DatasetID n \<and>
           a_ConsumerPID a = n_ConsumerPID n \<and> a_CounterpartyID a = n_CounterpartyID n \<and>
           agreement_issued (n_State n))) \<and>
     (a_Origin a = OriginAgreed \<longrightarrow>
        (\<exists>c. find_consumer (a_ConsumerPID a) s = Some c \<and>
           a_CounterpartyID a = c_CounterpartyID c))"

definition transfer_ok :: "handler \<Rightarrow> store \<Rightarrow> TransferProcess \<Rightarrow> bool" where
  "transfer_ok h s t \<longleftrightarrow> t_State t \<in> set transfer_states \<and>
     (\<exists>a. find_agreement (t_AgreementID t) s = Some a \<and> a_Origin a \<noteq> OriginAgreed \<and>
        (AuthRequired (h_cfg h) \<longrightarrow> a_CounterpartyID a \<in> {'''', t_CounterpartyID t}))"

definition consumer_transfer_ok :: "handler \<Rightarrow> store \<Rightarrow> ConsumerTransfer \<Rightarrow> bool" where
  "consumer_transfer_ok h s t \<longleftrightarrow> ct_State t \<in> set transfer_states \<and>
     listed h (ct_CounterpartyID t) (ct_ProviderBaseURL t) \<and>
     (\<exists>a. find_agreement (ct_AgreementID t) s = Some a)"

definition conn_invar :: "handler \<Rightarrow> store \<Rightarrow> bool" where
  "conn_invar h s \<longleftrightarrow> store_wf s \<and>
     all_rows n_ProviderPID negotiation_ok (negotiations s) \<and>
     all_rows c_ConsumerPID (consumer_ok h s) (consumer_negotiations s) \<and>
     all_rows a_AgreementID (agreement_ok s) (agreements s) \<and>
     all_rows t_ProviderPID (transfer_ok h s) (transfer_processes s) \<and>
     all_rows ct_ConsumerPID (consumer_transfer_ok h s) (consumer_transfer_processes s)"

text \<open>The rows of the other participants, and the roster version, are as they were.\<close>

definition only_touches :: "string \<Rightarrow> store \<Rightarrow> store \<Rightarrow> bool" where
  "only_touches p s s' \<longleftrightarrow>
     filter (\<lambda>r. n_CounterpartyID r \<noteq> p) (negotiations s') =
       filter (\<lambda>r. n_CounterpartyID r \<noteq> p) (negotiations s) \<and>
     filter (\<lambda>r. c_CounterpartyID r \<noteq> p) (consumer_negotiations s') =
       filter (\<lambda>r. c_CounterpartyID r \<noteq> p) (consumer_negotiations s) \<and>
     filter (\<lambda>r. a_CounterpartyID r \<noteq> p) (agreements s') =
       filter (\<lambda>r. a_CounterpartyID r \<noteq> p) (agreements s) \<and>
     filter (\<lambda>r. t_CounterpartyID r \<noteq> p) (transfer_processes s') =
       filter (\<lambda>r. t_CounterpartyID r \<noteq> p) (transfer_processes s) \<and>
     filter (\<lambda>r. ct_CounterpartyID r \<noteq> p) (consumer_transfer_processes s') =
       filter (\<lambda>r. ct_CounterpartyID r \<noteq> p) (consumer_transfer_processes s) \<and>
     roster_version s' = roster_version s"

lemma only_touches_refl [simp]: "only_touches p s s"
  by (simp add: only_touches_def)

text \<open>What the other programs may do, and what a message of participant \<open>p\<close> may do.\<close>

definition rely :: "handler \<Rightarrow> world \<Rightarrow> world \<Rightarrow> bool" where
  "rely h w w' \<longleftrightarrow> conn_invar h (db w') \<and> evolves (db w) (db w')"

definition acts_for :: "handler \<Rightarrow> string \<Rightarrow> world \<Rightarrow> world \<Rightarrow> bool" where
  "acts_for h p w w' \<longleftrightarrow> rely h w w' \<and>
     (AuthRequired (h_cfg h) \<longrightarrow> only_touches p (db w) (db w'))"

interpretation conn: rely_guarantee "\<lambda>w. conn_invar h (db w)" "rely h" for h
  by unfold_locales (auto simp: rely_def intro: evolves_trans)

lemma acts_for_rely: "acts_for h p w w' \<Longrightarrow> rely h w w'"
  by (simp add: acts_for_def)

lemma acts_for_refl: "conn_invar h (db w) \<Longrightarrow> acts_for h p w w"
  by (simp add: acts_for_def rely_def)

lemma conn_invar_empty: "conn_invar h empty_store"
  using store_wf_empty by (simp add: conn_invar_def empty_store_def)

lemma conn_invarD:
  assumes "conn_invar h s"
  shows "store_wf s"
    and "find_negotiation k s = Some n \<Longrightarrow> negotiation_ok n"
    and "find_consumer k s = Some c \<Longrightarrow> consumer_ok h s c"
    and "find_agreement k s = Some a \<Longrightarrow> agreement_ok s a"
    and "find_transfer k s = Some t \<Longrightarrow> transfer_ok h s t"
    and "find_consumer_transfer k s = Some u \<Longrightarrow> consumer_transfer_ok h s u"
  using assms unfolding conn_invar_def by (auto dest: all_rowsD)

section \<open>The links survive every evolution\<close>

lemma agreement_ok_later:
  assumes "agreement_ok s a" and "evolves s s'"
  shows "agreement_ok s' a"
  using assms(1) unfolding agreement_ok_def
  by (auto dest!: evolvesD(1,2) [OF assms(2)] intro: agreement_issued_later
      simp: negotiation_step_def same_negotiation_def consumer_step_def same_consumer_def)

lemma consumer_ok_later: "consumer_ok h s c \<Longrightarrow> evolves s s' \<Longrightarrow> consumer_ok h s' c"
  unfolding consumer_ok_def by (blast dest: evolvesD(3))

lemma transfer_ok_later: "transfer_ok h s t \<Longrightarrow> evolves s s' \<Longrightarrow> transfer_ok h s' t"
  unfolding transfer_ok_def by (blast dest: evolvesD(3))

lemma consumer_transfer_ok_later:
  "consumer_transfer_ok h s t \<Longrightarrow> evolves s s' \<Longrightarrow> consumer_transfer_ok h s' t"
  unfolding consumer_transfer_ok_def by (blast dest: evolvesD(3))

text \<open>
  To keep the invariant it is therefore enough to keep it on the rows of the table written: the
  rows of the others are covered by the evolution.
\<close>

lemma conn_invar_evolves:
  assumes "conn_invar h s" and "evolves s s'" and "store_wf s'"
    and "negotiations s' = negotiations s \<or> all_rows n_ProviderPID negotiation_ok (negotiations s')"
    and "consumer_negotiations s' = consumer_negotiations s \<or>
      all_rows c_ConsumerPID (consumer_ok h s') (consumer_negotiations s')"
    and "agreements s' = agreements s \<or> all_rows a_AgreementID (agreement_ok s') (agreements s')"
    and "transfer_processes s' = transfer_processes s \<or>
      all_rows t_ProviderPID (transfer_ok h s') (transfer_processes s')"
    and "consumer_transfer_processes s' = consumer_transfer_processes s \<or>
      all_rows ct_ConsumerPID (consumer_transfer_ok h s') (consumer_transfer_processes s')"
  shows "conn_invar h s'"
proof -
  have "all_rows c_ConsumerPID (consumer_ok h s') (consumer_negotiations s)"
    "all_rows a_AgreementID (agreement_ok s') (agreements s)"
    "all_rows t_ProviderPID (transfer_ok h s') (transfer_processes s)"
    "all_rows ct_ConsumerPID (consumer_transfer_ok h s') (consumer_transfer_processes s)"
    using assms(1) unfolding conn_invar_def
    by (auto elim!: all_rows_mono
        intro: agreement_ok_later [OF _ assms(2)] consumer_ok_later [OF _ assms(2)]
          transfer_ok_later [OF _ assms(2)] consumer_transfer_ok_later [OF _ assms(2)])
  then show ?thesis using assms unfolding conn_invar_def by metis
qed

section \<open>One table written\<close>

text \<open>When a write to one table keeps the promise, table by table.\<close>

lemma acts_negotiations:
  assumes inv: "conn_invar h (db w)"
    and "rows_evolve n_ProviderPID negotiation_step (negotiations (db w)) rows"
    and "distinct (map n_ProviderPID rows)" and "all_rows n_ProviderPID negotiation_ok rows"
    and "AuthRequired (h_cfg h) \<Longrightarrow> filter (\<lambda>r. n_CounterpartyID r \<noteq> p) rows =
      filter (\<lambda>r. n_CounterpartyID r \<noteq> p) (negotiations (db w))"
  shows "acts_for h p w (w\<lparr>db := (db w)\<lparr>negotiations := rows\<rparr>\<rparr>)"
proof -
  have "evolves (db w) ((db w)\<lparr>negotiations := rows\<rparr>)"
    using assms(2) by (simp add: evolves_def rows_evolve_refl)
  moreover from this have "conn_invar h ((db w)\<lparr>negotiations := rows\<rparr>)"
    by (rule conn_invar_evolves [OF inv])
      (use assms(3,4) conn_invarD(1) [OF inv] in \<open>simp_all add: store_wf_def\<close>)
  ultimately show ?thesis using assms(5) by (simp add: acts_for_def rely_def only_touches_def)
qed

lemma acts_consumers:
  assumes inv: "conn_invar h (db w)"
    and "rows_evolve c_ConsumerPID consumer_step (consumer_negotiations (db w)) rows"
    and "distinct (map c_ConsumerPID rows)" and "all_rows c_ConsumerPID (consumer_ok h (db w)) rows"
    and "AuthRequired (h_cfg h) \<Longrightarrow> filter (\<lambda>r. c_CounterpartyID r \<noteq> p) rows =
      filter (\<lambda>r. c_CounterpartyID r \<noteq> p) (consumer_negotiations (db w))"
  shows "acts_for h p w (w\<lparr>db := (db w)\<lparr>consumer_negotiations := rows\<rparr>\<rparr>)"
proof -
  have ev: "evolves (db w) ((db w)\<lparr>consumer_negotiations := rows\<rparr>)"
    using assms(2) by (simp add: evolves_def rows_evolve_refl)
  have ok: "all_rows c_ConsumerPID (consumer_ok h ((db w)\<lparr>consumer_negotiations := rows\<rparr>)) rows"
    by (rule all_rows_mono [OF assms(4)]) (rule consumer_ok_later [OF _ ev])
  from ev have "conn_invar h ((db w)\<lparr>consumer_negotiations := rows\<rparr>)"
    by (rule conn_invar_evolves [OF inv])
      (use assms(3) ok conn_invarD(1) [OF inv] in \<open>simp_all add: store_wf_def\<close>)
  with ev show ?thesis using assms(5) by (simp add: acts_for_def rely_def only_touches_def)
qed

lemma acts_agreements:
  assumes inv: "conn_invar h (db w)"
    and "rows_evolve a_AgreementID (=) (agreements (db w)) rows"
    and "distinct (map a_AgreementID rows)" and "all_rows a_AgreementID (agreement_ok (db w)) rows"
    and "AuthRequired (h_cfg h) \<Longrightarrow> filter (\<lambda>r. a_CounterpartyID r \<noteq> p) rows =
      filter (\<lambda>r. a_CounterpartyID r \<noteq> p) (agreements (db w))"
  shows "acts_for h p w (w\<lparr>db := (db w)\<lparr>agreements := rows\<rparr>\<rparr>)"
proof -
  have ev: "evolves (db w) ((db w)\<lparr>agreements := rows\<rparr>)"
    using assms(2) by (simp add: evolves_def rows_evolve_refl)
  have ok: "all_rows a_AgreementID (agreement_ok ((db w)\<lparr>agreements := rows\<rparr>)) rows"
    by (rule all_rows_mono [OF assms(4)]) (rule agreement_ok_later [OF _ ev])
  from ev have "conn_invar h ((db w)\<lparr>agreements := rows\<rparr>)"
    by (rule conn_invar_evolves [OF inv])
      (use assms(3) ok conn_invarD(1) [OF inv] in \<open>simp_all add: store_wf_def\<close>)
  with ev show ?thesis using assms(5) by (simp add: acts_for_def rely_def only_touches_def)
qed

lemma acts_transfers:
  assumes inv: "conn_invar h (db w)"
    and "rows_evolve t_ProviderPID transfer_step (transfer_processes (db w)) rows"
    and "distinct (map t_ProviderPID rows)" and "all_rows t_ProviderPID (transfer_ok h (db w)) rows"
    and "AuthRequired (h_cfg h) \<Longrightarrow> filter (\<lambda>r. t_CounterpartyID r \<noteq> p) rows =
      filter (\<lambda>r. t_CounterpartyID r \<noteq> p) (transfer_processes (db w))"
  shows "acts_for h p w (w\<lparr>db := (db w)\<lparr>transfer_processes := rows\<rparr>\<rparr>)"
proof -
  have ev: "evolves (db w) ((db w)\<lparr>transfer_processes := rows\<rparr>)"
    using assms(2) by (simp add: evolves_def rows_evolve_refl)
  have ok: "all_rows t_ProviderPID (transfer_ok h ((db w)\<lparr>transfer_processes := rows\<rparr>)) rows"
    by (rule all_rows_mono [OF assms(4)]) (rule transfer_ok_later [OF _ ev])
  from ev have "conn_invar h ((db w)\<lparr>transfer_processes := rows\<rparr>)"
    by (rule conn_invar_evolves [OF inv])
      (use assms(3) ok conn_invarD(1) [OF inv] in \<open>simp_all add: store_wf_def\<close>)
  with ev show ?thesis using assms(5) by (simp add: acts_for_def rely_def only_touches_def)
qed

lemma acts_consumer_transfers:
  assumes inv: "conn_invar h (db w)"
    and "rows_evolve ct_ConsumerPID consumer_transfer_step (consumer_transfer_processes (db w)) rows"
    and "distinct (map ct_ConsumerPID rows)"
    and "all_rows ct_ConsumerPID (consumer_transfer_ok h (db w)) rows"
    and "AuthRequired (h_cfg h) \<Longrightarrow> filter (\<lambda>r. ct_CounterpartyID r \<noteq> p) rows =
      filter (\<lambda>r. ct_CounterpartyID r \<noteq> p) (consumer_transfer_processes (db w))"
  shows "acts_for h p w (w\<lparr>db := (db w)\<lparr>consumer_transfer_processes := rows\<rparr>\<rparr>)"
proof -
  have ev: "evolves (db w) ((db w)\<lparr>consumer_transfer_processes := rows\<rparr>)"
    using assms(2) by (simp add: evolves_def rows_evolve_refl)
  have ok: "all_rows ct_ConsumerPID (consumer_transfer_ok h ((db w)\<lparr>consumer_transfer_processes := rows\<rparr>)) rows"
    by (rule all_rows_mono [OF assms(4)]) (rule consumer_transfer_ok_later [OF _ ev])
  from ev have "conn_invar h ((db w)\<lparr>consumer_transfer_processes := rows\<rparr>)"
    by (rule conn_invar_evolves [OF inv])
      (use assms(3) ok conn_invarD(1) [OF inv] in \<open>simp_all add: store_wf_def\<close>)
  with ev show ?thesis using assms(5) by (simp add: acts_for_def rely_def only_touches_def)
qed

text \<open>What the driver does with the outcome cannot break it either.\<close>

lemma acts_driver:
  "conn_invar h (db w) \<Longrightarrow> acts_for h p w (w\<lparr>db := snd out\<rparr>) \<Longrightarrow>
     acts_for h p w (w\<lparr>db := snd (driver i out (db w))\<rparr>)"
  by (cases i) (simp_all add: acts_for_refl)

end
