(* ===== verification/Statements.thy ===== *)
theory Statements
  imports Guarantee
begin

text \<open>
  For each statement the handlers issue, the conditions under which it keeps the promise of
  \<open>Guarantee\<close> and what the handler knows afterwards, as a rule of \<open>safe\<close>.  A handler knows a
  record by the columns nothing rewrites (\<open>known_negotiation\<close> and its companions), which is what
  survives the steps of the other programs.
\<close>

section \<open>What a handler knows of a record\<close>

definition known_negotiation :: "Negotiation \<Rightarrow> store \<Rightarrow> bool" where
  "known_negotiation n s \<longleftrightarrow>
     (\<exists>n'. find_negotiation (n_ProviderPID n) s = Some n' \<and> same_negotiation n n')"

definition known_consumer :: "ConsumerNegotiation \<Rightarrow> store \<Rightarrow> bool" where
  "known_consumer c s \<longleftrightarrow> (\<exists>c'. find_consumer (c_ConsumerPID c) s = Some c' \<and> same_consumer c c')"

definition known_transfer :: "TransferProcess \<Rightarrow> store \<Rightarrow> bool" where
  "known_transfer t s \<longleftrightarrow> (\<exists>t'. find_transfer (t_ProviderPID t) s = Some t' \<and> same_transfer t t')"

definition known_consumer_transfer :: "string \<Rightarrow> string \<Rightarrow> store \<Rightarrow> bool" where
  "known_consumer_transfer pid cp s \<longleftrightarrow>
     (\<exists>u. find_consumer_transfer pid s = Some u \<and> ct_CounterpartyID u = cp)"

definition accepted_agreement :: "ConsumerNegotiation \<Rightarrow> store \<Rightarrow> bool" where
  "accepted_agreement c s \<longleftrightarrow> (\<exists>k a. find_agreement k s = Some a \<and> a_Origin a = OriginAgreed \<and>
     a_ConsumerPID a = c_ConsumerPID c \<and> a_CounterpartyID a = c_CounterpartyID c)"

lemma known_State [simp]:
  "known_negotiation (n\<lparr>n_State := st\<rparr>) s = known_negotiation n s"
  "known_consumer (c\<lparr>c_State := st\<rparr>) s = known_consumer c s"
  "known_consumer (c\<lparr>c_ProviderPID := x\<rparr>) s = known_consumer c s"
  "known_transfer (t\<lparr>t_State := st\<rparr>) s = known_transfer t s"
  by (simp_all add: known_negotiation_def same_negotiation_def known_consumer_def same_consumer_def
      known_transfer_def same_transfer_def)

lemma known_found:
  "find_negotiation k s = Some n \<Longrightarrow> known_negotiation n s"
  "find_consumer k s = Some c \<Longrightarrow> known_consumer c s"
  "find_transfer k s = Some t \<Longrightarrow> known_transfer t s"
  "find_consumer_transfer k s = Some u \<Longrightarrow> known_consumer_transfer k (ct_CounterpartyID u) s"
  using select_row_key [of n_ProviderPID k "negotiations s" n]
    select_row_key [of c_ConsumerPID k "consumer_negotiations s" c]
    select_row_key [of t_ProviderPID k "transfer_processes s" t]
  by (simp_all add: known_negotiation_def known_consumer_def known_transfer_def
      known_consumer_transfer_def)

lemma known_negotiation_later:
  "rely h w w' \<Longrightarrow> known_negotiation n (db w) \<Longrightarrow> known_negotiation n (db w')"
  by (fastforce simp: rely_def known_negotiation_def negotiation_step_def same_negotiation_def
      dest: evolvesD(1))

lemma known_consumer_later: "rely h w w' \<Longrightarrow> known_consumer c (db w) \<Longrightarrow> known_consumer c (db w')"
  by (fastforce simp: rely_def known_consumer_def consumer_step_def same_consumer_def
      dest: evolvesD(2))

lemma known_transfer_later: "rely h w w' \<Longrightarrow> known_transfer t (db w) \<Longrightarrow> known_transfer t (db w')"
  by (fastforce simp: rely_def known_transfer_def transfer_step_def same_transfer_def
      dest: evolvesD(4))

lemma known_consumer_transfer_later:
  "rely h w w' \<Longrightarrow> known_consumer_transfer k p (db w) \<Longrightarrow> known_consumer_transfer k p (db w')"
  by (fastforce simp: rely_def known_consumer_transfer_def consumer_transfer_step_def
      same_consumer_transfer_def dest: evolvesD(5))

lemma find_agreement_later:
  "rely h w w' \<Longrightarrow> find_agreement k (db w) = Some a \<Longrightarrow> find_agreement k (db w') = Some a"
  by (auto simp: rely_def dest: evolvesD(3))

lemma accepted_agreement_later:
  "rely h w w' \<Longrightarrow> accepted_agreement c (db w) \<Longrightarrow> accepted_agreement c (db w')"
  by (auto simp: rely_def accepted_agreement_def dest: evolvesD(3))

lemmas known_later = known_negotiation_later known_consumer_later known_transfer_later
  known_consumer_transfer_later find_agreement_later accepted_agreement_later

lemma safe_query_acts:
  assumes "\<And>w'. rely h w w' \<Longrightarrow> conn_invar h (db w') \<Longrightarrow> safe (rely h) (acts_for h p) (k (Inl ErrDriver)) w'"
    and "\<And>w'. rely h w w' \<Longrightarrow> conn_invar h (db w') \<Longrightarrow> safe (rely h) (acts_for h p) (k (Inr (f (db w')))) w'"
  shows "safe (rely h) (acts_for h p) (call (query f) k) w"
  by (rule conn.safe_query) (use assms acts_for_refl in auto)

lemma safe_call_acts:
  assumes "\<And>w' i. rely h w w' \<Longrightarrow> conn_invar h (db w') \<Longrightarrow>
      acts_for h p w' (w'\<lparr>db := snd (f i (db w'))\<rparr>)"
    and "\<And>w' i. rely h w w' \<Longrightarrow> conn_invar h (db w') \<Longrightarrow>
      rely h w (w'\<lparr>db := snd (f i (db w'))\<rparr>) \<Longrightarrow>
      safe (rely h) (acts_for h p) (k (fst (f i (db w')))) (w'\<lparr>db := snd (f i (db w'))\<rparr>)"
  shows "safe (rely h) (acts_for h p) (call f k) w"
  by (rule conn.safe_call) (use assms acts_for_rely in \<open>auto simp: rely_def\<close>)

section \<open>Insertions and updates of each table\<close>

lemma acts_insert_negotiation:
  assumes "conn_invar h (db w)" and "insert_row n_ProviderPID r (negotiations (db w)) = Some rows"
    and "negotiation_ok r" and "AuthRequired (h_cfg h) \<Longrightarrow> n_CounterpartyID r = p"
  shows "acts_for h p w (w\<lparr>db := (db w)\<lparr>negotiations := rows\<rparr>\<rparr>)"
  using assms(2-) assms(1) conn_invarD(1) [OF assms(1)]
  by (intro acts_negotiations)
    (auto simp: conn_invar_def intro: rows_evolve_insert distinct_insert_row store_wfD
      all_rows_insert filter_insert_row)

lemma acts_update_negotiation:
  assumes inv: "conn_invar h (db w)" and up: "update_where n_ProviderPID k C f (negotiations (db w)) = Some rows"
    and key: "\<And>r. n_ProviderPID (f r) = n_ProviderPID r" and cp: "\<And>r. n_CounterpartyID (f r) = n_CounterpartyID r"
    and step: "\<And>r. select_row n_ProviderPID k (negotiations (db w)) = Some r \<Longrightarrow> C r \<Longrightarrow>
      negotiation_step r (f r) \<and> negotiation_ok (f r) \<and> (AuthRequired (h_cfg h) \<longrightarrow> n_CounterpartyID r = p)"
  shows "acts_for h p w (w\<lparr>db := (db w)\<lparr>negotiations := rows\<rparr>\<rparr>)"
proof -
  have wf: "distinct (map n_ProviderPID (negotiations (db w)))"
    using conn_invarD(1) [OF inv] by (rule store_wfD)
  have rows: "rows = update_rows n_ProviderPID k C f (negotiations (db w))"
    using up update_where_Some [OF wf] by blast
  have ok: "all_rows n_ProviderPID (negotiation_ok) (negotiations (db w))"
    using inv by (simp add: conn_invar_def)
  show ?thesis
    unfolding rows
    by (rule acts_negotiations [OF inv])
      (use wf ok in \<open>auto intro!: rows_evolve_update all_rows_update filter_update_rows
        simp: keys_update_rows key cp step\<close>)
qed

lemma acts_insert_consumer:
  assumes "conn_invar h (db w)" and "insert_row c_ConsumerPID r (consumer_negotiations (db w)) = Some rows"
    and "consumer_ok h (db w) r" and "AuthRequired (h_cfg h) \<Longrightarrow> c_CounterpartyID r = p"
  shows "acts_for h p w (w\<lparr>db := (db w)\<lparr>consumer_negotiations := rows\<rparr>\<rparr>)"
  using assms(2-) assms(1) conn_invarD(1) [OF assms(1)]
  by (intro acts_consumers)
    (auto simp: conn_invar_def intro: rows_evolve_insert distinct_insert_row store_wfD
      all_rows_insert filter_insert_row)

lemma acts_update_consumer:
  assumes inv: "conn_invar h (db w)" and up: "update_where c_ConsumerPID k C f (consumer_negotiations (db w)) = Some rows"
    and key: "\<And>r. c_ConsumerPID (f r) = c_ConsumerPID r" and cp: "\<And>r. c_CounterpartyID (f r) = c_CounterpartyID r"
    and step: "\<And>r. select_row c_ConsumerPID k (consumer_negotiations (db w)) = Some r \<Longrightarrow> C r \<Longrightarrow>
      consumer_step r (f r) \<and> consumer_ok h (db w) (f r) \<and> (AuthRequired (h_cfg h) \<longrightarrow> c_CounterpartyID r = p)"
  shows "acts_for h p w (w\<lparr>db := (db w)\<lparr>consumer_negotiations := rows\<rparr>\<rparr>)"
proof -
  have wf: "distinct (map c_ConsumerPID (consumer_negotiations (db w)))"
    using conn_invarD(1) [OF inv] by (rule store_wfD)
  have rows: "rows = update_rows c_ConsumerPID k C f (consumer_negotiations (db w))"
    using up update_where_Some [OF wf] by blast
  have ok: "all_rows c_ConsumerPID (consumer_ok h (db w)) (consumer_negotiations (db w))"
    using inv by (simp add: conn_invar_def)
  show ?thesis
    unfolding rows
    by (rule acts_consumers [OF inv])
      (use wf ok in \<open>auto intro!: rows_evolve_update all_rows_update filter_update_rows
        simp: keys_update_rows key cp step\<close>)
qed

lemma acts_insert_agreement:
  assumes "conn_invar h (db w)" and "insert_row a_AgreementID r (agreements (db w)) = Some rows"
    and "agreement_ok (db w) r" and "AuthRequired (h_cfg h) \<Longrightarrow> a_CounterpartyID r = p"
  shows "acts_for h p w (w\<lparr>db := (db w)\<lparr>agreements := rows\<rparr>\<rparr>)"
  using assms(2-) assms(1) conn_invarD(1) [OF assms(1)]
  by (intro acts_agreements)
    (auto simp: conn_invar_def intro: rows_evolve_insert distinct_insert_row store_wfD
      all_rows_insert filter_insert_row)

lemma acts_insert_transfer:
  assumes "conn_invar h (db w)" and "insert_row t_ProviderPID r (transfer_processes (db w)) = Some rows"
    and "transfer_ok h (db w) r" and "AuthRequired (h_cfg h) \<Longrightarrow> t_CounterpartyID r = p"
  shows "acts_for h p w (w\<lparr>db := (db w)\<lparr>transfer_processes := rows\<rparr>\<rparr>)"
  using assms(2-) assms(1) conn_invarD(1) [OF assms(1)]
  by (intro acts_transfers)
    (auto simp: conn_invar_def intro: rows_evolve_insert distinct_insert_row store_wfD
      all_rows_insert filter_insert_row)

lemma acts_update_transfer:
  assumes inv: "conn_invar h (db w)" and up: "update_where t_ProviderPID k C f (transfer_processes (db w)) = Some rows"
    and key: "\<And>r. t_ProviderPID (f r) = t_ProviderPID r" and cp: "\<And>r. t_CounterpartyID (f r) = t_CounterpartyID r"
    and step: "\<And>r. select_row t_ProviderPID k (transfer_processes (db w)) = Some r \<Longrightarrow> C r \<Longrightarrow>
      transfer_step r (f r) \<and> transfer_ok h (db w) (f r) \<and> (AuthRequired (h_cfg h) \<longrightarrow> t_CounterpartyID r = p)"
  shows "acts_for h p w (w\<lparr>db := (db w)\<lparr>transfer_processes := rows\<rparr>\<rparr>)"
proof -
  have wf: "distinct (map t_ProviderPID (transfer_processes (db w)))"
    using conn_invarD(1) [OF inv] by (rule store_wfD)
  have rows: "rows = update_rows t_ProviderPID k C f (transfer_processes (db w))"
    using up update_where_Some [OF wf] by blast
  have ok: "all_rows t_ProviderPID (transfer_ok h (db w)) (transfer_processes (db w))"
    using inv by (simp add: conn_invar_def)
  show ?thesis
    unfolding rows
    by (rule acts_transfers [OF inv])
      (use wf ok in \<open>auto intro!: rows_evolve_update all_rows_update filter_update_rows
        simp: keys_update_rows key cp step\<close>)
qed

lemma acts_insert_consumer_transfer:
  assumes "conn_invar h (db w)" and "insert_row ct_ConsumerPID r (consumer_transfer_processes (db w)) = Some rows"
    and "consumer_transfer_ok h (db w) r" and "AuthRequired (h_cfg h) \<Longrightarrow> ct_CounterpartyID r = p"
  shows "acts_for h p w (w\<lparr>db := (db w)\<lparr>consumer_transfer_processes := rows\<rparr>\<rparr>)"
  using assms(2-) assms(1) conn_invarD(1) [OF assms(1)]
  by (intro acts_consumer_transfers)
    (auto simp: conn_invar_def intro: rows_evolve_insert distinct_insert_row store_wfD
      all_rows_insert filter_insert_row)

lemma acts_update_consumer_transfer:
  assumes inv: "conn_invar h (db w)" and up: "update_where ct_ConsumerPID k C f (consumer_transfer_processes (db w)) = Some rows"
    and key: "\<And>r. ct_ConsumerPID (f r) = ct_ConsumerPID r" and cp: "\<And>r. ct_CounterpartyID (f r) = ct_CounterpartyID r"
    and step: "\<And>r. select_row ct_ConsumerPID k (consumer_transfer_processes (db w)) = Some r \<Longrightarrow> C r \<Longrightarrow>
      consumer_transfer_step r (f r) \<and> consumer_transfer_ok h (db w) (f r) \<and> (AuthRequired (h_cfg h) \<longrightarrow> ct_CounterpartyID r = p)"
  shows "acts_for h p w (w\<lparr>db := (db w)\<lparr>consumer_transfer_processes := rows\<rparr>\<rparr>)"
proof -
  have wf: "distinct (map ct_ConsumerPID (consumer_transfer_processes (db w)))"
    using conn_invarD(1) [OF inv] by (rule store_wfD)
  have rows: "rows = update_rows ct_ConsumerPID k C f (consumer_transfer_processes (db w))"
    using up update_where_Some [OF wf] by blast
  have ok: "all_rows ct_ConsumerPID (consumer_transfer_ok h (db w)) (consumer_transfer_processes (db w))"
    using inv by (simp add: conn_invar_def)
  show ?thesis
    unfolding rows
    by (rule acts_consumer_transfers [OF inv])
      (use wf ok in \<open>auto intro!: rows_evolve_update all_rows_update filter_update_rows
        simp: keys_update_rows key cp step\<close>)
qed

section \<open>Rules of safe: negotiations, provider role\<close>

lemma safe_Get:
  assumes "\<And>w'. rely h w w' \<Longrightarrow> safe (rely h) (acts_for h p) (k (Inl ErrDriver)) w'"
    and "\<And>w'. rely h w w' \<Longrightarrow> safe (rely h) (acts_for h p) (k (Inr None)) w'"
    and "\<And>w' n. rely h w w' \<Longrightarrow> find_negotiation pid (db w') = Some n \<Longrightarrow> negotiation_ok n \<Longrightarrow>
      known_negotiation n (db w') \<Longrightarrow> n_ProviderPID n = pid \<Longrightarrow>
      safe (rely h) (acts_for h p) (k (Inr (Some n))) w'"
  shows "safe (rely h) (acts_for h p) (call (Get pid) k) w"
  unfolding Get_def
proof (rule safe_query_acts)
  fix w'
  assume w': "rely h w w'" "conn_invar h (db w')"
  then show "safe (rely h) (acts_for h p) (k (Inr (find_negotiation pid (db w')))) w'"
    using assms conn_invarD(2) [OF w'(2)] known_found(1) select_row_key [of n_ProviderPID]
    by (cases "find_negotiation pid (db w')") (simp, simp, blast)
qed (use assms in blast)

lemma safe_Create:
  assumes "negotiation_ok n" and "AuthRequired (h_cfg h) \<Longrightarrow> n_CounterpartyID n = p"
    and "\<And>w' e. rely h w w' \<Longrightarrow> safe (rely h) (acts_for h p) (k (Inl e)) w'"
    and "\<And>w'. rely h w w' \<Longrightarrow> known_negotiation n (db w') \<Longrightarrow>
      safe (rely h) (acts_for h p) (k (Inr ())) w'"
  shows "safe (rely h) (acts_for h p) (call (Create n) k) w"
proof (rule safe_call_acts)
  fix w' i
  assume w': "rely h w w'" "conn_invar h (db w')"
  then show "acts_for h p w' (w'\<lparr>db := snd (Create n i (db w'))\<rparr>)"
    unfolding Create_def using assms(1,2)
    by (intro acts_driver) (auto intro: acts_for_refl acts_insert_negotiation split: option.splits)
  assume r: "rely h w (w'\<lparr>db := snd (Create n i (db w'))\<rparr>)"
  show "safe (rely h) (acts_for h p) (k (fst (Create n i (db w'))))
      (w'\<lparr>db := snd (Create n i (db w'))\<rparr>)"
  proof (cases "fst (Create n i (db w'))")
    case (Inl e)
    then show ?thesis using assms(3) r by simp
  next
    case (Inr u)
    then have "i = IoOk"
      by (cases i) (auto simp: Create_def)
    with Inr have "find_negotiation (n_ProviderPID n) (snd (Create n i (db w'))) = Some n"
      by (auto simp: Create_def select_row_insert split: option.splits)
    then show ?thesis using assms(4) r Inr by (simp add: known_found)
  qed
qed

lemma acts_SetState:
  assumes "conn_invar h (db w)" and known: "known_negotiation n (db w)" and "pid = n_ProviderPID n"
    and "AuthRequired (h_cfg h) \<Longrightarrow> n_CounterpartyID n = p" and "negotiation_edge st to"
    and "to \<in> {StateOffered, StateAccepted} \<Longrightarrow> n_OfferID n \<noteq> n_DatasetID n @ offerIDSuffix"
  shows "acts_for h p w (w\<lparr>db := snd (SetState pid st to t i (db w))\<rparr>)"
proof -
  obtain n' where n': "find_negotiation pid (db w) = Some n'" "same_negotiation n n'"
    using known assms(3) by (auto simp: known_negotiation_def)
  have "acts_for h p w (w\<lparr>db := (db w)\<lparr>negotiations := rows\<rparr>\<rparr>)"
    if "update_where n_ProviderPID pid (\<lambda>r. n_State r = st)
      (\<lambda>r. r\<lparr>n_State := to, n_UpdatedAt := t\<rparr>) (negotiations (db w)) = Some rows" for rows
    using assms(1) that
  proof (rule acts_update_negotiation)
    fix r
    assume "find_negotiation pid (db w) = Some r" "n_State r = st"
    then show "negotiation_step r (r\<lparr>n_State := to, n_UpdatedAt := t\<rparr>) \<and>
        negotiation_ok (r\<lparr>n_State := to, n_UpdatedAt := t\<rparr>) \<and>
        (AuthRequired (h_cfg h) \<longrightarrow> n_CounterpartyID r = p)"
      using n' assms(4-6) negotiation_edge_states [OF assms(5)]
      by (auto simp: negotiation_step_def same_negotiation_def negotiation_ok_def)
  qed simp_all
  then show ?thesis
    unfolding SetState_def using assms(1)
    by (intro acts_driver) (auto intro: acts_for_refl split: option.splits)
qed

lemma safe_SetState:
  assumes "known_negotiation n (db w)" and "pid = n_ProviderPID n"
    and "AuthRequired (h_cfg h) \<Longrightarrow> n_CounterpartyID n = p" and "negotiation_edge st to"
    and "to \<in> {StateOffered, StateAccepted} \<Longrightarrow> n_OfferID n \<noteq> n_DatasetID n @ offerIDSuffix"
    and cont: "\<And>w' e. rely h w w' \<Longrightarrow> known_negotiation n (db w') \<Longrightarrow>
      safe (rely h) (acts_for h p) (k e) w'"
  shows "safe (rely h) (acts_for h p) (call (SetState pid st to t) k) w"
proof (rule safe_call_acts)
  show "acts_for h p w' (w'\<lparr>db := snd (SetState pid st to t i (db w'))\<rparr>)"
    if "rely h w w'" and "conn_invar h (db w')" for w' i
    using assms(2-5) that known_negotiation_later [OF that(1) assms(1)] by (blast intro: acts_SetState)
qed (rule cont, assumption, rule known_negotiation_later [OF _ assms(1)])

lemma safe_SetRerequested:
  assumes "known_negotiation n (db w)" and "pid = n_ProviderPID n"
    and "AuthRequired (h_cfg h) \<Longrightarrow> n_CounterpartyID n = p"
    and cont: "\<And>w' e. rely h w w' \<Longrightarrow> known_negotiation n (db w') \<Longrightarrow>
      safe (rely h) (acts_for h p) (k e) w'"
  shows "safe (rely h) (acts_for h p) (call (SetRerequested pid) k) w"
proof (rule safe_call_acts)
  fix w' i
  assume w': "rely h w w'" "conn_invar h (db w')"
  obtain n' where n': "find_negotiation pid (db w') = Some n'" "same_negotiation n n'"
    using known_negotiation_later [OF w'(1) assms(1)] assms(2) by (auto simp: known_negotiation_def)
  have "acts_for h p w' (w'\<lparr>db := (db w')\<lparr>negotiations := rows\<rparr>\<rparr>)"
    if "update_where n_ProviderPID pid (\<lambda>r. \<not> n_Rerequested r)
      (\<lambda>r. r\<lparr>n_Rerequested := True\<rparr>) (negotiations (db w')) = Some rows" for rows
    using w'(2) that
    by (rule acts_update_negotiation)
      (use n' assms(3) conn_invarD(2) [OF w'(2) n'(1)] in
        \<open>auto simp: negotiation_step_def same_negotiation_def negotiation_ok_def\<close>)
  then show "acts_for h p w' (w'\<lparr>db := snd (SetRerequested pid i (db w'))\<rparr>)"
    unfolding SetRerequested_def using w'(2)
    by (intro acts_driver) (auto intro: acts_for_refl split: option.splits)
qed (rule cont, assumption, rule known_negotiation_later [OF _ assms(1)])

section \<open>Rules of safe: agreements\<close>

lemma safe_GetAgreement:
  assumes "\<And>w'. rely h w w' \<Longrightarrow> safe (rely h) (acts_for h p) (k (Inl ErrDriver)) w'"
    and "\<And>w'. rely h w w' \<Longrightarrow> safe (rely h) (acts_for h p) (k (Inr None)) w'"
    and "\<And>w' a. rely h w w' \<Longrightarrow> find_agreement aid (db w') = Some a \<Longrightarrow>
      safe (rely h) (acts_for h p) (k (Inr (Some a))) w'"
  shows "safe (rely h) (acts_for h p) (call (GetAgreement aid) k) w"
  unfolding GetAgreement_def
proof (rule safe_query_acts)
  fix w'
  assume "rely h w w'"
  then show "safe (rely h) (acts_for h p) (k (Inr (find_agreement aid (db w')))) w'"
    using assms by (cases "find_agreement aid (db w')") auto
qed (use assms in blast)

lemma safe_CreateAgreement:
  assumes "known_consumer c (db w)" and "a_Origin a = OriginAgreed"
    and "a_ConsumerPID a = c_ConsumerPID c" and "a_CounterpartyID a = c_CounterpartyID c"
    and "AuthRequired (h_cfg h) \<Longrightarrow> c_CounterpartyID c = p"
    and "\<And>w' e. rely h w w' \<Longrightarrow> safe (rely h) (acts_for h p) (k (Inl e)) w'"
    and "\<And>w'. rely h w w' \<Longrightarrow> known_consumer c (db w') \<Longrightarrow> accepted_agreement c (db w') \<Longrightarrow>
      safe (rely h) (acts_for h p) (k (Inr ())) w'"
  shows "safe (rely h) (acts_for h p) (call (CreateAgreement a) k) w"
proof (rule safe_call_acts)
  fix w' i
  assume w': "rely h w w'" "conn_invar h (db w')"
  have "agreement_ok (db w') a"
    using known_consumer_later [OF w'(1) assms(1)] assms(2-4)
    by (auto simp: agreement_ok_def known_consumer_def same_consumer_def OriginAgreed_def
        OriginNegotiated_def)
  then show "acts_for h p w' (w'\<lparr>db := snd (CreateAgreement a i (db w'))\<rparr>)"
    unfolding CreateAgreement_def using assms(4,5) w'(2)
    by (intro acts_driver) (auto intro: acts_for_refl acts_insert_agreement split: option.splits)
  assume r: "rely h w (w'\<lparr>db := snd (CreateAgreement a i (db w'))\<rparr>)"
  show "safe (rely h) (acts_for h p) (k (fst (CreateAgreement a i (db w'))))
      (w'\<lparr>db := snd (CreateAgreement a i (db w'))\<rparr>)"
  proof (cases "fst (CreateAgreement a i (db w'))")
    case (Inl e)
    then show ?thesis using assms(6) r by simp
  next
    case (Inr u)
    then have "i = IoOk"
      by (cases i) (auto simp: CreateAgreement_def)
    with Inr have "find_agreement (a_AgreementID a) (snd (CreateAgreement a i (db w'))) = Some a"
      by (auto simp: CreateAgreement_def select_row_insert split: option.splits)
    then have "accepted_agreement c (snd (CreateAgreement a i (db w')))"
      using assms(2-4) by (auto simp: accepted_agreement_def)
    then show ?thesis using assms(7) r Inr known_consumer_later [OF r assms(1)] by simp
  qed
qed

lemma safe_CreateAgreementIfNegotiationAgreed:
  assumes "known_negotiation n (db w)" and "pid = n_ProviderPID n"
    and "AuthRequired (h_cfg h) \<Longrightarrow> n_CounterpartyID n = p"
    and "\<And>st. st \<in> set allowed \<Longrightarrow> agreement_issued st"
    and "a_AgreementID a = pid" and "a_DatasetID a = n_DatasetID n"
    and "a_ConsumerPID a = n_ConsumerPID n" and "a_Origin a = OriginNegotiated"
    and "a_CounterpartyID a = n_CounterpartyID n"
    and cont: "\<And>w' e. rely h w w' \<Longrightarrow> known_negotiation n (db w') \<Longrightarrow>
      safe (rely h) (acts_for h p) (k e) w'"
  shows "safe (rely h) (acts_for h p)
    (call (CreateAgreementIfNegotiationAgreed pid allowed a) k) w"
proof (rule safe_call_acts)
  fix w' i
  assume w': "rely h w w'" "conn_invar h (db w')"
  obtain n' where n': "find_negotiation pid (db w') = Some n'" "same_negotiation n n'"
    using known_negotiation_later [OF w'(1) assms(1)] assms(2) by (auto simp: known_negotiation_def)
  have "agreement_ok (db w') a" if "n_State n' \<in> set allowed"
    using n' assms(4-9) that
    by (auto simp: agreement_ok_def same_negotiation_def OriginAgreed_def OriginNegotiated_def)
  then show "acts_for h p w' (w'\<lparr>db := snd (CreateAgreementIfNegotiationAgreed pid allowed a i (db w'))\<rparr>)"
    unfolding CreateAgreementIfNegotiationAgreed_def using assms(3,9) w'(2) n'
    by (intro acts_driver) (auto intro: acts_for_refl acts_insert_agreement split: option.splits)
qed (rule cont, assumption, rule known_negotiation_later [OF _ assms(1)])

section \<open>Rules of safe: negotiations, consumer role\<close>

lemma safe_GetConsumer:
  assumes "\<And>w'. rely h w w' \<Longrightarrow> safe (rely h) (acts_for h p) (k (Inl ErrDriver)) w'"
    and "\<And>w'. rely h w w' \<Longrightarrow> safe (rely h) (acts_for h p) (k (Inr None)) w'"
    and "\<And>w' r. rely h w w' \<Longrightarrow> find_consumer pid (db w') = Some r \<Longrightarrow> consumer_ok h (db w') r \<Longrightarrow>
      known_consumer r (db w') \<Longrightarrow> c_ConsumerPID r = pid \<Longrightarrow>
      safe (rely h) (acts_for h p) (k (Inr (Some r))) w'"
  shows "safe (rely h) (acts_for h p) (call (GetConsumer pid) k) w"
  unfolding GetConsumer_def
proof (rule safe_query_acts)
  fix w'
  assume w': "rely h w w'" "conn_invar h (db w')"
  then show "safe (rely h) (acts_for h p) (k (Inr (find_consumer pid (db w')))) w'"
    using assms conn_invarD(3) [OF w'(2)] known_found(2) select_row_key [of c_ConsumerPID]
    by (cases "find_consumer pid (db w')") (simp, simp, blast)
qed (use assms in blast)

lemma safe_CreateConsumer:
  assumes "consumer_ok h (db w) n" and "AuthRequired (h_cfg h) \<Longrightarrow> c_CounterpartyID n = p"
    and "\<And>w' e. rely h w w' \<Longrightarrow> safe (rely h) (acts_for h p) (k (Inl e)) w'"
    and "\<And>w'. rely h w w' \<Longrightarrow> known_consumer n (db w') \<Longrightarrow>
      safe (rely h) (acts_for h p) (k (Inr ())) w'"
  shows "safe (rely h) (acts_for h p) (call (CreateConsumer n) k) w"
proof (rule safe_call_acts)
  fix w' i
  assume w': "rely h w w'" "conn_invar h (db w')"
  have "consumer_ok h (db w') n"
    using assms(1) w'(1) by (auto simp: rely_def intro: consumer_ok_later)
  then show "acts_for h p w' (w'\<lparr>db := snd (CreateConsumer n i (db w'))\<rparr>)"
    unfolding CreateConsumer_def using assms(2) w'(2)
    by (intro acts_driver) (auto intro: acts_for_refl acts_insert_consumer split: option.splits)
  assume r: "rely h w (w'\<lparr>db := snd (CreateConsumer n i (db w'))\<rparr>)"
  show "safe (rely h) (acts_for h p) (k (fst (CreateConsumer n i (db w'))))
      (w'\<lparr>db := snd (CreateConsumer n i (db w'))\<rparr>)"
  proof (cases "fst (CreateConsumer n i (db w'))")
    case (Inl e)
    then show ?thesis using assms(3) r by simp
  next
    case (Inr u)
    then have "i = IoOk"
      by (cases i) (auto simp: CreateConsumer_def)
    with Inr have "find_consumer (c_ConsumerPID n) (snd (CreateConsumer n i (db w'))) = Some n"
      by (auto simp: CreateConsumer_def select_row_insert split: option.splits)
    then show ?thesis using assms(4) r Inr by (simp add: known_found)
  qed
qed

lemma consumer_edge_ok:
  "consumer_ok h s c \<Longrightarrow> negotiation_edge (c_State c) to \<Longrightarrow> to \<in> {StateVerified, StateFinalized} \<Longrightarrow>
     accepted_agreement c s"
  by (auto simp: consumer_ok_def accepted_agreement_def negotiation_edge_def negotiation_edges_def
      state_defs)

lemma safe_SetConsumerState:
  assumes "known_consumer c (db w)" and "pid = c_ConsumerPID c"
    and "AuthRequired (h_cfg h) \<Longrightarrow> c_CounterpartyID c = p" and "negotiation_edge st to"
    and "to = StateAgreed \<Longrightarrow> accepted_agreement c (db w)"
    and cont: "\<And>w' e. rely h w w' \<Longrightarrow> known_consumer c (db w') \<Longrightarrow>
      safe (rely h) (acts_for h p) (k e) w'"
  shows "safe (rely h) (acts_for h p) (call (SetConsumerState pid st to t) k) w"
proof (rule safe_call_acts)
  fix w' i
  assume w': "rely h w w'" "conn_invar h (db w')"
  obtain c' where c': "find_consumer pid (db w') = Some c'" "same_consumer c c'"
    using known_consumer_later [OF w'(1) assms(1)] assms(2) by (auto simp: known_consumer_def)
  have ok: "consumer_ok h (db w') c'" by (rule conn_invarD(3) [OF w'(2) c'(1)])
  have acc: "to = StateAgreed \<Longrightarrow> accepted_agreement c (db w')"
    using assms(5) accepted_agreement_later [OF w'(1)] by blast

  have "acts_for h p w' (w'\<lparr>db := (db w')\<lparr>consumer_negotiations := rows\<rparr>\<rparr>)"
    if "update_where c_ConsumerPID pid (\<lambda>r. c_State r = st)
      (\<lambda>r. r\<lparr>c_State := to, c_UpdatedAt := t\<rparr>) (consumer_negotiations (db w')) = Some rows" for rows
    using w'(2) that
    by (rule acts_update_consumer)
      (use c' assms(3,4) ok consumer_edge_ok [OF ok] acc negotiation_edge_states [OF assms(4)] in
        \<open>auto simp: consumer_step_def same_consumer_def consumer_ok_def accepted_agreement_def\<close>)
  then show "acts_for h p w' (w'\<lparr>db := snd (SetConsumerState pid st to t i (db w'))\<rparr>)"
    unfolding SetConsumerState_def using w'(2)
    by (intro acts_driver) (auto intro: acts_for_refl split: option.splits)
qed (rule cont, assumption, rule known_consumer_later [OF _ assms(1)])

lemma safe_SetConsumerProviderPID:
  assumes "known_consumer c (db w)" and "pid = c_ConsumerPID c"
    and "AuthRequired (h_cfg h) \<Longrightarrow> c_CounterpartyID c = p"
    and cont: "\<And>w' e. rely h w w' \<Longrightarrow> known_consumer c (db w') \<Longrightarrow>
      safe (rely h) (acts_for h p) (k e) w'"
  shows "safe (rely h) (acts_for h p) (call (SetConsumerProviderPID pid x t) k) w"
proof (rule safe_call_acts)
  fix w' i
  assume w': "rely h w w'" "conn_invar h (db w')"
  obtain c' where c': "find_consumer pid (db w') = Some c'" "same_consumer c c'"
    using known_consumer_later [OF w'(1) assms(1)] assms(2) by (auto simp: known_consumer_def)
  have ok: "consumer_ok h (db w') c'" by (rule conn_invarD(3) [OF w'(2) c'(1)])

  have "acts_for h p w' (w'\<lparr>db := (db w')\<lparr>consumer_negotiations := rows\<rparr>\<rparr>)"
    if "update_where c_ConsumerPID pid (\<lambda>_. True)
      (\<lambda>r. r\<lparr>c_ProviderPID := x, c_UpdatedAt := t\<rparr>) (consumer_negotiations (db w')) = Some rows" for rows
    using w'(2) that
    by (rule acts_update_consumer)
      (use c' assms(3) ok in
        \<open>auto simp: consumer_step_def same_consumer_def consumer_ok_def\<close>)
  then show "acts_for h p w' (w'\<lparr>db := snd (SetConsumerProviderPID pid x t i (db w'))\<rparr>)"
    unfolding SetConsumerProviderPID_def using w'(2)
    by (intro acts_driver) (auto intro: acts_for_refl split: option.splits)
qed (rule cont, assumption, rule known_consumer_later [OF _ assms(1)])

section \<open>Rules of safe: transfers, provider role\<close>

lemma safe_GetTransfer:
  assumes "\<And>w'. rely h w w' \<Longrightarrow> safe (rely h) (acts_for h p) (k (Inl ErrDriver)) w'"
    and "\<And>w'. rely h w w' \<Longrightarrow> safe (rely h) (acts_for h p) (k (Inr None)) w'"
    and "\<And>w' r. rely h w w' \<Longrightarrow> find_transfer pid (db w') = Some r \<Longrightarrow> transfer_ok h (db w') r \<Longrightarrow>
      known_transfer r (db w') \<Longrightarrow> t_ProviderPID r = pid \<Longrightarrow>
      safe (rely h) (acts_for h p) (k (Inr (Some r))) w'"
  shows "safe (rely h) (acts_for h p) (call (GetTransfer pid) k) w"
  unfolding GetTransfer_def
proof (rule safe_query_acts)
  fix w'
  assume w': "rely h w w'" "conn_invar h (db w')"
  then show "safe (rely h) (acts_for h p) (k (Inr (find_transfer pid (db w')))) w'"
    using assms conn_invarD(5) [OF w'(2)] known_found(3) select_row_key [of t_ProviderPID]
    by (cases "find_transfer pid (db w')") (simp, simp, blast)
qed (use assms in blast)

lemma safe_CreateTransfer:
  assumes "transfer_ok h (db w) n" and "AuthRequired (h_cfg h) \<Longrightarrow> t_CounterpartyID n = p"
    and "\<And>w' e. rely h w w' \<Longrightarrow> safe (rely h) (acts_for h p) (k (Inl e)) w'"
    and "\<And>w'. rely h w w' \<Longrightarrow> known_transfer n (db w') \<Longrightarrow>
      safe (rely h) (acts_for h p) (k (Inr ())) w'"
  shows "safe (rely h) (acts_for h p) (call (CreateTransfer n) k) w"
proof (rule safe_call_acts)
  fix w' i
  assume w': "rely h w w'" "conn_invar h (db w')"
  have "transfer_ok h (db w') n"
    using assms(1) w'(1) by (auto simp: rely_def intro: transfer_ok_later)
  then show "acts_for h p w' (w'\<lparr>db := snd (CreateTransfer n i (db w'))\<rparr>)"
    unfolding CreateTransfer_def using assms(2) w'(2)
    by (intro acts_driver) (auto intro: acts_for_refl acts_insert_transfer split: option.splits)
  assume r: "rely h w (w'\<lparr>db := snd (CreateTransfer n i (db w'))\<rparr>)"
  show "safe (rely h) (acts_for h p) (k (fst (CreateTransfer n i (db w'))))
      (w'\<lparr>db := snd (CreateTransfer n i (db w'))\<rparr>)"
  proof (cases "fst (CreateTransfer n i (db w'))")
    case (Inl e)
    then show ?thesis using assms(3) r by simp
  next
    case (Inr u)
    then have "i = IoOk"
      by (cases i) (auto simp: CreateTransfer_def)
    with Inr have "find_transfer (t_ProviderPID n) (snd (CreateTransfer n i (db w'))) = Some n"
      by (auto simp: CreateTransfer_def select_row_insert split: option.splits)
    then show ?thesis using assms(4) r Inr by (simp add: known_found)
  qed
qed

lemma safe_SetTransferState:
  assumes "known_transfer u (db w)" and "pid = t_ProviderPID u"
    and "AuthRequired (h_cfg h) \<Longrightarrow> t_CounterpartyID u = p" and "transfer_edge st to"
    and cont: "\<And>w' e. rely h w w' \<Longrightarrow> known_transfer u (db w') \<Longrightarrow>
      safe (rely h) (acts_for h p) (k e) w'"
  shows "safe (rely h) (acts_for h p) (call (SetTransferState pid st to t) k) w"
proof (rule safe_call_acts)
  fix w' i
  assume w': "rely h w w'" "conn_invar h (db w')"
  obtain t' where t': "find_transfer pid (db w') = Some t'" "same_transfer u t'"
    using known_transfer_later [OF w'(1) assms(1)] assms(2) by (auto simp: known_transfer_def)
  have ok: "transfer_ok h (db w') t'" by (rule conn_invarD(5) [OF w'(2) t'(1)])

  have "acts_for h p w' (w'\<lparr>db := (db w')\<lparr>transfer_processes := rows\<rparr>\<rparr>)"
    if "update_where t_ProviderPID pid (\<lambda>r. t_State r = st)
      (\<lambda>r. r\<lparr>t_State := to, t_UpdatedAt := t\<rparr>) (transfer_processes (db w')) = Some rows" for rows
    using w'(2) that
    by (rule acts_update_transfer)
      (use t' assms(3,4) ok transfer_edge_states [OF assms(4)] in
        \<open>auto simp: transfer_step_def same_transfer_def transfer_ok_def\<close>)
  then show "acts_for h p w' (w'\<lparr>db := snd (SetTransferState pid st to t i (db w'))\<rparr>)"
    unfolding SetTransferState_def using w'(2)
    by (intro acts_driver) (auto intro: acts_for_refl split: option.splits)
qed (rule cont, assumption, rule known_transfer_later [OF _ assms(1)])

section \<open>Rules of safe: transfers, consumer role\<close>

lemma safe_GetConsumerTransfer:
  assumes "\<And>w'. rely h w w' \<Longrightarrow> safe (rely h) (acts_for h p) (k (Inl ErrDriver)) w'"
    and "\<And>w'. rely h w w' \<Longrightarrow> safe (rely h) (acts_for h p) (k (Inr None)) w'"
    and "\<And>w' r. rely h w w' \<Longrightarrow> find_consumer_transfer pid (db w') = Some r \<Longrightarrow> consumer_transfer_ok h (db w') r \<Longrightarrow>
      known_consumer_transfer pid (ct_CounterpartyID r) (db w') \<Longrightarrow> ct_ConsumerPID r = pid \<Longrightarrow>
      safe (rely h) (acts_for h p) (k (Inr (Some r))) w'"
  shows "safe (rely h) (acts_for h p) (call (GetConsumerTransfer pid) k) w"
  unfolding GetConsumerTransfer_def
proof (rule safe_query_acts)
  fix w'
  assume w': "rely h w w'" "conn_invar h (db w')"
  then show "safe (rely h) (acts_for h p) (k (Inr (find_consumer_transfer pid (db w')))) w'"
    using assms conn_invarD(6) [OF w'(2)] known_found(4) select_row_key [of ct_ConsumerPID]
    by (cases "find_consumer_transfer pid (db w')") (simp, simp, blast)
qed (use assms in blast)

lemma safe_CreateConsumerTransfer:
  assumes "consumer_transfer_ok h (db w) n" and "AuthRequired (h_cfg h) \<Longrightarrow> ct_CounterpartyID n = p"
    and "\<And>w' e. rely h w w' \<Longrightarrow> safe (rely h) (acts_for h p) (k (Inl e)) w'"
    and "\<And>w'. rely h w w' \<Longrightarrow> known_consumer_transfer (ct_ConsumerPID n) (ct_CounterpartyID n) (db w') \<Longrightarrow>
      safe (rely h) (acts_for h p) (k (Inr ())) w'"
  shows "safe (rely h) (acts_for h p) (call (CreateConsumerTransfer n) k) w"
proof (rule safe_call_acts)
  fix w' i
  assume w': "rely h w w'" "conn_invar h (db w')"
  have "consumer_transfer_ok h (db w') n"
    using assms(1) w'(1) by (auto simp: rely_def intro: consumer_transfer_ok_later)
  then show "acts_for h p w' (w'\<lparr>db := snd (CreateConsumerTransfer n i (db w'))\<rparr>)"
    unfolding CreateConsumerTransfer_def using assms(2) w'(2)
    by (intro acts_driver) (auto intro: acts_for_refl acts_insert_consumer_transfer split: option.splits)
  assume r: "rely h w (w'\<lparr>db := snd (CreateConsumerTransfer n i (db w'))\<rparr>)"
  show "safe (rely h) (acts_for h p) (k (fst (CreateConsumerTransfer n i (db w'))))
      (w'\<lparr>db := snd (CreateConsumerTransfer n i (db w'))\<rparr>)"
  proof (cases "fst (CreateConsumerTransfer n i (db w'))")
    case (Inl e)
    then show ?thesis using assms(3) r by simp
  next
    case (Inr u)
    then have "i = IoOk"
      by (cases i) (auto simp: CreateConsumerTransfer_def)
    with Inr have "find_consumer_transfer (ct_ConsumerPID n) (snd (CreateConsumerTransfer n i (db w'))) = Some n"
      by (auto simp: CreateConsumerTransfer_def select_row_insert split: option.splits)
    then show ?thesis using assms(4) r Inr by (simp add: known_found)
  qed
qed

lemma safe_SetConsumerTransferState:
  assumes "known_consumer_transfer pid cp (db w)" and "AuthRequired (h_cfg h) \<Longrightarrow> cp = p" and "transfer_edge st to"
    and cont: "\<And>w' e. rely h w w' \<Longrightarrow> known_consumer_transfer pid cp (db w') \<Longrightarrow>
      safe (rely h) (acts_for h p) (k e) w'"
  shows "safe (rely h) (acts_for h p) (call (SetConsumerTransferState pid st to t) k) w"
proof (rule safe_call_acts)
  fix w' i
  assume w': "rely h w w'" "conn_invar h (db w')"
  obtain u where u: "find_consumer_transfer pid (db w') = Some u" "ct_CounterpartyID u = cp"
    using known_consumer_transfer_later [OF w'(1) assms(1)] by (auto simp: known_consumer_transfer_def)
  have ok: "consumer_transfer_ok h (db w') u" by (rule conn_invarD(6) [OF w'(2) u(1)])

  have "acts_for h p w' (w'\<lparr>db := (db w')\<lparr>consumer_transfer_processes := rows\<rparr>\<rparr>)"
    if "update_where ct_ConsumerPID pid (\<lambda>r. ct_State r = st)
      (\<lambda>r. r\<lparr>ct_State := to, ct_UpdatedAt := t\<rparr>) (consumer_transfer_processes (db w')) = Some rows" for rows
    using w'(2) that
    by (rule acts_update_consumer_transfer)
      (use u assms(2,3) ok transfer_edge_states [OF assms(3)] in
        \<open>auto simp: consumer_transfer_step_def same_consumer_transfer_def consumer_transfer_ok_def\<close>)
  then show "acts_for h p w' (w'\<lparr>db := snd (SetConsumerTransferState pid st to t i (db w'))\<rparr>)"
    unfolding SetConsumerTransferState_def using w'(2)
    by (intro acts_driver) (auto intro: acts_for_refl split: option.splits)
qed (rule cont, assumption, rule known_consumer_transfer_later [OF _ assms(1)])

lemma safe_SetConsumerTransferProviderPID:
  assumes "known_consumer_transfer pid cp (db w)" and "AuthRequired (h_cfg h) \<Longrightarrow> cp = p"
    and cont: "\<And>w' e. rely h w w' \<Longrightarrow> known_consumer_transfer pid cp (db w') \<Longrightarrow>
      safe (rely h) (acts_for h p) (k e) w'"
  shows "safe (rely h) (acts_for h p) (call (SetConsumerTransferProviderPID pid x t) k) w"
proof (rule safe_call_acts)
  fix w' i
  assume w': "rely h w w'" "conn_invar h (db w')"
  obtain u where u: "find_consumer_transfer pid (db w') = Some u" "ct_CounterpartyID u = cp"
    using known_consumer_transfer_later [OF w'(1) assms(1)] by (auto simp: known_consumer_transfer_def)
  have ok: "consumer_transfer_ok h (db w') u" by (rule conn_invarD(6) [OF w'(2) u(1)])

  have "acts_for h p w' (w'\<lparr>db := (db w')\<lparr>consumer_transfer_processes := rows\<rparr>\<rparr>)"
    if "update_where ct_ConsumerPID pid (\<lambda>_. True)
      (\<lambda>r. r\<lparr>ct_ProviderPID := x, ct_UpdatedAt := t\<rparr>) (consumer_transfer_processes (db w')) = Some rows" for rows
    using w'(2) that
    by (rule acts_update_consumer_transfer)
      (use u assms(2) ok in
        \<open>auto simp: consumer_transfer_step_def same_consumer_transfer_def consumer_transfer_ok_def\<close>)
  then show "acts_for h p w' (w'\<lparr>db := snd (SetConsumerTransferProviderPID pid x t i (db w'))\<rparr>)"
    unfolding SetConsumerTransferProviderPID_def using w'(2)
    by (intro acts_driver) (auto intro: acts_for_refl split: option.splits)
qed (rule cont, assumption, rule known_consumer_transfer_later [OF _ assms(1)])

lemma safe_SetConsumerTransferExpectedBytes:
  assumes "known_consumer_transfer pid cp (db w)" and "AuthRequired (h_cfg h) \<Longrightarrow> cp = p"
    and cont: "\<And>w' e. rely h w w' \<Longrightarrow> known_consumer_transfer pid cp (db w') \<Longrightarrow>
      safe (rely h) (acts_for h p) (k e) w'"
  shows "safe (rely h) (acts_for h p) (call (SetConsumerTransferExpectedBytes pid x) k) w"
proof (rule safe_call_acts)
  fix w' i
  assume w': "rely h w w'" "conn_invar h (db w')"
  obtain u where u: "find_consumer_transfer pid (db w') = Some u" "ct_CounterpartyID u = cp"
    using known_consumer_transfer_later [OF w'(1) assms(1)] by (auto simp: known_consumer_transfer_def)
  have ok: "consumer_transfer_ok h (db w') u" by (rule conn_invarD(6) [OF w'(2) u(1)])
  have hit: "update_where ct_ConsumerPID pid (\<lambda>_. True) f (consumer_transfer_processes (db w')) =
      Some (update_rows ct_ConsumerPID pid (\<lambda>_. True) f (consumer_transfer_processes (db w')))" for f
    using update_where_hit [OF store_wfD(5) [OF conn_invarD(1) [OF w'(2)]] u(1)] by simp
  show "acts_for h p w' (w'\<lparr>db := snd (SetConsumerTransferExpectedBytes pid x i (db w'))\<rparr>)"
    unfolding SetConsumerTransferExpectedBytes_def fst_conv snd_conv
    by (rule acts_driver [OF w'(2)], unfold snd_conv, rule acts_update_consumer_transfer [OF w'(2) hit])
      (use u assms(2) ok in \<open>auto simp: consumer_transfer_step_def same_consumer_transfer_def consumer_transfer_ok_def\<close>)
qed (rule cont, assumption, rule known_consumer_transfer_later [OF _ assms(1)])

lemma safe_RecordConsumerTransferOutcome:
  assumes "known_consumer_transfer pid cp (db w)" and "AuthRequired (h_cfg h) \<Longrightarrow> cp = p"
    and cont: "\<And>w' e. rely h w w' \<Longrightarrow> known_consumer_transfer pid cp (db w') \<Longrightarrow>
      safe (rely h) (acts_for h p) (k e) w'"
  shows "safe (rely h) (acts_for h p) (call (RecordConsumerTransferOutcome pid n path at e) k) w"
proof (rule safe_call_acts)
  fix w' i
  assume w': "rely h w w'" "conn_invar h (db w')"
  obtain u where u: "find_consumer_transfer pid (db w') = Some u" "ct_CounterpartyID u = cp"
    using known_consumer_transfer_later [OF w'(1) assms(1)] by (auto simp: known_consumer_transfer_def)
  have ok: "consumer_transfer_ok h (db w') u" by (rule conn_invarD(6) [OF w'(2) u(1)])
  have hit: "update_where ct_ConsumerPID pid (\<lambda>_. True) f (consumer_transfer_processes (db w')) =
      Some (update_rows ct_ConsumerPID pid (\<lambda>_. True) f (consumer_transfer_processes (db w')))" for f
    using update_where_hit [OF store_wfD(5) [OF conn_invarD(1) [OF w'(2)]] u(1)] by simp
  show "acts_for h p w' (w'\<lparr>db := snd (RecordConsumerTransferOutcome pid n path at e i (db w'))\<rparr>)"
    unfolding RecordConsumerTransferOutcome_def fst_conv snd_conv
    by (rule acts_driver [OF w'(2)], unfold snd_conv, rule acts_update_consumer_transfer [OF w'(2) hit])
      (use u assms(2) ok in \<open>auto simp: consumer_transfer_step_def same_consumer_transfer_def consumer_transfer_ok_def\<close>)
qed (rule cont, assumption, rule known_consumer_transfer_later [OF _ assms(1)])

lemmas statement_rules [safe_rules] = safe_Get safe_Create safe_SetState safe_SetRerequested
  safe_GetAgreement safe_CreateAgreement safe_CreateAgreementIfNegotiationAgreed safe_GetConsumer
  safe_CreateConsumer safe_SetConsumerState safe_SetConsumerProviderPID safe_GetTransfer
  safe_CreateTransfer safe_SetTransferState safe_GetConsumerTransfer safe_CreateConsumerTransfer
  safe_SetConsumerTransferState safe_SetConsumerTransferProviderPID
  safe_SetConsumerTransferExpectedBytes safe_RecordConsumerTransferOutcome

end
