(* ===== verification/NegotiationConsumer.thy ===== *)
theory NegotiationConsumer
  imports Statements
begin

text \<open>
  Contract negotiation, consumer role: \<^verbatim>\<open>negotiation_consumer_handler.go\<close>, the outbound
  messages of \<^verbatim>\<open>negotiation_client.go\<close> and the consumer's decisions in
  \<^verbatim>\<open>negotiation.go\<close>.  A handler is a function of the request; a goroutine of the code is
  the program given to \<open>Go\<close>.  The theory proves that every handler answers exactly once and is
  \<open>safe\<close> for the participant its record names.
\<close>

section \<open>Decisions\<close>

definition normalizedPolicy :: "ConsumerPolicy \<Rightarrow> ConsumerPolicy" where
  "normalizedPolicy p = p
     \<lparr>p_OnOffer := (if p_OnOffer p = '''' then ''accept'' else p_OnOffer p),
      p_OnAgreement := (if p_OnAgreement p = '''' then ''verify'' else p_OnAgreement p),
      p_OnIdle := (if p_OnIdle p = '''' then ''wait'' else p_OnIdle p)\<rparr>"

definition resolvePolicy :: "Config \<Rightarrow> string \<Rightarrow> ConsumerPolicy" where
  "resolvePolicy cfg datasetID = normalizedPolicy
     (case find (\<lambda>p. p_DatasetID p = datasetID) (ConsumerPolicies cfg) of
        Some p \<Rightarrow> p
      | None \<Rightarrow> \<lparr>p_DatasetID = datasetID, p_OnOffer = '''', p_OnAgreement = '''', p_OnIdle = ''''\<rparr>)"

definition decideOfferReaction :: "string \<Rightarrow> bool \<Rightarrow> string" where
  "decideOfferReaction onOffer unenforceable =
     (if unenforceable \<and> onOffer = ''accept'' then ''reject'' else onOffer)"

definition decideAgreementReaction :: "string \<Rightarrow> bool \<Rightarrow> bool \<Rightarrow> string" where
  "decideAgreementReaction onAgreement unenforceable wrongTarget =
     (if (unenforceable \<or> wrongTarget) \<and> onAgreement = ''verify'' then ''reject'' else onAgreement)"

definition offerLegalFrom :: "string \<Rightarrow> bool" where
  "offerLegalFrom st \<longleftrightarrow> st = StateRequested"

definition agreementLegalFrom :: "string \<Rightarrow> bool" where
  "agreementLegalFrom st \<longleftrightarrow> st = StateRequested \<or> st = StateAccepted"

definition finalizedEventLegalFrom :: "string \<Rightarrow> bool" where
  "finalizedEventLegalFrom st \<longleftrightarrow> st = StateVerified"

section \<open>Outbound messages\<close>

definition consumerPath :: "string \<Rightarrow> string \<Rightarrow> string" where
  "consumerPath providerPID what = ''/negotiations/'' @ providerPID @ what"

definition sendCounterRequest :: "handler \<Rightarrow> ConsumerNegotiation \<Rightarrow> (bool \<Rightarrow> prog) \<Rightarrow> prog" where
  "sendCounterRequest h n k =
     pushCallback h (c_ProviderBaseURL n @ consumerPath (c_ProviderPID n) ''/request'')
       (DCounter (buildCounterRequestMessage n)) (c_CounterpartyID n) k"

definition sendAcceptedEvent :: "handler \<Rightarrow> ConsumerNegotiation \<Rightarrow> (bool \<Rightarrow> prog) \<Rightarrow> prog" where
  "sendAcceptedEvent h n k = newMessageID (\<lambda>mid.
     pushCallback h (c_ProviderBaseURL n @ consumerPath (c_ProviderPID n) ''/events'')
       (DEvent (buildAcceptedEventMessage mid n)) (c_CounterpartyID n) k)"

definition sendVerification :: "handler \<Rightarrow> ConsumerNegotiation \<Rightarrow> (bool \<Rightarrow> prog) \<Rightarrow> prog" where
  "sendVerification h n k = newMessageID (\<lambda>mid.
     pushCallback h (c_ProviderBaseURL n @ consumerPath (c_ProviderPID n) ''/agreement/verification'')
       (DVerification (buildVerificationMessage mid n)) (c_CounterpartyID n) k)"

definition sendConsumerTermination :: "handler \<Rightarrow> ConsumerNegotiation \<Rightarrow> (bool \<Rightarrow> prog) \<Rightarrow> prog" where
  "sendConsumerTermination h n k = newMessageID (\<lambda>mid.
     pushCallback h (c_ProviderBaseURL n @ consumerPath (c_ProviderPID n) ''/termination'')
       (DTermination (buildConsumerTerminationMessage mid n)) (c_CounterpartyID n) k)"

section \<open>Initiating a negotiation\<close>

text \<open>
  The address \<^verbatim>\<open>handleInitiate\<close> and \<^verbatim>\<open>handleTransferInitiate\<close> dial: the
  roster's when there is a roster, checked again when it is not the one the request named.
\<close>

definition dialAddress :: "handler \<Rightarrow> string \<Rightarrow> string \<Rightarrow> string \<Rightarrow> (string \<Rightarrow> prog) \<Rightarrow> prog" where
  "dialAddress h errType providerID connectorAddress k =
     (case h_providerAddress h of
        None \<Rightarrow> k connectorAddress
      | Some addressFor \<Rightarrow>
          (case addressFor providerID of
             None \<Rightarrow> writeError errType StatusBadRequest
               (''the roster lists no connector_address for providerId '' @ providerID)
           | Some baseURL \<Rightarrow>
               if baseURL \<noteq> connectorAddress then
                 AllowURL baseURL (\<lambda>allowed.
                   if \<not> allowed then writeError errType StatusBadRequest
                     (''the roster's connector_address for '' @ providerID @
                      '' is not an address this connector will send to'')
                   else k baseURL)
               else k baseURL))"

definition requireKnown :: "handler \<Rightarrow> string \<Rightarrow> string \<Rightarrow> prog \<Rightarrow> prog" where
  "requireKnown h errType providerID k =
     (if (case h_knownParticipant h of None \<Rightarrow> False | Some known \<Rightarrow> \<not> known providerID) then
        writeError errType StatusBadRequest (''providerId '' @ providerID @
          '' is not a participant this connector's roster lists'')
      else k)"

definition startNegotiation :: "handler \<Rightarrow> ConsumerNegotiation \<Rightarrow> prog" where
  "startNegotiation h n =
     sendInitialRequest h (c_ProviderBaseURL n)
       (buildConsumerRequestMessage (c_ConsumerPID n) (c_DatasetID n) (c_OfferID n)
          (PublicURL (h_cfg h) @ VersionPath))
       (c_CounterpartyID n)
       (\<lambda>reply. case reply of None \<Rightarrow> Done | Some providerPID \<Rightarrow>
          Now (\<lambda>t. call (SetConsumerProviderPID (c_ConsumerPID n) providerPID t) (\<lambda>res.
            case res of Inl e \<Rightarrow> Done | Inr u \<Rightarrow>
              (let n' = n\<lparr>c_ProviderPID := providerPID\<rparr> in
               if p_OnIdle (resolvePolicy (h_cfg h) (c_DatasetID n')) = ''abandon'' then
                 sendConsumerTermination h n' (\<lambda>sent. Now (\<lambda>t'.
                   call (SetConsumerState (c_ConsumerPID n') (c_State n') StateTerminated t')
                     (\<lambda>_. Done)))
               else Done))))"

definition handleInitiate :: "handler \<Rightarrow> request \<Rightarrow> prog" where
  "handleInitiate h r = usable h (\<lambda>ok.
     if \<not> ok then refuseExpiredRoster ContractNegotiationErrorType
     else decode_body ContractNegotiationErrorType notJSONObject initiateRequestBody_fields
       zero_initiateRequestBody r (\<lambda>body.
         if ib_ProviderID body = '''' \<or> ib_OfferID body = '''' \<or> ib_DatasetID body = '''' \<or>
            ib_ConnectorAddress body = '''' then
           writeError ContractNegotiationErrorType StatusBadRequest
             ''providerId, offerId, datasetId, and connectorAddress are all required''
         else AllowURL (ib_ConnectorAddress body) (\<lambda>allowed.
           if \<not> allowed then writeError ContractNegotiationErrorType StatusBadRequest
             ''connectorAddress is not an address this connector will send to''
           else requireKnown h ContractNegotiationErrorType (ib_ProviderID body)
             (dialAddress h ContractNegotiationErrorType (ib_ProviderID body)
               (ib_ConnectorAddress body) (\<lambda>baseURL.
                 Uuid (\<lambda>u. case u of
                   None \<Rightarrow> WriteHeader StatusInternalServerError Done
                 | Some consumerPID \<Rightarrow> Now (\<lambda>now.
                     let n = \<lparr>c_ConsumerPID = consumerPID, c_ProviderPID = '''',
                       c_ProviderBaseURL = baseURL, c_State = StateRequested,
                       c_DatasetID = ib_DatasetID body, c_OfferID = ib_OfferID body,
                       c_CounterpartyID = ib_ProviderID body,
                       c_CreatedAt = now, c_UpdatedAt = now\<rparr>
                     in call (CreateConsumer n) (\<lambda>res. case res of
                          Inl e \<Rightarrow> WriteHeader StatusInternalServerError Done
                        | Inr v \<Rightarrow> WriteHeader StatusOK (Go (startNegotiation h n) Done)))))))))"

section \<open>Offers and agreements received\<close>

definition resolveProviderPID ::
  "ConsumerNegotiation \<Rightarrow> (ConsumerNegotiation \<Rightarrow> prog) \<Rightarrow> prog" where
  "resolveProviderPID n k =
     (if c_ProviderPID n = '''' then
        call (GetConsumer (c_ConsumerPID n)) (\<lambda>res. case res of
          Inl e \<Rightarrow> k n
        | Inr None \<Rightarrow> k n
        | Inr (Some current) \<Rightarrow> k (n\<lparr>c_ProviderPID := c_ProviderPID current\<rparr>))
      else k n)"

definition reactToOffer :: "handler \<Rightarrow> ConsumerNegotiation \<Rightarrow> bool \<Rightarrow> prog" where
  "reactToOffer h n0 unenforceable = resolveProviderPID n0 (\<lambda>n.
     let action = decideOfferReaction (p_OnOffer (resolvePolicy (h_cfg h) (c_DatasetID n))) unenforceable
     in if action = ''accept'' then
          sendAcceptedEvent h n (\<lambda>sent. Now (\<lambda>t.
            call (SetConsumerState (c_ConsumerPID n) (c_State n) StateAccepted t) (\<lambda>_. Done)))
        else if action = ''reject'' then
          sendConsumerTermination h n (\<lambda>sent. Now (\<lambda>t.
            call (SetConsumerState (c_ConsumerPID n) (c_State n) StateTerminated t) (\<lambda>_. Done)))
        else if action = ''counter'' then sendCounterRequest h n (\<lambda>sent. Done)
        else Done)"

definition reactToAgreement :: "handler \<Rightarrow> ConsumerNegotiation \<Rightarrow> bool \<Rightarrow> bool \<Rightarrow> prog" where
  "reactToAgreement h n0 unenforceable wrongTarget = resolveProviderPID n0 (\<lambda>n.
     let action = decideAgreementReaction
           (p_OnAgreement (resolvePolicy (h_cfg h) (c_DatasetID n))) unenforceable wrongTarget
     in if action = ''verify'' then
          sendVerification h n (\<lambda>sent. if \<not> sent then Done else Now (\<lambda>t.
            call (SetConsumerState (c_ConsumerPID n) (c_State n) StateVerified t) (\<lambda>_. Done)))
        else if action = ''reject'' then
          sendConsumerTermination h n (\<lambda>sent. Now (\<lambda>t.
            call (SetConsumerState (c_ConsumerPID n) (c_State n) StateTerminated t) (\<lambda>_. Done)))
        else Done)"

text \<open>What \<^verbatim>\<open>handleOffers\<close> and \<^verbatim>\<open>handleAgreement\<close> start with.\<close>

definition lookupConsumer :: "handler \<Rightarrow> request \<Rightarrow> (ConsumerNegotiation \<Rightarrow> prog) \<Rightarrow> prog" where
  "lookupConsumer h r k = call (GetConsumer (rq_ID r)) (\<lambda>res. case res of
       Inl e \<Rightarrow> WriteHeader StatusInternalServerError Done
     | Inr None \<Rightarrow> writeError ContractNegotiationErrorType StatusNotFound
         (''no negotiation with id '' @ rq_ID r)
     | Inr (Some n) \<Rightarrow> refuseIfNotParty r ContractNegotiationErrorType (c_CounterpartyID n)
         (AuthRequired (h_cfg h)) (k n))"

definition handleOffers :: "handler \<Rightarrow> request \<Rightarrow> prog" where
  "handleOffers h r = lookupConsumer h r (\<lambda>n.
     decode_body ContractNegotiationErrorType notCompactForm OfferMessage_fields zero_OfferMessage r (\<lambda>msg.
       checkEnvelope ContractNegotiationErrorType (om_Context msg) (om_Type msg) ContractOfferMessageType
         (if \<not> offerLegalFrom (c_State n) then
            writeError ContractNegotiationErrorType StatusBadRequest
              (''an offer is only valid from REQUESTED, negotiation is '' @ c_State n)
          else Now (\<lambda>t. call (SetConsumerState (c_ConsumerPID n) (c_State n) StateOffered t) (\<lambda>res.
            case res of
              Inl e \<Rightarrow> writeStateUpdateError (c_ConsumerPID n) e
            | Inr u \<Rightarrow> WriteHeader StatusOK
                (Go (reactToOffer h (n\<lparr>c_State := StateOffered\<rparr>)
                       (hasUnenforceableConstraint (no_Permission (om_Offer msg)))) Done))))))"

definition handleAgreement :: "handler \<Rightarrow> request \<Rightarrow> prog" where
  "handleAgreement h r = lookupConsumer h r (\<lambda>n.
     decode_body ContractNegotiationErrorType notCompactForm AgreementMessage_fields
       zero_AgreementMessage r (\<lambda>msg.
       checkEnvelope ContractNegotiationErrorType (am_Context msg) (am_Type msg)
         ContractAgreementMessageType
         (if \<not> agreementLegalFrom (c_State n) then
            writeError ContractNegotiationErrorType StatusBadRequest
              (''an agreement is only valid from REQUESTED or ACCEPTED, negotiation is '' @ c_State n)
          else Now (\<lambda>created. call (CreateAgreement
              \<lparr>a_AgreementID = ab_ID (am_Agreement msg), a_DatasetID = ab_Target (am_Agreement msg),
               a_ConsumerPID = c_ConsumerPID n, a_Origin = OriginAgreed,
               a_CounterpartyID = c_CounterpartyID n, a_CreatedAt = created\<rparr>) (\<lambda>rec. case rec of
              Inl e \<Rightarrow> WriteHeader StatusInternalServerError Done
            | Inr u \<Rightarrow> Now (\<lambda>t.
                call (SetConsumerState (c_ConsumerPID n) (c_State n) StateAgreed t) (\<lambda>res. case res of
                  Inl e \<Rightarrow> writeStateUpdateError (c_ConsumerPID n) e
                | Inr v \<Rightarrow> WriteHeader StatusOK
                    (Go (reactToAgreement h (n\<lparr>c_State := StateAgreed\<rparr>)
                           (hasUnenforceableConstraint (ab_Permission (am_Agreement msg)))
                           (ab_Target (am_Agreement msg) \<noteq> c_DatasetID n)) Done))))))))"

definition handleConsumerFinalizedEvent :: "handler \<Rightarrow> request \<Rightarrow> ConsumerNegotiation \<Rightarrow> prog" where
  "handleConsumerFinalizedEvent h r n =
     refuseIfNotParty r ContractNegotiationErrorType (c_CounterpartyID n) (AuthRequired (h_cfg h))
      (decode_body ContractNegotiationErrorType notCompactForm EventBody_fields zero_EventBody r (\<lambda>msg.
        checkEnvelope ContractNegotiationErrorType (eb_Context msg) (eb_Type msg)
          ContractNegotiationEventMessageType
          (if eb_EventType msg \<noteq> eventTypeFinalized then
             writeError ContractNegotiationErrorType StatusBadRequest ''eventType must be FINALIZED''
           else if \<not> finalizedEventLegalFrom (c_State n) then
             writeError ContractNegotiationErrorType StatusBadRequest
               (''finalized is only valid from VERIFIED, negotiation is '' @ c_State n)
           else Now (\<lambda>t. call (SetConsumerState (c_ConsumerPID n) (c_State n) StateFinalized t) (\<lambda>res.
             case res of
               Inl e \<Rightarrow> writeStateUpdateError (c_ConsumerPID n) e
             | Inr u \<Rightarrow> WriteHeader StatusOK Done)))))"

definition handleConsumerTermination :: "handler \<Rightarrow> request \<Rightarrow> ConsumerNegotiation \<Rightarrow> prog" where
  "handleConsumerTermination h r n =
     refuseIfNotParty r ContractNegotiationErrorType (c_CounterpartyID n) (AuthRequired (h_cfg h))
      (decode_body ContractNegotiationErrorType notCompactForm envelope_fields zero_envelope r (\<lambda>msg.
        checkEnvelope ContractNegotiationErrorType (ev_Context msg) (ev_Type msg)
          ContractNegotiationTerminationMessageType
          (if c_State n = StateFinalized \<or> c_State n = StateTerminated then
             writeError ContractNegotiationErrorType StatusBadRequest
               (''negotiation cannot be terminated from '' @ c_State n)
           else Now (\<lambda>t. call (SetConsumerState (c_ConsumerPID n) (c_State n) StateTerminated t) (\<lambda>res.
             case res of
               Inl e \<Rightarrow> writeStateUpdateError (c_ConsumerPID n) e
             | Inr u \<Rightarrow> WriteHeader StatusOK Done)))))"

section \<open>One answer\<close>

lemma responds_send [responds_rules]:
  "(\<And>x. responds (k x) n) \<Longrightarrow> responds (sendCounterRequest h c k) n"
  "(\<And>x. responds (k x) n) \<Longrightarrow> responds (sendAcceptedEvent h c k) n"
  "(\<And>x. responds (k x) n) \<Longrightarrow> responds (sendVerification h c k) n"
  "(\<And>x. responds (k x) n) \<Longrightarrow> responds (sendConsumerTermination h c k) n"
  by (auto simp: sendCounterRequest_def sendAcceptedEvent_def sendVerification_def
      sendConsumerTermination_def intro!: responds_rules)

lemma responds_resolveProviderPID [responds_rules]:
  "(\<And>c. responds (k c) n) \<Longrightarrow> responds (resolveProviderPID c k) n"
  by (auto simp: resolveProviderPID_def intro!: responds_rules split: sum.splits option.splits)

lemma responds_lookupConsumer [responds_rules]:
  "(\<And>c. responds (k c) (Suc 0)) \<Longrightarrow> responds (lookupConsumer h r k) (Suc 0)"
  by (auto simp: lookupConsumer_def intro!: responds_rules split: sum.splits option.splits)

lemma responds_dialAddress [responds_rules]:
  "(\<And>u. responds (k u) (Suc 0)) \<Longrightarrow> responds (dialAddress h ty p a k) (Suc 0)"
  by (auto simp: dialAddress_def split: option.splits)

lemma responds_requireKnown [responds_rules]:
  "responds k (Suc 0) \<Longrightarrow> responds (requireKnown h ty p k) (Suc 0)"
  by (auto simp: requireKnown_def)

lemma responds_consumer_goroutines [simp]:
  "responds (startNegotiation h n) 0" "responds (reactToOffer h n un) 0"
  "responds (reactToAgreement h n un wt) 0"
  by (auto simp: startNegotiation_def reactToOffer_def reactToAgreement_def Let_def
      intro!: responds_rules split: option.splits sum.splits)

lemma responds_negotiation_consumer:
  "responds (handleInitiate h r) (Suc 0)" "responds (handleOffers h r) (Suc 0)"
  "responds (handleAgreement h r) (Suc 0)" "responds (handleConsumerFinalizedEvent h r n) (Suc 0)"
  "responds (handleConsumerTermination h r n) (Suc 0)"
  by (auto simp: handleInitiate_def handleOffers_def handleAgreement_def
      handleConsumerFinalizedEvent_def handleConsumerTermination_def Let_def
      intro!: responds_rules split: option.splits sum.splits)

section \<open>Safety\<close>

lemma safe_send:
  "(\<And>x. safe R G (k x) w) \<Longrightarrow> safe R G (sendCounterRequest h c k) w"
  "(\<And>x. safe R G (k x) w) \<Longrightarrow> safe R G (sendAcceptedEvent h c k) w"
  "(\<And>x. safe R G (k x) w) \<Longrightarrow> safe R G (sendVerification h c k) w"
  "(\<And>x. safe R G (k x) w) \<Longrightarrow> safe R G (sendConsumerTermination h c k) w"
  by (auto simp: sendCounterRequest_def sendAcceptedEvent_def sendVerification_def
      sendConsumerTermination_def intro!: safe_basic)

lemma safe_resolveProviderPID:
  assumes "known_consumer c (db w)"
    and "\<And>w' x. rely h w w' \<Longrightarrow> known_consumer c (db w') \<Longrightarrow> safe (rely h) (acts_for h p) (k (c\<lparr>c_ProviderPID := x\<rparr>)) w'"
    and "safe (rely h) (acts_for h p) (k c) w"
  shows "safe (rely h) (acts_for h p) (resolveProviderPID c k) w"
proof (cases "c_ProviderPID c = ''''")
  case True
  have "safe (rely h) (acts_for h p) (k c) w'" if "rely h w w'" for w'
    using assms(3) that by (rule conn.safe_later)
  moreover have "safe (rely h) (acts_for h p) (k (c\<lparr>c_ProviderPID := x\<rparr>)) w'" if "rely h w w'" for w' x
    using assms(2) [OF that] known_consumer_later [OF that assms(1)] by blast
  ultimately show ?thesis
    using True unfolding resolveProviderPID_def by (auto intro!: safe_GetConsumer)
qed (use assms in \<open>simp add: resolveProviderPID_def\<close>)

lemma safe_reactToOffer:
  assumes "known_consumer n (db w)" and "c_State n = StateOffered"
    and "AuthRequired (h_cfg h) \<Longrightarrow> c_CounterpartyID n = p"
  shows "safe (rely h) (acts_for h p) (reactToOffer h n un) w"
  unfolding reactToOffer_def
  by (rule safe_resolveProviderPID [OF assms(1)])
    (use assms in \<open>auto simp: Let_def consumer_ok_def
      intro!: safe_send safe_SetConsumerState [where c = n]\<close>)

lemma safe_reactToAgreement:
  assumes "known_consumer n (db w)" and "c_State n = StateAgreed"
    and "AuthRequired (h_cfg h) \<Longrightarrow> c_CounterpartyID n = p"
  shows "safe (rely h) (acts_for h p) (reactToAgreement h n un wt) w"
  unfolding reactToAgreement_def
  by (rule safe_resolveProviderPID [OF assms(1)])
    (use assms in \<open>auto simp: Let_def consumer_ok_def
      intro!: safe_send safe_SetConsumerState [where c = n]\<close>)

lemma safe_startNegotiation:
  assumes "known_consumer n (db w)" and "c_State n = StateRequested"
    and "AuthRequired (h_cfg h) \<Longrightarrow> c_CounterpartyID n = p"
  shows "safe (rely h) (acts_for h p) (startNegotiation h n) w"
  unfolding startNegotiation_def
  by (use assms in \<open>auto simp: Let_def consumer_ok_def
      intro!: safe_send safe_sendInitialRequest safe_SetConsumerState [where c = n]
        safe_SetConsumerProviderPID [where c = n] split: option.splits sum.splits\<close>)

lemma safe_lookupConsumer:
  assumes "\<And>w' n. rely h w w' \<Longrightarrow> known_consumer n (db w') \<Longrightarrow> consumer_ok h (db w') n \<Longrightarrow>
      (AuthRequired (h_cfg h) \<Longrightarrow> c_CounterpartyID n = rq_Issuer r) \<Longrightarrow>
      safe (rely h) (acts_for h p) (k n) w'"
  shows "safe (rely h) (acts_for h p) (lookupConsumer h r k) w"
  unfolding lookupConsumer_def
  by (rule safe_GetConsumer) (use assms in \<open>auto intro!: safe_refuseIfNotParty\<close>)

lemma safe_handleOffers: "safe (rely h) (acts_for h (rq_Issuer r)) (handleOffers h r) w"
  unfolding handleOffers_def
proof (rule safe_lookupConsumer, goal_cases)
  case (1 w' n)
  then show ?case
    by (auto simp: offerLegalFrom_def 
        intro!: safe_decode_body safe_checkEnvelope safe_SetConsumerState [where c = n]
          safe_reactToOffer
        split: sum.splits)
qed

lemma safe_handleAgreement: "safe (rely h) (acts_for h (rq_Issuer r)) (handleAgreement h r) w"
  unfolding handleAgreement_def
proof (rule safe_lookupConsumer, goal_cases)
  case (1 w' n)
  then show ?case
    by (auto simp: agreementLegalFrom_def 
        intro!: safe_decode_body safe_checkEnvelope safe_CreateAgreement [where c = n]
          safe_SetConsumerState [where c = n] safe_reactToAgreement
        split: sum.splits)
qed

lemma safe_consumer_events:
  assumes "known_consumer n (db w)" and "consumer_ok h (db w) n"
  shows "safe (rely h) (acts_for h (rq_Issuer r)) (handleConsumerFinalizedEvent h r n) w"
    and "safe (rely h) (acts_for h (rq_Issuer r)) (handleConsumerTermination h r n) w"
  unfolding handleConsumerFinalizedEvent_def handleConsumerTermination_def
  by (use assms in \<open>auto simp: finalizedEventLegalFrom_def consumer_ok_def
      intro!: safe_refuseIfNotParty safe_decode_body safe_checkEnvelope safe_SetConsumerState [where c = n]
      split: sum.splits\<close>)

text \<open>The initiate hook creates a record only for a listed participant, at its listed address.\<close>

lemma safe_dialAddress:
  assumes "\<And>url. (case h_providerAddress h of None \<Rightarrow> url = a
      | Some addressFor \<Rightarrow> addressFor pid = Some url) \<Longrightarrow> safe R G (k url) w"
  shows "safe R G (dialAddress h ty pid a k) w"
  using assms by (auto simp: dialAddress_def split: option.splits)

lemma safe_requireKnown:
  assumes "(case h_knownParticipant h of None \<Rightarrow> True | Some known \<Rightarrow> known pid) \<Longrightarrow> safe R G k w"
  shows "safe R G (requireKnown h ty pid k) w"
  using assms by (auto simp: requireKnown_def split: option.splits)

text \<open>Whom an initiate request acts for: the participant its body names.\<close>

definition initiate_party :: "request \<Rightarrow> string" where
  "initiate_party r = (case decode (dec_struct initiateRequestBody_fields) zero_initiateRequestBody (rq_Body r) of
     None \<Rightarrow> '''' | Some body \<Rightarrow> ib_ProviderID body)"

lemma safe_handleInitiate: "safe (rely h) (acts_for h (initiate_party r)) (handleInitiate h r) w"
  unfolding handleInitiate_def initiate_party_def decode_body_def WriteHeader_def
  by (intro safe_usable safe_requireKnown safe_dialAddress safe_structure safe_CreateConsumer
      safe_startNegotiation)
    (auto simp: consumer_ok_def listed_def split: option.splits)

end
