(* ===== verification/Negotiation.thy ===== *)
theory Negotiation
  imports NegotiationConsumer
begin

text \<open>
  Contract negotiation, provider role, and the endpoints both roles share:
  \<^verbatim>\<open>negotiation_handler.go\<close> and the provider's decisions in
  \<^verbatim>\<open>negotiation.go\<close>.  The theory proves the decision table, that every handler answers
  exactly once, and that every handler is \<open>safe\<close> for the participant that sent the request.
\<close>

section \<open>Decisions\<close>

record negotiationOutcome =
  pushOffer :: bool
  pushAgreement :: bool
  pushTermination :: bool

definition outcomeNone :: negotiationOutcome where
  "outcomeNone = \<lparr>pushOffer = False, pushAgreement = False, pushTermination = False\<rparr>"
definition outcomeOffer :: negotiationOutcome where
  "outcomeOffer = outcomeNone\<lparr>pushOffer := True\<rparr>"
definition outcomeAgree :: negotiationOutcome where
  "outcomeAgree = outcomeNone\<lparr>pushAgreement := True\<rparr>"
definition outcomeTerminate :: negotiationOutcome where
  "outcomeTerminate = outcomeNone\<lparr>pushTermination := True\<rparr>"
definition outcomeOfferThenTerminate :: negotiationOutcome where
  "outcomeOfferThenTerminate = outcomeNone\<lparr>pushOffer := True, pushTermination := True\<rparr>"

lemmas outcome_defs = outcomeNone_def outcomeOffer_def outcomeAgree_def outcomeTerminate_def
  outcomeOfferThenTerminate_def

definition isValid :: "Dataset \<Rightarrow> instant \<Rightarrow> bool" where
  "isValid d now \<longleftrightarrow> (case d_ValidityUntil d of None \<Rightarrow> True | Some t \<Rightarrow> now < t)"

definition decideInitialRequest :: "Config \<Rightarrow> string \<Rightarrow> string \<Rightarrow> instant \<Rightarrow> negotiationOutcome" where
  "decideInitialRequest cfg datasetID offerID now =
     (case findConfiguredDataset cfg datasetID of
        None \<Rightarrow> outcomeNone
      | Some ds \<Rightarrow>
          (let matches = (offerID = d_ID ds @ offerIDSuffix); valid = isValid ds now in
           if matches \<and> valid then outcomeAgree
           else if matches \<and> \<not> valid then outcomeTerminate
           else if \<not> matches \<and> valid then outcomeOffer
           else outcomeOfferThenTerminate))"

definition decideAccept :: "Config \<Rightarrow> string \<Rightarrow> instant \<Rightarrow> negotiationOutcome" where
  "decideAccept cfg datasetID now =
     (case findConfiguredDataset cfg datasetID of
        None \<Rightarrow> outcomeTerminate
      | Some ds \<Rightarrow> if \<not> isValid ds now then outcomeTerminate else outcomeAgree)"

definition decideReRequestMatches :: "string \<Rightarrow> string \<Rightarrow> bool" where
  "decideReRequestMatches currentOfferID requestedOfferID \<longleftrightarrow> requestedOfferID = currentOfferID"

section \<open>Pushes and their state\<close>

definition terminateAfterOfferDelay :: instant where
  "terminateAfterOfferDelay = 200 * millisecond"

definition offerCallbackPath :: "string \<Rightarrow> string" where
  "offerCallbackPath pid = ''/negotiations/'' @ pid @ ''/offers''"
definition agreementCallbackPath :: "string \<Rightarrow> string" where
  "agreementCallbackPath pid = ''/negotiations/'' @ pid @ ''/agreement''"
definition eventCallbackPath :: "string \<Rightarrow> string" where
  "eventCallbackPath pid = ''/negotiations/'' @ pid @ ''/events''"
definition terminationCallbackPath :: "string \<Rightarrow> string" where
  "terminationCallbackPath pid = ''/negotiations/'' @ pid @ ''/termination''"

text \<open>
  The push comes first and its failure, or the refusal of its address, does not stop the state
  write; the write is conditional on the state the decision was made in.
\<close>

definition pushAndStore ::
  "handler \<Rightarrow> Negotiation \<Rightarrow> string \<Rightarrow> (string \<Rightarrow> string) \<Rightarrow> document \<Rightarrow> prog \<Rightarrow> prog" where
  "pushAndStore h n st path msg k =
     (let callbackURL = n_CallbackAddress n @ path (n_ConsumerPID n);
          store_state = Now (\<lambda>t. call (SetState (n_ProviderPID n) (n_State n) st t) (\<lambda>_. k))
      in AllowURL callbackURL (\<lambda>allowed.
           if \<not> allowed then store_state
           else pushCallback h callbackURL msg (n_CounterpartyID n) (\<lambda>pushed. store_state)))"

definition delayedTerminate :: "handler \<Rightarrow> Negotiation \<Rightarrow> prog" where
  "delayedTerminate h n = Sleep terminateAfterOfferDelay
     (call (Get (n_ProviderPID n)) (\<lambda>res. case res of
        Inl e \<Rightarrow> Done
      | Inr found \<Rightarrow> (case found of
          None \<Rightarrow> Done
        | Some current \<Rightarrow>
            if n_State current \<noteq> StateOffered then Done
            else newMessageID (\<lambda>mid. pushAndStore h current StateTerminated terminationCallbackPath
                   (DTermination (buildTerminationMessage mid current)) Done))))"

definition dispatch :: "handler \<Rightarrow> Negotiation \<Rightarrow> negotiationOutcome \<Rightarrow> prog" where
  "dispatch h n outcome =
     (if pushOffer outcome \<and> pushTermination outcome then
        newMessageID (\<lambda>mid. pushAndStore h n StateOffered offerCallbackPath
          (DOffer (buildOfferMessage (h_cfg h) mid n)) (Go (delayedTerminate h n) Done))
      else if pushOffer outcome then
        newMessageID (\<lambda>mid. pushAndStore h n StateOffered offerCallbackPath
          (DOffer (buildOfferMessage (h_cfg h) mid n)) Done)
      else if pushAgreement outcome then
        newMessageID (\<lambda>mid. Now (\<lambda>now. pushAndStore h n StateAgreed agreementCallbackPath
          (DAgreement (buildAgreementMessage (h_cfg h) mid now n))
          (Now (\<lambda>created. call (CreateAgreementIfNegotiationAgreed (n_ProviderPID n)
             [StateAgreed, StateVerified, StateFinalized]
             \<lparr>a_AgreementID = n_ProviderPID n, a_DatasetID = n_DatasetID n,
              a_ConsumerPID = n_ConsumerPID n, a_Origin = OriginNegotiated,
              a_CounterpartyID = n_CounterpartyID n, a_CreatedAt = created\<rparr>) (\<lambda>_. Done)))))
      else if pushTermination outcome then
        newMessageID (\<lambda>mid. pushAndStore h n StateTerminated terminationCallbackPath
          (DTermination (buildTerminationMessage mid n)) Done)
      else Done)"

section \<open>Endpoints\<close>

definition handleContractRequest :: "handler \<Rightarrow> request \<Rightarrow> prog" where
  "handleContractRequest h r =
     decode_body ContractNegotiationErrorType notCompactForm RequestMessage_fields zero_RequestMessage r
     (\<lambda>msg. checkEnvelope ContractNegotiationErrorType (rm_Context msg) (rm_Type msg)
       ContractRequestMessageType
       (if rm_ConsumerPID msg = '''' then
          writeError ContractNegotiationErrorType StatusBadRequest ''consumerPid is required''
        else if or_ID (rm_Offer msg) = '''' \<or> or_Target (rm_Offer msg) = '''' then
          writeError ContractNegotiationErrorType StatusBadRequest
            ''offer.@id and offer.target are required''
        else if rm_CallbackAddress msg = '''' then
          writeError ContractNegotiationErrorType StatusBadRequest ''callbackAddress is required''
        else Uuid (\<lambda>u. case u of
          None \<Rightarrow> WriteHeader StatusInternalServerError Done
        | Some providerPID \<Rightarrow> Now (\<lambda>now.
            let n = \<lparr>n_ProviderPID = providerPID, n_ConsumerPID = rm_ConsumerPID msg,
              n_State = StateRequested, n_DatasetID = or_Target (rm_Offer msg),
              n_OfferID = or_ID (rm_Offer msg), n_CallbackAddress = rm_CallbackAddress msg,
              n_Rerequested = False, n_CounterpartyID = rq_Issuer r,
              n_CreatedAt = now, n_UpdatedAt = now\<rparr>
            in call (Create n) (\<lambda>res. case res of
                 Inl e \<Rightarrow> WriteHeader StatusInternalServerError Done
               | Inr v \<Rightarrow> newMessageID (\<lambda>mid.
                   writeJSON StatusCreated (DState (buildNegotiationStateDocument mid n))
                     (Go (dispatch h n (decideInitialRequest (h_cfg h) (n_DatasetID n) (n_OfferID n) now))
                       Done)))))))"

definition lookup :: "handler \<Rightarrow> request \<Rightarrow> (Negotiation \<Rightarrow> prog) \<Rightarrow> prog" where
  "lookup h r k = call (Get (rq_ID r)) (\<lambda>res. case res of
       Inl e \<Rightarrow> WriteHeader StatusInternalServerError Done
     | Inr None \<Rightarrow> writeError ContractNegotiationErrorType StatusNotFound
         (''no negotiation with id '' @ rq_ID r)
     | Inr (Some n) \<Rightarrow> refuseIfNotParty r ContractNegotiationErrorType (n_CounterpartyID n)
         (AuthRequired (h_cfg h)) (k n))"

definition handleReRequest :: "handler \<Rightarrow> request \<Rightarrow> prog" where
  "handleReRequest h r = lookup h r (\<lambda>n.
     decode_body ContractNegotiationErrorType notCompactForm RequestMessage_fields zero_RequestMessage r
     (\<lambda>msg. checkEnvelope ContractNegotiationErrorType (rm_Context msg) (rm_Type msg)
       ContractRequestMessageType
       (if n_State n \<noteq> StateOffered then
          writeError ContractNegotiationErrorType StatusBadRequest
            (''a counter-offer is only valid from OFFERED, negotiation is '' @ n_State n)
        else call (SetRerequested (n_ProviderPID n)) (\<lambda>res. case res of
          Inl e \<Rightarrow>
            if e = ErrStateChanged then
              writeError ContractNegotiationErrorType StatusBadRequest
                ''this negotiation already received its one re-request while OFFERED''
            else WriteHeader StatusInternalServerError Done
        | Inr u \<Rightarrow> WriteHeader StatusOK
            (if \<not> decideReRequestMatches (n_OfferID n) (or_ID (rm_Offer msg)) then
               newMessageID (\<lambda>mid. Go (pushAndStore h n StateTerminated terminationCallbackPath
                 (DTermination (buildTerminationMessage mid n)) Done) Done)
             else Done)))))"

definition handleProviderAcceptedEvent :: "handler \<Rightarrow> request \<Rightarrow> Negotiation \<Rightarrow> prog" where
  "handleProviderAcceptedEvent h r n =
     refuseIfNotParty r ContractNegotiationErrorType (n_CounterpartyID n) (AuthRequired (h_cfg h))
      (decode_body ContractNegotiationErrorType notCompactForm EventBody_fields zero_EventBody r (\<lambda>msg.
        checkEnvelope ContractNegotiationErrorType (eb_Context msg) (eb_Type msg)
          ContractNegotiationEventMessageType
          (if eb_EventType msg \<noteq> eventTypeAccepted then
             writeError ContractNegotiationErrorType StatusBadRequest ''eventType must be ACCEPTED''
           else if n_State n \<noteq> StateOffered then
             writeError ContractNegotiationErrorType StatusBadRequest
               (''accept is only valid from OFFERED, negotiation is '' @ n_State n)
           else Now (\<lambda>now. call (SetState (n_ProviderPID n) (n_State n) StateAccepted now) (\<lambda>res.
             case res of
               Inl e \<Rightarrow> writeStateUpdateError (n_ProviderPID n) e
             | Inr u \<Rightarrow> WriteHeader StatusOK
                 (let n' = n\<lparr>n_State := StateAccepted\<rparr> in
                  Go (dispatch h n' (decideAccept (h_cfg h) (n_DatasetID n') now)) Done))))))"

definition handleVerification :: "handler \<Rightarrow> request \<Rightarrow> prog" where
  "handleVerification h r = lookup h r (\<lambda>n.
     decode_body ContractNegotiationErrorType notCompactForm envelope_fields zero_envelope r (\<lambda>msg.
       checkEnvelope ContractNegotiationErrorType (ev_Context msg) (ev_Type msg)
         ContractAgreementVerificationMessageType
         (if n_State n \<noteq> StateAgreed then
            writeError ContractNegotiationErrorType StatusBadRequest
              (''verification is only valid from AGREED, negotiation is '' @ n_State n)
          else Now (\<lambda>t. call (SetState (n_ProviderPID n) (n_State n) StateVerified t) (\<lambda>res.
            case res of
              Inl e \<Rightarrow> writeStateUpdateError (n_ProviderPID n) e
            | Inr u \<Rightarrow> WriteHeader StatusOK
                (let n' = n\<lparr>n_State := StateVerified\<rparr> in
                 newMessageID (\<lambda>mid.
                   if (case findConfiguredDataset (h_cfg h) (n_DatasetID n') of
                         None \<Rightarrow> False | Some ds \<Rightarrow> d_TerminateOnVerify ds) then
                     Go (pushAndStore h n' StateTerminated terminationCallbackPath
                       (DTermination (buildTerminationMessage mid n')) Done) Done
                   else
                     Go (pushAndStore h n' StateFinalized eventCallbackPath
                       (DEvent (buildFinalizedEventMessage mid n')) Done) Done)))))))"

definition handleProviderTermination :: "handler \<Rightarrow> request \<Rightarrow> Negotiation \<Rightarrow> prog" where
  "handleProviderTermination h r n =
     refuseIfNotParty r ContractNegotiationErrorType (n_CounterpartyID n) (AuthRequired (h_cfg h))
      (decode_body ContractNegotiationErrorType notCompactForm envelope_fields zero_envelope r (\<lambda>msg.
        checkEnvelope ContractNegotiationErrorType (ev_Context msg) (ev_Type msg)
          ContractNegotiationTerminationMessageType
          (if n_State n = StateFinalized \<or> n_State n = StateTerminated then
             writeError ContractNegotiationErrorType StatusBadRequest
               (''negotiation cannot be terminated from '' @ n_State n)
           else Now (\<lambda>t. call (SetState (n_ProviderPID n) (n_State n) StateTerminated t) (\<lambda>res.
             case res of
               Inl e \<Rightarrow> writeStateUpdateError (n_ProviderPID n) e
             | Inr u \<Rightarrow> WriteHeader StatusOK Done)))))"

text \<open>The three endpoints both roles serve: the provider's table first, then the consumer's.\<close>

definition byRole ::
  "request \<Rightarrow> (Negotiation \<Rightarrow> prog) \<Rightarrow> (ConsumerNegotiation \<Rightarrow> prog) \<Rightarrow> prog" where
  "byRole r provider consumer = call (Get (rq_ID r)) (\<lambda>res. case res of
       Inl e \<Rightarrow> WriteHeader StatusInternalServerError Done
     | Inr (Some n) \<Rightarrow> provider n
     | Inr None \<Rightarrow> call (GetConsumer (rq_ID r)) (\<lambda>res'. case res' of
           Inl e \<Rightarrow> WriteHeader StatusInternalServerError Done
         | Inr (Some cn) \<Rightarrow> consumer cn
         | Inr None \<Rightarrow> writeError ContractNegotiationErrorType StatusNotFound
             (''no negotiation with id '' @ rq_ID r)))"

definition handleEvent :: "handler \<Rightarrow> request \<Rightarrow> prog" where
  "handleEvent h r =
     byRole r (handleProviderAcceptedEvent h r) (handleConsumerFinalizedEvent h r)"

definition handleTermination :: "handler \<Rightarrow> request \<Rightarrow> prog" where
  "handleTermination h r =
     byRole r (handleProviderTermination h r) (handleConsumerTermination h r)"

definition handleGetNegotiation :: "handler \<Rightarrow> request \<Rightarrow> prog" where
  "handleGetNegotiation h r = byRole r
     (\<lambda>n. refuseIfNotParty r ContractNegotiationErrorType (n_CounterpartyID n) (AuthRequired (h_cfg h))
        (newMessageID (\<lambda>mid. writeJSON StatusOK (DState (buildNegotiationStateDocument mid n)) Done)))
     (\<lambda>cn. refuseIfNotParty r ContractNegotiationErrorType (c_CounterpartyID cn) (AuthRequired (h_cfg h))
        (newMessageID (\<lambda>mid.
          writeJSON StatusOK (DState (buildConsumerNegotiationStateDocument mid cn)) Done)))"

section \<open>One answer\<close>

lemma responds_pushAndStore [responds_rules]:
  "responds k n \<Longrightarrow> responds (pushAndStore h neg st path msg k) n"
  by (auto simp: pushAndStore_def Let_def intro!: responds_rules)

lemma responds_provider_goroutines [simp]:
  "responds (delayedTerminate h n) 0" "responds (dispatch h n out) 0"
proof -
  show *: "responds (delayedTerminate h n) 0" for n
    by (auto simp: delayedTerminate_def intro!: responds_rules split: option.splits sum.splits)
  show "responds (dispatch h n out) 0"
    by (auto simp: dispatch_def * intro!: responds_rules)
qed

lemma responds_lookup [responds_rules]:
  "(\<And>c. responds (k c) (Suc 0)) \<Longrightarrow> responds (lookup h r k) (Suc 0)"
  by (auto simp: lookup_def intro!: responds_rules split: sum.splits option.splits)

lemma responds_byRole [responds_rules]:
  "(\<And>n. responds (f n) (Suc 0)) \<Longrightarrow> (\<And>c. responds (g c) (Suc 0)) \<Longrightarrow>
     responds (byRole r f g) (Suc 0)"
  by (auto simp: byRole_def intro!: responds_rules split: sum.splits option.splits)

lemma responds_negotiation:
  "responds (handleContractRequest h r) (Suc 0)" "responds (handleReRequest h r) (Suc 0)"
  "responds (handleEvent h r) (Suc 0)" "responds (handleVerification h r) (Suc 0)"
  "responds (handleTermination h r) (Suc 0)" "responds (handleGetNegotiation h r) (Suc 0)"
  by (auto simp: handleContractRequest_def handleReRequest_def handleEvent_def
      handleProviderAcceptedEvent_def handleVerification_def handleTermination_def
      handleProviderTermination_def handleGetNegotiation_def Let_def
      intro!: responds_rules responds_negotiation_consumer split: option.splits sum.splits)

section \<open>Safety\<close>

lemma safe_pushAndStore:
  assumes "known_negotiation n (db w)" and "AuthRequired (h_cfg h) \<Longrightarrow> n_CounterpartyID n = p"
    and "negotiation_edge (n_State n) st"
    and "st \<in> {StateOffered, StateAccepted} \<Longrightarrow> n_OfferID n \<noteq> n_DatasetID n @ offerIDSuffix"
    and "\<And>w'. rely h w w' \<Longrightarrow> known_negotiation n (db w') \<Longrightarrow> safe (rely h) (acts_for h p) k w'"
  shows "safe (rely h) (acts_for h p) (pushAndStore h n st path msg k) w"
  unfolding pushAndStore_def Let_def
  by (intro safe_structure safe_pushCallback safe_SetState [where n = n]) (use assms in auto)

lemma safe_delayedTerminate:
  assumes "AuthRequired (h_cfg h) \<Longrightarrow> n_CounterpartyID n = p" and "known_negotiation n (db w)"
  shows "safe (rely h) (acts_for h p) (delayedTerminate h n) w"
proof -
  have "n_CounterpartyID current = n_CounterpartyID n"
    if "rely h w w'" and "find_negotiation (n_ProviderPID n) (db w') = Some current" for w' current
    using known_negotiation_later [OF that(1) assms(2)] that(2)
    by (auto simp: known_negotiation_def same_negotiation_def)
  then show ?thesis
    unfolding delayedTerminate_def using assms(1)
    by (intro safe_structure safe_Get safe_newMessageID) (auto intro!: safe_pushAndStore)
qed

text \<open>The goroutine that carries out a decision, for each state it is decided in.\<close>

lemma safe_dispatch:
  assumes "known_negotiation n (db w)" and "AuthRequired (h_cfg h) \<Longrightarrow> n_CounterpartyID n = p"
    and "n_State n \<in> {StateRequested, StateAccepted}"
    and "pushOffer out \<Longrightarrow> n_State n = StateRequested \<and> n_OfferID n \<noteq> n_DatasetID n @ offerIDSuffix"
  shows "safe (rely h) (acts_for h p) (dispatch h n out) w"
  unfolding dispatch_def
  by (intro safe_structure safe_newMessageID safe_pushAndStore safe_delayedTerminate
      safe_CreateAgreementIfNegotiationAgreed [where n = n])
    (use assms in \<open>auto simp: agreement_issued_def intro: negotiation_edge_terminate\<close>)

lemma pushOffer_decideInitialRequest:
  "pushOffer (decideInitialRequest cfg datasetID offerID now) \<Longrightarrow> offerID \<noteq> datasetID @ offerIDSuffix"
  by (auto simp: decideInitialRequest_def outcome_defs Let_def findConfiguredDataset_def find_Some_iff
      split: option.splits if_splits)

lemma pushOffer_decideAccept: "\<not> pushOffer (decideAccept cfg datasetID now)"
  by (auto simp: decideAccept_def outcome_defs split: option.splits)

lemma safe_handleContractRequest:
  "safe (rely h) (acts_for h (rq_Issuer r)) (handleContractRequest h r) w"
  unfolding handleContractRequest_def WriteHeader_def writeJSON_def
  by (intro safe_decode_body safe_checkEnvelope safe_structure safe_Create safe_newMessageID safe_dispatch)
    (auto simp: negotiation_ok_def dest: pushOffer_decideInitialRequest)

lemma safe_lookup:
  assumes "\<And>w' n. rely h w w' \<Longrightarrow> known_negotiation n (db w') \<Longrightarrow> negotiation_ok n \<Longrightarrow>
      (AuthRequired (h_cfg h) \<Longrightarrow> n_CounterpartyID n = rq_Issuer r) \<Longrightarrow>
      safe (rely h) (acts_for h p) (k n) w'"
  shows "safe (rely h) (acts_for h p) (lookup h r k) w"
  unfolding lookup_def
  by (rule safe_Get) (use assms in \<open>auto intro!: safe_refuseIfNotParty\<close>)

lemma safe_handleReRequest: "safe (rely h) (acts_for h (rq_Issuer r)) (handleReRequest h r) w"
  unfolding handleReRequest_def WriteHeader_def
proof (rule safe_lookup, goal_cases)
  case (1 w' n)
  then show ?case
    by (intro safe_decode_body safe_checkEnvelope safe_structure safe_SetRerequested [where n = n]
        safe_newMessageID safe_pushAndStore) auto
qed

lemma safe_handleVerification: "safe (rely h) (acts_for h (rq_Issuer r)) (handleVerification h r) w"
  unfolding handleVerification_def WriteHeader_def
proof (rule safe_lookup, goal_cases)
  case (1 w' n)
  then show ?case
    by (intro safe_decode_body safe_checkEnvelope safe_structure safe_SetState [where n = n]
        safe_newMessageID safe_pushAndStore) auto
qed

lemma safe_provider_events:
  assumes "known_negotiation n (db w)" and "negotiation_ok n"
  shows "safe (rely h) (acts_for h (rq_Issuer r)) (handleProviderAcceptedEvent h r n) w"
    and "safe (rely h) (acts_for h (rq_Issuer r)) (handleProviderTermination h r n) w"
  unfolding handleProviderAcceptedEvent_def handleProviderTermination_def WriteHeader_def
  by (intro safe_refuseIfNotParty safe_decode_body safe_checkEnvelope safe_structure
      safe_SetState [where n = n] safe_dispatch; use assms pushOffer_decideAccept in
      \<open>auto simp: negotiation_ok_def\<close>)+

lemma safe_byRole:
  assumes "\<And>w' n. rely h w w' \<Longrightarrow> known_negotiation n (db w') \<Longrightarrow> negotiation_ok n \<Longrightarrow>
      safe (rely h) (acts_for h p) (f n) w'"
    and "\<And>w' c. rely h w w' \<Longrightarrow> known_consumer c (db w') \<Longrightarrow> consumer_ok h (db w') c \<Longrightarrow>
      safe (rely h) (acts_for h p) (g c) w'"
  shows "safe (rely h) (acts_for h p) (byRole r f g) w"
proof -
  have "safe (rely h) (acts_for h p) (g c) w''"
    if "rely h w w'" "rely h w' w''" "known_consumer c (db w'')" "consumer_ok h (db w'') c" for w' w'' c
    using assms(2) conn.R_trans [OF that(1,2)] that(3,4) by blast
  then show ?thesis
    unfolding byRole_def using assms(1)
    by (intro safe_Get) (auto intro!: safe_GetConsumer)
qed

lemma safe_shared_endpoints:
  "safe (rely h) (acts_for h (rq_Issuer r)) (handleEvent h r) w"
  "safe (rely h) (acts_for h (rq_Issuer r)) (handleTermination h r) w"
  "safe (rely h) (acts_for h (rq_Issuer r)) (handleGetNegotiation h r) w"
  unfolding handleEvent_def handleTermination_def handleGetNegotiation_def
  by (auto intro!: safe_byRole safe_provider_events safe_consumer_events safe_refuseIfNotParty
      safe_newMessageID)

end
