(* ===== verification/CatalogProtocol.thy ===== *)
theory CatalogProtocol
  imports Negotiation
begin

text \<open>
  The catalog protocol: the advertised catalog and its endpoints (\<^verbatim>\<open>catalog.go\<close>,
  \<^verbatim>\<open>catalog_handler.go\<close>), the version document (\<^verbatim>\<open>version.go\<close>), and the
  consumer's lookup of a counterparty's catalog (\<^verbatim>\<open>catalog_client.go\<close>).  Nothing here
  writes to the store.  The theory proves that every advertised offer is one the provider agrees
  to while its window is open, what a lookup reports of a counterparty's document, and that every
  endpoint answers once.
\<close>

section \<open>The advertised catalog\<close>

definition buildDataset :: "string \<Rightarrow> Dataset \<Rightarrow> DatasetNode" where
  "buildDataset publicURL d =
     (let endpoint = publicURL @ VersionPath in
      \<lparr>dn_Context = [], dn_ID = d_ID d, dn_Type = DatasetType,
       dn_HasPolicy = [\<lparr>po_ID = d_ID d @ offerIDSuffix, po_Type = OfferType,
         po_Permission = buildPermission (d_ValidityUntil d)\<rparr>],
       dn_Distribution = [\<lparr>di_Type = DistributionType, di_Format = servedFormat,
         di_AccessService = \<lparr>ds_ID = endpoint, ds_Type = DataServiceType,
           ds_EndpointURL = endpoint\<rparr>\<rparr>]\<rparr>)"

definition buildCatalog :: "Config \<Rightarrow> Catalog" where
  "buildCatalog cfg =
     \<lparr>ca_Context = [ContextURL], ca_ID = PublicURL cfg @ catalogPath, ca_Type = CatalogType,
      ca_ParticipantID = ParticipantID cfg,
      ca_Dataset = map (buildDataset (PublicURL cfg)) (Datasets cfg)\<rparr>"

definition findDataset :: "Config \<Rightarrow> string \<Rightarrow> DatasetNode option" where
  "findDataset cfg ident = (case find (\<lambda>d. d_ID d = ident) (Datasets cfg) of
     None \<Rightarrow> None
   | Some d \<Rightarrow> Some ((buildDataset (PublicURL cfg) d)\<lparr>dn_Context := [ContextURL]\<rparr>))"

definition hasFilter :: "CatalogRequestMessage \<Rightarrow> bool" where
  "hasFilter m \<longleftrightarrow> (case cq_Filter m of None \<Rightarrow> False | Some j \<Rightarrow> j \<noteq> JNull)"

definition handleCatalogRequest :: "handler \<Rightarrow> request \<Rightarrow> prog" where
  "handleCatalogRequest h r =
     decode_body CatalogErrorType notCompactForm CatalogRequestMessage_fields
       zero_CatalogRequestMessage r (\<lambda>msg.
       checkEnvelope CatalogErrorType (cq_Context msg) (cq_Type msg) CatalogRequestMessageType
         (if hasFilter msg then
            writeError CatalogErrorType StatusBadRequest ''catalog filtering is not implemented''
          else writeJSON StatusOK (DCatalog (buildCatalog (h_cfg h))) Done))"

definition handleDatasetRequest :: "handler \<Rightarrow> request \<Rightarrow> prog" where
  "handleDatasetRequest h r = (case findDataset (h_cfg h) (rq_ID r) of
     None \<Rightarrow> writeError CatalogErrorType StatusNotFound (''no dataset with id '' @ rq_ID r)
   | Some ds \<Rightarrow> writeJSON StatusOK (DDataset ds) Done)"

definition versionDocument :: VersionResponse where
  "versionDocument = \<lparr>vr_Context = [ContextURL],
     vr_ProtocolVersions = [\<lparr>pv_Version = Version, pv_Path = VersionPath, pv_Binding = Binding\<rparr>]\<rparr>"

definition handleVersion :: prog where
  "handleVersion = writeJSON StatusOK (DVersion versionDocument) Done"

section \<open>A counterparty's catalog\<close>

record remoteOffer =
  ro_ID :: string

record remoteDataset =
  rs_ID :: string
  rs_HasPolicy :: "remoteOffer list"
  rs_Distribution :: "json option"

record remoteCatalog =
  rc_ParticipantID :: string
  rc_Dataset :: "remoteDataset list"
  rc_Catalog :: "json list"

definition zero_remoteOffer :: remoteOffer where "zero_remoteOffer = \<lparr>ro_ID = ''''\<rparr>"

definition zero_remoteDataset :: remoteDataset where
  "zero_remoteDataset = \<lparr>rs_ID = '''', rs_HasPolicy = [], rs_Distribution = None\<rparr>"

definition zero_remoteCatalog :: remoteCatalog where
  "zero_remoteCatalog = \<lparr>rc_ParticipantID = '''', rc_Dataset = [], rc_Catalog = []\<rparr>"

definition remoteOffer_fields :: "remoteOffer json_field list" where
  "remoteOffer_fields = [field_of ''@id'' ro_ID (\<lambda>x. ro_ID_update (\<lambda>_. x)) dec_string]"

definition remoteDataset_fields :: "remoteDataset json_field list" where
  "remoteDataset_fields =
     [field_of ''@id'' rs_ID (\<lambda>x. rs_ID_update (\<lambda>_. x)) dec_string,
      field_of ''hasPolicy'' rs_HasPolicy (\<lambda>x. rs_HasPolicy_update (\<lambda>_. x))
        (dec_list (dec_struct remoteOffer_fields) zero_remoteOffer),
      field_of ''distribution'' rs_Distribution (\<lambda>x. rs_Distribution_update (\<lambda>_. x)) dec_raw]"

definition remoteCatalog_fields :: "remoteCatalog json_field list" where
  "remoteCatalog_fields =
     [field_of ''participantId'' rc_ParticipantID (\<lambda>x. rc_ParticipantID_update (\<lambda>_. x)) dec_string,
      field_of ''dataset'' rc_Dataset (\<lambda>x. rc_Dataset_update (\<lambda>_. x))
        (dec_list (dec_struct remoteDataset_fields) zero_remoteDataset),
      field_of ''catalog'' rc_Catalog (\<lambda>x. rc_Catalog_update (\<lambda>_. x)) (dec_list dec_json JNull)]"

text \<open>
  A node read as a map of its exact keys, the last of a repeated key winning; \<open>None\<close> is the empty
  \<^verbatim>\<open>RawMessage\<close> of an absent member.
\<close>

definition distributionFormat :: "json option \<Rightarrow> string" where
  "distributionFormat raw = (case raw of
     Some (JObj ms) \<Rightarrow> (case map_of (rev ms) ''format'' of Some (JStr s) \<Rightarrow> s | _ \<Rightarrow> '''')
   | _ \<Rightarrow> '''')"

definition distributions :: "remoteDataset \<Rightarrow> json option list" where
  "distributions d = (case rs_Distribution d of
     Some (JArr js) \<Rightarrow> map Some js
   | Some JNull \<Rightarrow> []
   | raw \<Rightarrow> [raw])"

primrec pick_format :: "string \<Rightarrow> json option list \<Rightarrow> string" where
  "pick_format advertised [] = advertised"
| "pick_format advertised (raw # raws) =
     (let f = distributionFormat raw in
      if f = '''' then pick_format advertised raws
      else if f = servedFormat then f
      else if advertised = '''' then pick_format f raws
      else pick_format advertised raws)"

definition remote_format :: "remoteDataset \<Rightarrow> string" where
  "remote_format d = pick_format '''' (distributions d)"

text \<open>The pairs and how many datasets advertised no offer.\<close>

definition pairs :: "remoteCatalog \<Rightarrow> datasetOffer list \<times> nat" where
  "pairs c =
     (concat (map (\<lambda>d. map (\<lambda>o'. \<lparr>do_DatasetID = rs_ID d, do_OfferID = ro_ID o',
        do_Format = remote_format d\<rparr>) (rs_HasPolicy d)) (rc_Dataset c)),
      length (filter (\<lambda>d. rs_HasPolicy d = []) (rc_Dataset c)))"

section \<open>Looking one up\<close>

definition consumerCatalogPath :: string where "consumerCatalogPath = ''/catalog/request''"

definition StatusBadGateway :: int where "StatusBadGateway = 502"

definition catalog_of_reply :: "http_result \<Rightarrow> remoteCatalog option" where
  "catalog_of_reply res = (case res of
     HttpFailed c \<Rightarrow> None
   | HttpOk resp \<Rightarrow>
       if hr_Status resp \<ge> 300 then None
       else (case decode (dec_struct remoteCatalog_fields) zero_remoteCatalog (hr_Body resp) of
               None \<Rightarrow> None
             | Some c \<Rightarrow> if rc_ParticipantID c = '''' then None else Some c))"

definition fetchCatalog ::
  "handler \<Rightarrow> string \<Rightarrow> string \<Rightarrow> (remoteCatalog option \<Rightarrow> prog) \<Rightarrow> prog" where
  "fetchCatalog h baseURL aud k =
     mintOutboundCredential h aud (\<lambda>(authorization, maySend).
       if \<not> maySend then k None
       else Http (post (baseURL @ consumerCatalogPath)
                   (DCatalogRequest \<lparr>cq_Context = [ContextURL],
                      cq_Type = CatalogRequestMessageType, cq_Filter = None\<rparr>) authorization)
              (\<lambda>res. k (catalog_of_reply res)))"

definition handleCatalogLookup :: "handler \<Rightarrow> request \<Rightarrow> prog" where
  "handleCatalogLookup h r = usable h (\<lambda>ok.
     if \<not> ok then refuseExpiredRoster CatalogErrorType
     else if rq_ProviderID r = '''' then
       writeError CatalogErrorType StatusBadRequest ''providerId is required''
     else (case h_providerAddress h of
       None \<Rightarrow> writeError CatalogErrorType StatusBadRequest
         ''this connector is running without a roster, so it cannot resolve a participant to an address''
     | Some addressFor \<Rightarrow>
         requireKnown h CatalogErrorType (rq_ProviderID r)
          (case addressFor (rq_ProviderID r) of
             None \<Rightarrow> writeError CatalogErrorType StatusBadRequest
               (''the roster lists no connector_address for providerId '' @ rq_ProviderID r)
           | Some address \<Rightarrow> AllowURL address (\<lambda>allowed.
               if \<not> allowed then writeError CatalogErrorType StatusBadRequest
                 (''the roster's connector_address for '' @ rq_ProviderID r @
                  '' is not an address this connector will send to'')
               else fetchCatalog h address (rq_ProviderID r) (\<lambda>fetched. case fetched of
                 None \<Rightarrow> writeError CatalogErrorType StatusBadGateway
                   (''the catalog request to '' @ rq_ProviderID r @ '' did not succeed'')
               | Some c \<Rightarrow>
                   if rc_ParticipantID c \<noteq> rq_ProviderID r then
                     writeError CatalogErrorType StatusBadRequest
                       (''the catalog at that address declares participantId '' @
                        rc_ParticipantID c @ '', not '' @ rq_ProviderID r)
                   else writeJSON StatusOK (DCatalogLookup
                     \<lparr>cl_ParticipantID = rc_ParticipantID c, cl_ConnectorAddress = address,
                      cl_Datasets = fst (pairs c)\<rparr>) Done)))))"

section \<open>The document on the wire\<close>

definition json_of_Offer :: "Offer \<Rightarrow> json" where
  "json_of_Offer p = JObj [(''@id'', JStr (po_ID p)), (''@type'', JStr (po_Type p)),
     (''permission'', JArr (map json_of_Permission (po_Permission p)))]"

definition json_of_Distribution :: "Distribution \<Rightarrow> json" where
  "json_of_Distribution d = JObj [(''@type'', JStr (di_Type d)), (''format'', JStr (di_Format d)),
     (''accessService'', JObj [(''@id'', JStr (ds_ID (di_AccessService d))),
        (''@type'', JStr (ds_Type (di_AccessService d))),
        (''endpointURL'', JStr (ds_EndpointURL (di_AccessService d)))])]"

definition json_of_DatasetNode :: "DatasetNode \<Rightarrow> json" where
  "json_of_DatasetNode d = JObj
     ((if dn_Context d = [] then [] else [(''@context'', JArr (map JStr (dn_Context d)))]) @
      [(''@id'', JStr (dn_ID d)), (''@type'', JStr (dn_Type d)),
       (''hasPolicy'', JArr (map json_of_Offer (dn_HasPolicy d))),
       (''distribution'', JArr (map json_of_Distribution (dn_Distribution d)))])"

definition json_of_Catalog :: "Catalog \<Rightarrow> json" where
  "json_of_Catalog c = JObj
     ([(''@context'', JArr (map JStr (ca_Context c))), (''@id'', JStr (ca_ID c)),
       (''@type'', JStr (ca_Type c)), (''participantId'', JStr (ca_ParticipantID c))] @
      (if ca_Dataset c = [] then []
       else [(''dataset'', JArr (map json_of_DatasetNode (ca_Dataset c)))]))"

lemma decode_Offer:
  "dec_struct remoteOffer_fields (json_of_Offer p) zero_remoteOffer = Some \<lparr>ro_ID = po_ID p\<rparr>"
  by (simp add: dec_struct_def json_of_Offer_def remoteOffer_fields_def zero_remoteOffer_def
      lookup_field_def field_of_def dec_string_def equal_fold_def ascii_lower_def)

lemma decode_DatasetNode:
  "dn_Context d = [] \<Longrightarrow> dec_struct remoteDataset_fields (json_of_DatasetNode d) zero_remoteDataset =
     Some \<lparr>rs_ID = dn_ID d, rs_HasPolicy = map (\<lambda>p. \<lparr>ro_ID = po_ID p\<rparr>) (dn_HasPolicy d),
       rs_Distribution = Some (JArr (map json_of_Distribution (dn_Distribution d)))\<rparr>"
proof -
  have "dec_elems (\<lambda>x. dec_struct remoteOffer_fields x zero_remoteOffer) (map json_of_Offer ps) =
      Some (map (\<lambda>p. \<lparr>ro_ID = po_ID p\<rparr>) ps)" for ps
    by (induction ps) (simp_all add: decode_Offer)
  then show "dn_Context d = [] \<Longrightarrow> ?thesis"
    by (simp add: dec_struct_def json_of_DatasetNode_def remoteDataset_fields_def
        zero_remoteDataset_def lookup_field_def field_of_def dec_string_def dec_list_def dec_raw_def
        equal_fold_def ascii_lower_def)
qed

lemma decode_Catalog:
  assumes "\<forall>d \<in> set (ca_Dataset c). dn_Context d = []"
  shows "decode (dec_struct remoteCatalog_fields) zero_remoteCatalog (Some (json_of_Catalog c)) =
    Some \<lparr>rc_ParticipantID = ca_ParticipantID c,
      rc_Dataset = map (\<lambda>d. \<lparr>rs_ID = dn_ID d,
        rs_HasPolicy = map (\<lambda>p. \<lparr>ro_ID = po_ID p\<rparr>) (dn_HasPolicy d),
        rs_Distribution = Some (JArr (map json_of_Distribution (dn_Distribution d)))\<rparr>) (ca_Dataset c),
      rc_Catalog = []\<rparr>"
proof -
  have "\<forall>d \<in> set ds. dn_Context d = [] \<Longrightarrow>
    dec_elems (\<lambda>x. dec_struct remoteDataset_fields x zero_remoteDataset) (map json_of_DatasetNode ds) =
      Some (map (\<lambda>d. \<lparr>rs_ID = dn_ID d,
        rs_HasPolicy = map (\<lambda>p. \<lparr>ro_ID = po_ID p\<rparr>) (dn_HasPolicy d),
        rs_Distribution = Some (JArr (map json_of_Distribution (dn_Distribution d)))\<rparr>) ds)" for ds
    by (induction ds) (simp_all add: decode_DatasetNode)
  from this [OF assms] show ?thesis
    by (simp add: decode_def dec_struct_def json_of_Catalog_def remoteCatalog_fields_def
        zero_remoteCatalog_def lookup_field_def field_of_def dec_string_def dec_list_def
        equal_fold_def ascii_lower_def)
qed

lemma advertised_pairs:
  "map_option pairs (decode (dec_struct remoteCatalog_fields) zero_remoteCatalog
     (Some (json_of_Catalog (buildCatalog cfg)))) =
   Some (map (\<lambda>d. \<lparr>do_DatasetID = d_ID d, do_OfferID = d_ID d @ offerIDSuffix,
     do_Format = servedFormat\<rparr>) (Datasets cfg), 0)"
  by (subst decode_Catalog)
    (auto simp: buildCatalog_def buildDataset_def Let_def pairs_def remote_format_def
      distributions_def distributionFormat_def json_of_Distribution_def servedFormat_def comp_def
      concat_map_singleton)

text \<open>The provider's own decision on a pair it advertises.\<close>

lemma find_distinct: "distinct (map f xs) \<Longrightarrow> x \<in> set xs \<Longrightarrow> find (\<lambda>y. f y = f x) xs = Some x"
  by (induction xs) auto

lemma decide_advertised:
  assumes "distinct (map d_ID (Datasets cfg))" and "d \<in> set (Datasets cfg)"
  shows "decideInitialRequest cfg (d_ID d) (d_ID d @ offerIDSuffix) now =
    (if isValid d now then outcomeAgree else outcomeTerminate)"
proof -
  have "findConfiguredDataset cfg (d_ID d) = Some d"
    unfolding findConfiguredDataset_def using assms by (rule find_distinct)
  then show ?thesis by (simp add: decideInitialRequest_def Let_def)
qed

section \<open>One answer, no write\<close>

lemma responds_fetchCatalog [responds_rules]:
  "(\<And>c. responds (k c) n) \<Longrightarrow> responds (fetchCatalog h url aud k) n"
  by (auto simp: fetchCatalog_def intro!: responds_rules)

lemma responds_catalog:
  "responds (handleCatalogRequest h r) (Suc 0)" "responds (handleDatasetRequest h r) (Suc 0)"
  "responds handleVersion (Suc 0)" "responds (handleCatalogLookup h r) (Suc 0)"
  by (auto simp: handleCatalogRequest_def handleDatasetRequest_def handleVersion_def
      handleCatalogLookup_def intro!: responds_rules split: option.splits)

lemma safe_fetchCatalog: "(\<And>c. safe R G (k c) w) \<Longrightarrow> safe R G (fetchCatalog h url aud k) w"
  by (auto simp: fetchCatalog_def intro!: safe_mint)

lemma safe_handleCatalogLookup: "safe R G (handleCatalogLookup h r) w"
  unfolding handleCatalogLookup_def writeJSON_def
  by (intro safe_usable safe_structure safe_requireKnown safe_fetchCatalog) simp_all

lemma safe_catalog:
  "safe R G (handleCatalogRequest h r) w" "safe R G (handleDatasetRequest h r) w"
  "safe R G handleVersion w"
  by (auto simp: handleCatalogRequest_def handleDatasetRequest_def handleVersion_def
      intro!: safe_decode_body safe_checkEnvelope split: option.splits)

end
