(* ===== verification/Ranges.thy ===== *)
theory Ranges
  imports GoTime
begin

text \<open>
  The range headers of a data transfer: what the consumer asks for and reads back
  (\<^verbatim>\<open>transfer_consumer_handler.go\<close>), what the provider reads and states
  (\<^verbatim>\<open>data_handler.go\<close>), over Go's \<^verbatim>\<open>strconv.ParseInt\<close> at 64 bits.
  The theory proves that each side reads what the other writes.
\<close>

section \<open>Integers on the wire\<close>

text \<open>
  \<^verbatim>\<open>strconv.ParseInt(s, 10, 64)\<close>: an optional sign, at least one digit, nothing else,
  and a value an \<^verbatim>\<open>int64\<close> holds.
\<close>

definition ParseInt :: "string \<Rightarrow> int64 option" where
  "ParseInt s =
     (let (neg, ds) = (case s of
            [] \<Rightarrow> (False, [])
          | c # cs \<Rightarrow> if c = CHR ''+'' then (False, cs)
                      else if c = CHR ''-'' then (True, cs) else (False, s))
      in if ds = [] then None
         else case digits_val 0 ds of
           None \<Rightarrow> None
         | Some v \<Rightarrow>
             if neg then (if v \<le> 2 ^ 63 then Some (word_of_int (- v)) else None)
             else if v < 2 ^ 63 then Some (word_of_int v) else None)"

text \<open>\<^verbatim>\<open>strconv.FormatInt\<close> and the verb \<^verbatim>\<open>%d\<close>.\<close>

definition FormatInt :: "int64 \<Rightarrow> string" where
  "FormatInt x = itoa (sint x)"

text \<open>A parsed header field that must not be negative.\<close>

definition ParseNonNegative :: "string \<Rightarrow> int64 option" where
  "ParseNonNegative s = (case ParseInt s of
     None \<Rightarrow> None | Some n \<Rightarrow> if sint n \<ge> 0 then Some n else None)"

section \<open>Strings\<close>

fun HasPrefix :: "string \<Rightarrow> string \<Rightarrow> bool" where
  "HasPrefix s [] = True"
| "HasPrefix [] (p # ps) = False"
| "HasPrefix (c # cs) (p # ps) = (c = p \<and> HasPrefix cs ps)"

text \<open>The part before the first, and the part after the last, occurrence of a byte.\<close>

fun split_first :: "char \<Rightarrow> string \<Rightarrow> (string \<times> string) option" where
  "split_first x [] = None"
| "split_first x (c # cs) =
     (if c = x then Some ([], cs)
      else case split_first x cs of None \<Rightarrow> None | Some (a, b) \<Rightarrow> Some (c # a, b))"

definition split_last :: "char \<Rightarrow> string \<Rightarrow> (string \<times> string) option" where
  "split_last x s = (case split_first x (rev s) of
     None \<Rightarrow> None | Some (a, b) \<Rightarrow> Some (rev b, rev a))"

section \<open>The headers\<close>

text \<open>What a resuming consumer sends, and what the provider reads of it.\<close>

definition rangeHeader :: "int64 \<Rightarrow> string" where
  "rangeHeader existingSize = ''bytes='' @ FormatInt existingSize @ ''-''"

definition parseRangeStart :: "string \<Rightarrow> int64 option" where
  "parseRangeStart header =
     (if \<not> HasPrefix header ''bytes='' then None
      else let rest = drop 6 header in
        if rest = [] \<or> last rest \<noteq> CHR ''-'' then None
        else ParseNonNegative (butlast rest))"

text \<open>What the provider states, and what the consumer reads of it.\<close>

definition contentRange :: "int64 \<Rightarrow> int64 \<Rightarrow> string" where
  "contentRange rangeStart complete =
     ''bytes '' @ FormatInt rangeStart @ ''-'' @ FormatInt (complete - 1) @ ''/'' @ FormatInt complete"

definition parseContentRange :: "string \<Rightarrow> int64 option \<times> int64 option" where
  "parseContentRange header =
     (if \<not> HasPrefix header ''bytes '' then (None, None)
      else case split_last (CHR ''/'') (drop 6 header) of
        None \<Rightarrow> (None, None)
      | Some (rangePart, completePart) \<Rightarrow>
          ((case split_first (CHR ''-'') rangePart of
              None \<Rightarrow> None
            | Some (first, _) \<Rightarrow> if first = [] then None else ParseNonNegative first),
           ParseNonNegative completePart))"

section \<open>Reading back what was written\<close>

lemma decimal_not_Nil [simp]: "decimal n \<noteq> []"
  by (subst decimal.simps) simp

lemma digit_char_digit: "0 \<le> n \<Longrightarrow> n < 10 \<Longrightarrow> digit_char n \<notin> {CHR ''+'', CHR ''-'', CHR ''/''}"
proof -
  assume "0 \<le> n" "n < 10"
  then have "digit_val (digit_char n) = Some n" by simp
  moreover have "digit_val c = None" if "c \<in> {CHR ''+'', CHR ''-'', CHR ''/''}" for c
    using that by (auto simp: digit_val_def)
  ultimately show ?thesis by fastforce
qed

lemma decimal_digits: "0 \<le> n \<Longrightarrow> set (decimal n) \<inter> {CHR ''+'', CHR ''-'', CHR ''/''} = {}"
proof (induction n rule: decimal.induct)
  case (1 n)
  then show ?case
    using digit_char_digit [of n] digit_char_digit [of "n mod 10"]
    by (cases "n < 10") (auto simp: decimal.simps [of n])
qed

lemma ParseInt_decimal:
  assumes "0 \<le> n" and "n < 2 ^ 63"
  shows "ParseInt (decimal n) = Some (word_of_int n)"
proof -
  obtain c cs where "decimal n = c # cs" by (cases "decimal n") auto
  moreover from this have "c \<noteq> CHR ''+''" "c \<noteq> CHR ''-''" using decimal_digits [OF assms(1)] by auto
  ultimately show ?thesis
    using assms digits_val_decimal [OF assms(1)] by (simp add: ParseInt_def)
qed

lemma sint64_bounds: "- (2 ^ 63) \<le> sint (x :: int64)" "sint (x :: int64) < 2 ^ 63"
  using sint_range_size [of x] by (simp_all add: word_size)

lemma ParseNonNegative_Format:
  assumes "0 \<le> sint x"
  shows "ParseNonNegative (FormatInt x) = Some x"
  using assms sint64_bounds(2) [of x]
  by (simp add: ParseNonNegative_def FormatInt_def itoa_def ParseInt_decimal)

lemma FormatInt_plain:
  assumes "0 \<le> sint x"
  shows "FormatInt x \<noteq> []" and "CHR ''-'' \<notin> set (FormatInt x)" and "CHR ''/'' \<notin> set (FormatInt x)"
  using assms decimal_digits [of "sint x"] by (auto simp: FormatInt_def itoa_def)

lemma split_first_append: "x \<notin> set a \<Longrightarrow> split_first x (a @ x # b) = Some (a, b)"
  by (induction a) auto

lemma split_last_append: "x \<notin> set b \<Longrightarrow> split_last x (a @ x # b) = Some (a, b)"
  by (simp add: split_last_def split_first_append)

text \<open>The provider starts where the consumer asked it to.\<close>

lemma parseRangeStart_rangeHeader:
  "0 \<le> sint n \<Longrightarrow> parseRangeStart (rangeHeader n) = Some n"
  by (simp add: parseRangeStart_def rangeHeader_def ParseNonNegative_Format Let_def butlast_append)

text \<open>The consumer reads the start and the length the provider states.\<close>

lemma parseContentRange_contentRange:
  assumes "0 \<le> sint start" and "0 \<le> sint complete"
  shows "parseContentRange (contentRange start complete) = (Some start, Some complete)"
proof -
  have "split_last (CHR ''/'') ((FormatInt start @ ''-'' @ FormatInt (complete - 1)) @ CHR ''/'' # FormatInt complete)
      = Some (FormatInt start @ ''-'' @ FormatInt (complete - 1), FormatInt complete)"
    by (rule split_last_append) (rule FormatInt_plain [OF assms(2)])
  moreover have "split_first (CHR ''-'') (FormatInt start @ ''-'' @ FormatInt (complete - 1)) =
      Some (FormatInt start, FormatInt (complete - 1))"
    using split_first_append [OF FormatInt_plain(2) [OF assms(1)]] by simp
  ultimately show ?thesis
    using assms FormatInt_plain [OF assms(1)]
    by (simp add: parseContentRange_def contentRange_def ParseNonNegative_Format)
qed

section \<open>Both sides of a resumed transfer\<close>

text \<open>
  A resumed transfer is understood on both sides: the provider reads the start the consumer
  asks for, and the consumer reads the start and the complete length the provider states.
\<close>

theorem range_headers_are_read_back:
  assumes "0 \<le> sint start" and "0 \<le> sint complete"
  shows "parseRangeStart (rangeHeader start) = Some start \<and>
    parseContentRange (contentRange start complete) = (Some start, Some complete)"
  using parseRangeStart_rangeHeader [OF assms(1)] parseContentRange_contentRange [OF assms] by simp

end
