(* ===== verification/Pull.thy ===== *)
theory Pull
  imports Statements Ranges
begin

text \<open>
  The data plane of the consumer role: \<^verbatim>\<open>pullTransferData\<close> of
  \<^verbatim>\<open>transfer_consumer_handler.go\<close>.  The partial file, its rename and the map of pulls in
  flight are part of the world; a system call takes the outcome \<open>io\<close> as a statement does.  A body is the bytes that arrive and, if it broke off, why
  (\<^verbatim>\<open>context.Cause\<close>); a write that fails half way is a body of fewer bytes whose
  write is reported as failed.
\<close>

section \<open>The outcome of a pull\<close>

record pullOutcome =
  po_received :: int64
  po_path :: string
  po_completed :: "instant option"
  po_failure :: string

definition fail :: "pullOutcome \<Rightarrow> string \<Rightarrow> pullOutcome" where
  "fail o' reason = o'\<lparr>po_failure := reason\<rparr>"

definition succeed :: "pullOutcome \<Rightarrow> string \<Rightarrow> instant \<Rightarrow> pullOutcome" where
  "succeed o' path at = o'\<lparr>po_path := path, po_completed := Some at, po_failure := ''''\<rparr>"

definition errRosterExpired :: string where
  "errRosterExpired = ''this connector's roster has expired''"

definition errConnectorShuttingDown :: string where
  "errConnectorShuttingDown = ''the connector shut down while the pull was running''"

section \<open>Files\<close>

definition downloadPath :: "Config \<Rightarrow> string \<Rightarrow> string" where
  "downloadPath cfg name = DataDir cfg @ ''/downloads/'' @ name"

definition partialPath :: "Config \<Rightarrow> string \<Rightarrow> string" where
  "partialPath cfg consumerPID = downloadPath cfg (''.partial-'' @ consumerPID)"

definition file_size :: "string \<Rightarrow> world \<Rightarrow> int64" where
  "file_size path w = (case files w path of None \<Rightarrow> 0 | Some bs \<Rightarrow> word_of_nat (length bs))"

definition set_file :: "string \<Rightarrow> 8 word list option \<Rightarrow> world \<Rightarrow> world" where
  "set_file path content w = w\<lparr>files := (files w)(path := content)\<rparr>"

definition append_file :: "string \<Rightarrow> 8 word list \<Rightarrow> world \<Rightarrow> world" where
  "append_file path bs w =
     set_file path (Some ((case files w path of None \<Rightarrow> [] | Some old \<Rightarrow> old) @ bs)) w"

text \<open>A system call with an effect: it took place unless it failed without a trace.\<close>

definition sys :: "(world \<Rightarrow> world) \<Rightarrow> (bool \<Rightarrow> prog) \<Rightarrow> prog" where
  "sys u k = Act (\<lambda>i w. if i = IoFail then w else u w) (\<lambda>i w. k (i = IoOk))"

text \<open>The row describes the disk: the count goes to zero only when the bytes are gone.\<close>

definition discardPartial :: "pullOutcome \<Rightarrow> string \<Rightarrow> (pullOutcome \<Rightarrow> prog) \<Rightarrow> prog" where
  "discardPartial o' partial k =
     sys (set_file partial None) (\<lambda>ok. k (if ok then o'\<lparr>po_received := 0\<rparr> else o'))"

section \<open>The pull\<close>

text \<open>
  \<^verbatim>\<open>io.Copy\<close> from \<^verbatim>\<open>io.LimitReader(body, limit)\<close>, the bytes and the error.  The reader stops
  without another read when the limit is reached, so an end that comes with the last byte of a body
  that is exactly as long is seen; one that would come after it is not, and is no end of the body.
\<close>

definition copy_limited :: "int64 \<Rightarrow> HttpReply \<Rightarrow> 8 word list \<times> cause option" where
  "copy_limited limit resp =
     (let n = nat (sint limit) in
      if n = 0 \<or> n < length (hr_Data resp) then (take n (hr_Data resp), None)
      else (hr_Data resp, hr_DataEnd resp))"

definition copy_failure :: "cause option \<Rightarrow> string" where
  "copy_failure err = (case err of
     Some CauseIdle \<Rightarrow> ''the data pull made no progress within the idle timeout''
   | Some CauseShutdown \<Rightarrow> errConnectorShuttingDown
   | _ \<Rightarrow> ''the download could not be written'')"

text \<open>The deferred writes: the outcome on the row, then the guard is released.\<close>

definition pull_finish :: "string \<Rightarrow> pullOutcome \<Rightarrow> prog" where
  "pull_finish consumerPID o' =
     call (RecordConsumerTransferOutcome consumerPID (po_received o') (po_path o') (po_completed o')
             (po_failure o'))
       (\<lambda>_. Act (\<lambda>i w. w\<lparr>pulling := removeAll consumerPID (pulling w)\<rparr>) (\<lambda>i w. Done))"

text \<open>After the copy: the length checks, the sync and the rename.\<close>

definition pull_place ::
  "handler \<Rightarrow> string \<Rightarrow> int64 \<Rightarrow> int64 \<Rightarrow> int64 \<Rightarrow> pullOutcome \<Rightarrow> (pullOutcome \<Rightarrow> prog) \<Rightarrow> prog" where
  "pull_place h consumerPID n remaining expected o' finish =
     (if remaining <s n then finish (fail o' ''the data pull exceeded max_download_bytes'')
      else sys id (\<lambda>synced.
        if \<not> synced then finish (fail o' ''the download could not be synced'')
        else sys id (\<lambda>closed.
          if \<not> closed then finish (fail o' ''the download could not be closed'')
          else
            (let got = po_received o' in
             if 0 <s expected \<and> got \<noteq> expected then
               finish (fail o' ''the download does not match the length the provider stated'')
             else
               (let partial = partialPath (h_cfg h) consumerPID;
                    final = downloadPath (h_cfg h) consumerPID
                in sys (\<lambda>w. set_file partial None (set_file final (files w partial) w)) (\<lambda>placed.
                     if \<not> placed then finish (fail o' ''the download could not be placed'')
                     else Now (\<lambda>now. finish (succeed o' final now))))))))"

definition pull_copy ::
  "handler \<Rightarrow> string \<Rightarrow> int64 \<Rightarrow> int64 \<Rightarrow> HttpReply \<Rightarrow> pullOutcome \<Rightarrow> (pullOutcome \<Rightarrow> prog) \<Rightarrow> prog" where
  "pull_copy h consumerPID existingSize expected resp o' finish =
     (let partial = partialPath (h_cfg h) consumerPID;
          resuming = (0 <s existingSize);
          remaining = MaxDownloadBytes (h_cfg h) - existingSize
      in sys (\<lambda>w. if resuming then append_file partial [] w else set_file partial (Some []) w) (\<lambda>opened.
           if \<not> opened then finish (fail o' ''the download file could not be opened'')
           else
             (let (bytes, err) = copy_limited (remaining + 1) resp in
              Act (\<lambda>i w. if i = IoFail then w else append_file partial bytes w) (\<lambda>i w.
                let n = (if i = IoFail then 0 else word_of_nat (length bytes));
                    o'' = o'\<lparr>po_received := existingSize + n\<rparr>
                in if i \<noteq> IoOk \<or> err \<noteq> None then finish (fail o'' (copy_failure err))
                   else pull_place h consumerPID n remaining expected o'' finish))))"

text \<open>What the response to a resumed, and to a fresh, pull must look like.\<close>

definition pull_response ::
  "handler \<Rightarrow> ConsumerTransfer \<Rightarrow> int64 \<Rightarrow> HttpReply \<Rightarrow> pullOutcome \<Rightarrow> (pullOutcome \<Rightarrow> prog) \<Rightarrow> prog" where
  "pull_response h t existingSize resp o' finish =
     (let partial = partialPath (h_cfg h) (ct_ConsumerPID t);
          recorded = ct_ExpectedBytes t;
          proceed = (\<lambda>expected.
            if expected \<noteq> recorded then
              call (SetConsumerTransferExpectedBytes (ct_ConsumerPID t) expected)
                (\<lambda>_. pull_copy h (ct_ConsumerPID t) existingSize expected resp o' finish)
            else pull_copy h (ct_ConsumerPID t) existingSize expected resp o' finish)
      in if 0 <s existingSize then
           (if hr_Status resp = 206 then
              (let (first, stated) = parseContentRange (hr_ContentRange resp) in
               if first \<noteq> Some existingSize then
                 finish (fail o'
                   ''the provider's 206 did not start where this connector's partial download left off'')
               else if stated \<noteq> None \<and> 0 <s recorded \<and> stated \<noteq> Some recorded then
                 discardPartial o' partial (\<lambda>o''. finish (fail o''
                   ''the provider states a different complete length than this transfer recorded''))
               else proceed (case stated of None \<Rightarrow> recorded | Some complete \<Rightarrow> complete))
            else if hr_Status resp = 416 then
              discardPartial o' partial (\<lambda>o''. finish (fail o''
                ''the provider's file is no longer past what this connector already has''))
            else finish (fail o' ''the data endpoint gave an unexpected answer to a resumed pull''))
         else if hr_Status resp \<ge> 300 then
           finish (fail o' ''the data endpoint refused the pull'')
         else proceed (if 0 \<le>s hr_ContentLength resp then hr_ContentLength resp else 0))"

definition pull_failure :: "cause \<Rightarrow> string" where
  "pull_failure c = (case c of
     CauseIdle \<Rightarrow> ''the data endpoint sent no response within the idle timeout''
   | CauseShutdown \<Rightarrow> errConnectorShuttingDown
   | CauseOther \<Rightarrow> ''the data pull failed before any bytes arrived'')"

definition pull_request ::
  "handler \<Rightarrow> ConsumerTransfer \<Rightarrow> string \<Rightarrow> int64 \<Rightarrow> pullOutcome \<Rightarrow> (pullOutcome \<Rightarrow> prog) \<Rightarrow> prog" where
  "pull_request h t endpoint existingSize o' finish =
     sys id (\<lambda>madeDir.
       if \<not> madeDir then finish (fail o' ''the download directory could not be created'')
       else sys id (\<lambda>built.
         if \<not> built then finish (fail o' ''the data pull request could not be built'')
         else mintOutboundCredential h (ct_CounterpartyID t) (\<lambda>(authorization, maySend).
           if \<not> maySend then finish (fail o' errRosterExpired)
           else Http \<lparr>hq_Method = ''GET'', hq_URL = endpoint, hq_Body = None,
                      hq_Authorization = authorization,
                      hq_Range = (if 0 <s existingSize then rangeHeader existingSize else '''')\<rparr>
             (\<lambda>res. case res of
                HttpFailed c \<Rightarrow> finish (fail o' (pull_failure c))
              | HttpOk resp \<Rightarrow> pull_response h t existingSize resp o' finish))))"

definition pull_body ::
  "handler \<Rightarrow> ConsumerTransfer \<Rightarrow> DataAddress option \<Rightarrow> (pullOutcome \<Rightarrow> prog) \<Rightarrow> prog" where
  "pull_body h t addr finish =
     Act (\<lambda>i w. w) (\<lambda>i w.
       let existingSize = (if i = IoOk then file_size (partialPath (h_cfg h) (ct_ConsumerPID t)) w else 0);
           o' = \<lparr>po_received = existingSize, po_path = '''', po_completed = None,
                 po_failure = ''the pull ended without recording a reason''\<rparr>;
           noEndpoint = finish (fail o' ''the start message carried no data endpoint'')
       in case addr of
            None \<Rightarrow> noEndpoint
          | Some a \<Rightarrow>
              if da_Endpoint a = '''' then noEndpoint
              else AllowURL (da_Endpoint a) (\<lambda>allowed.
                if \<not> allowed then
                  finish (fail o' ''the data endpoint was refused by the outgoing-address guard'')
                else pull_request h t (da_Endpoint a) existingSize o' finish))"

text \<open>One pull per transfer: a second start while one runs is dropped.\<close>

definition pullTransferData :: "handler \<Rightarrow> ConsumerTransfer \<Rightarrow> DataAddress option \<Rightarrow> prog" where
  "pullTransferData h t addr =
     Act (\<lambda>i w. if ct_ConsumerPID t \<in> set (pulling w) then w
               else w\<lparr>pulling := ct_ConsumerPID t # pulling w\<rparr>)
       (\<lambda>i w. if ct_ConsumerPID t \<in> set (pulling w) then Done
              else pull_body h t addr (pull_finish (ct_ConsumerPID t)))"

section \<open>Safety and silence\<close>

lemma acts_for_files:
  "conn_invar h (db w) \<Longrightarrow> db w' = db w \<Longrightarrow> acts_for h p w w'"
  by (simp add: acts_for_def rely_def)

lemma set_file_db [simp]: "db (set_file p c w) = db w" "db (append_file p bs w) = db w"
  by (simp_all add: set_file_def append_file_def)

lemma safe_Act_files:
  assumes "known_consumer_transfer pid cp (db w)" and "\<And>w' i. db (u i w') = db w'"
    and "\<And>w' i v. known_consumer_transfer pid cp (db v) \<Longrightarrow> safe (rely h) (acts_for h p) (k i w') v"
  shows "safe (rely h) (acts_for h p) (Act u k) w"
proof -
  have "acts_for h p w' (u i w') \<and> safe (rely h) (acts_for h p) (k i w') (u i w')"
    if "rely h w w'" for w' i
    using assms(2,3) acts_for_files [OF conn.R_inv [OF that]]
      known_consumer_transfer_later [OF that assms(1)] by simp
  then show ?thesis by simp
qed

lemma safe_sys:
  assumes "known_consumer_transfer pid cp (db w)" and "\<And>w'. db (u w') = db w'"
    and "\<And>b v. known_consumer_transfer pid cp (db v) \<Longrightarrow> safe (rely h) (acts_for h p) (k b) v"
  shows "safe (rely h) (acts_for h p) (sys u k) w"
  unfolding sys_def by (rule safe_Act_files [OF assms(1)]) (use assms(2,3) in auto)

text \<open>
  Each part of the pull is safe when its continuation is, in every world in which the
  transfer's row is known.
\<close>

definition pull_cont :: "handler \<Rightarrow> string \<Rightarrow> string \<Rightarrow> string \<Rightarrow> (pullOutcome \<Rightarrow> prog) \<Rightarrow> bool" where
  "pull_cont h p pid cp finish \<longleftrightarrow>
     (\<forall>o' w. known_consumer_transfer pid cp (db w) \<longrightarrow> safe (rely h) (acts_for h p) (finish o') w)"

lemma pull_contD:
  "pull_cont h p pid cp finish \<Longrightarrow> known_consumer_transfer pid cp (db w) \<Longrightarrow>
     safe (rely h) (acts_for h p) (finish o') w"
  by (simp add: pull_cont_def)

lemma pull_cont_finish:
  "(AuthRequired (h_cfg h) \<Longrightarrow> cp = p) \<Longrightarrow> pull_cont h p pid cp (pull_finish pid)"
  by (auto simp: pull_cont_def pull_finish_def
      intro!: safe_RecordConsumerTransferOutcome [where cp = cp] safe_Act_files [where cp = cp and pid = pid])

lemma safe_discardPartial:
  assumes "pull_cont h p pid cp finish" and "known_consumer_transfer pid cp (db w)"
  shows "safe (rely h) (acts_for h p) (discardPartial o' partial (\<lambda>o''. finish (fail o'' reason))) w"
  unfolding discardPartial_def
  by (rule safe_sys [OF assms(2)]) (use assms(1) in \<open>auto intro: pull_contD\<close>)

lemma safe_pull_place:
  assumes "pull_cont h p pid cp finish" and "known_consumer_transfer pid cp (db w)"
  shows "safe (rely h) (acts_for h p) (pull_place h name n remaining expected o' finish) w"
  unfolding pull_place_def Let_def
  by (intro safe_structure safe_sys [where pid = pid and cp = cp] pull_contD [OF assms(1)])
    (use assms(2) in auto)

lemma safe_pull_copy:
  assumes "pull_cont h p pid cp finish" and "known_consumer_transfer pid cp (db w)"
  shows "safe (rely h) (acts_for h p) (pull_copy h name existing expected resp o' finish) w"
  unfolding pull_copy_def Let_def case_prod_beta
  by (intro safe_structure safe_sys [where pid = pid and cp = cp]
      safe_Act_files [where pid = pid and cp = cp] safe_pull_place [OF assms(1)]
      pull_contD [OF assms(1)])
    (use assms(2) in auto)

lemma safe_pull_response:
  assumes "pull_cont h p pid cp finish" and "known_consumer_transfer pid cp (db w)"
    and "AuthRequired (h_cfg h) \<Longrightarrow> cp = p" and "ct_ConsumerPID t = pid"
  shows "safe (rely h) (acts_for h p) (pull_response h t existing resp o' finish) w"
  unfolding pull_response_def Let_def case_prod_beta assms(4)
  by (intro safe_structure safe_SetConsumerTransferExpectedBytes [where cp = cp]
      safe_discardPartial [OF assms(1)] safe_pull_copy [OF assms(1)] pull_contD [OF assms(1)])
    (use assms(2,3) in auto)

lemma safe_pull_request:
  assumes "pull_cont h p pid cp finish" and "known_consumer_transfer pid cp (db w)"
    and "AuthRequired (h_cfg h) \<Longrightarrow> cp = p" and "ct_ConsumerPID t = pid"
  shows "safe (rely h) (acts_for h p) (pull_request h t endpoint existing o' finish) w"
proof -
  have "safe (rely h) (acts_for h p)
      (case res of HttpFailed c \<Rightarrow> finish (fail o' (pull_failure c))
       | HttpOk resp \<Rightarrow> pull_response h t existing resp o' finish) w"
    if "known_consumer_transfer pid cp (db w)" for res w
    using that pull_contD [OF assms(1)] safe_pull_response [OF assms(1) that assms(3,4)]
    by (simp split: http_result.split)
  then show ?thesis
    unfolding pull_request_def case_prod_beta
    by (intro safe_structure safe_sys [where pid = pid and cp = cp] safe_mint
        pull_contD [OF assms(1)]) (use assms(2) in auto)
qed

lemma safe_pull_body:
  assumes "pull_cont h p pid cp finish" and "known_consumer_transfer pid cp (db w)"
    and "AuthRequired (h_cfg h) \<Longrightarrow> cp = p" and "ct_ConsumerPID t = pid"
  shows "safe (rely h) (acts_for h p) (pull_body h t addr finish) w"
  unfolding pull_body_def Let_def
  by (intro safe_Act_files [OF assms(2)] safe_structure safe_pull_request [OF assms(1) _ assms(3,4)]
      pull_contD [OF assms(1)]) auto

lemma safe_pullTransferData:
  assumes "known_consumer_transfer (ct_ConsumerPID t) cp (db w)"
    and "AuthRequired (h_cfg h) \<Longrightarrow> cp = p"
  shows "safe (rely h) (acts_for h p) (pullTransferData h t addr) w"
  unfolding pullTransferData_def
  by (intro safe_Act_files [OF assms(1)] safe_structure
      safe_pull_body [OF pull_cont_finish [OF assms(2)]])
    (use assms in auto)

text \<open>A pull writes no response.\<close>

lemma responds_sys: "(\<And>b. responds (k b) n) \<Longrightarrow> responds (sys u k) n"
  by (simp add: sys_def)

lemma responds_pullTransferData [simp]: "responds (pullTransferData h t addr) 0"
proof -
  have fin: "responds (pull_finish pid o') 0" for pid o'
    by (simp add: pull_finish_def responds_call)
  have place: "responds (pull_place h name n remaining expected o' (pull_finish pid)) 0"
    for name n remaining expected o' pid
    by (simp add: pull_place_def fin responds_sys Let_def)
  have copy: "responds (pull_copy h name existing expected resp o' (pull_finish pid)) 0"
    for name existing expected resp o' pid
    by (simp add: pull_copy_def Let_def case_prod_beta fin place responds_sys)
  have response: "responds (pull_response h t existing resp o' (pull_finish pid)) 0"
    for existing resp o' pid
    by (simp add: pull_response_def Let_def case_prod_beta fin copy responds_call discardPartial_def
        responds_sys)
  have "responds (pull_request h t endpoint existing o' (pull_finish pid)) 0" for endpoint existing o' pid
    unfolding pull_request_def case_prod_beta
    by (auto simp: fin response intro!: responds_sys responds_mint split: http_result.split)
  then show ?thesis
    by (simp add: pullTransferData_def pull_body_def Let_def fin split: option.split)
qed

end
