(* ===== verification/TransferConsumer.thy ===== *)
theory TransferConsumer
  imports NegotiationConsumer Pull
begin

text \<open>
  The transfer process, consumer role: the initiate hook, the opening request and the configured
  steps of \<^verbatim>\<open>transfer_consumer_handler.go\<close>, with the legality rules of
  \<^verbatim>\<open>transfer.go\<close> and the policy lookup of \<^verbatim>\<open>transfer_handler.go\<close>.
  The theory proves that the hook answers once, that every part is \<open>safe\<close>, and that a configured
  step is only sent when the state machine allows it.
\<close>

section \<open>Legality\<close>

definition startLegalFrom :: "string \<Rightarrow> bool" where
  "startLegalFrom st \<longleftrightarrow> st = TransferRequested \<or> st = TransferSuspended"

definition providerInboundStartLegalFrom :: "string \<Rightarrow> bool" where
  "providerInboundStartLegalFrom st \<longleftrightarrow> st = TransferSuspended"

definition completionLegalFrom :: "string \<Rightarrow> bool" where
  "completionLegalFrom st \<longleftrightarrow> st = TransferStarted"

definition suspensionLegalFrom :: "string \<Rightarrow> bool" where
  "suspensionLegalFrom st \<longleftrightarrow> st = TransferStarted"

definition terminationLegalFrom :: "string \<Rightarrow> bool" where
  "terminationLegalFrom st \<longleftrightarrow>
     st = TransferRequested \<or> st = TransferStarted \<or> st = TransferSuspended"

lemmas legal_defs = startLegalFrom_def providerInboundStartLegalFrom_def completionLegalFrom_def
  suspensionLegalFrom_def terminationLegalFrom_def

section \<open>The configured steps\<close>

definition resolveConsumerTransferPolicy :: "Config \<Rightarrow> string \<Rightarrow> string \<times> string list" where
  "resolveConsumerTransferPolicy cfg agreementID =
     (case find (\<lambda>p. cp_AgreementID p = agreementID) (ConsumerTransferPolicies cfg) of
        None \<Rightarrow> (TransferStarted, [])
      | Some p \<Rightarrow> (if cp_After p = '''' then TransferStarted else cp_After p, cp_Sequence p))"

definition transferPath :: "string \<Rightarrow> string \<Rightarrow> string" where
  "transferPath what pid = ''/transfers/'' @ pid @ what"

type_synonym transfer_message = "(string \<Rightarrow> string) \<times> document \<times> (string \<Rightarrow> bool)"

text \<open>The rows the messages of the consumer are built from: Go's zero value but for two fields.\<close>

definition zero_TransferProcess :: TransferProcess where
  "zero_TransferProcess = \<lparr>t_ProviderPID = '''', t_ConsumerPID = '''', t_AgreementID = '''',
     t_State = '''', t_CallbackAddress = '''', t_Format = '''', t_CounterpartyID = '''',
     t_CreatedAt = 0, t_UpdatedAt = 0\<rparr>"

definition consumerTransferStepMessage :: "ConsumerTransfer \<Rightarrow> string \<Rightarrow> transfer_message option" where
  "consumerTransferStepMessage t to =
     (let p = zero_TransferProcess
            \<lparr>t_ProviderPID := ct_ProviderPID t, t_ConsumerPID := ct_ConsumerPID t\<rparr>
      in if to = TransferSuspended then
           Some (transferPath ''/suspension'', DTransferSuspension (buildTransferSuspensionMessage p),
                 suspensionLegalFrom)
         else if to = TransferCompleted then
           Some (transferPath ''/completion'', DTransferCompletion (buildTransferCompletionMessage p),
                 completionLegalFrom)
         else if to = TransferTerminated then
           Some (transferPath ''/termination'', DTransferTermination (buildTransferTerminationMessage p),
                 terminationLegalFrom)
         else None)"

definition pushConsumerStep :: "handler \<Rightarrow> ConsumerTransfer \<Rightarrow> string \<Rightarrow> (bool \<Rightarrow> prog) \<Rightarrow> prog" where
  "pushConsumerStep h t to k = (case consumerTransferStepMessage t to of
     None \<Rightarrow> k False
   | Some m \<Rightarrow> (case m of (path, msg, legalFrom) \<Rightarrow>
       if \<not> legalFrom (ct_State t) then k False
       else if ct_ProviderPID t = '''' then k False
       else (let url = ct_ProviderBaseURL t @ path (ct_ProviderPID t) in
         AllowURL url (\<lambda>allowed.
           if \<not> allowed then k False
           else pushCallback h url msg (ct_CounterpartyID t) (\<lambda>pushed. Now (\<lambda>now.
             call (SetConsumerTransferState (ct_ConsumerPID t) (ct_State t) to now) (\<lambda>res.
               case res of Inl e \<Rightarrow> k False | Inr u \<Rightarrow> k True)))))))"

text \<open>The loop over the sequence; \<open>later\<close> is \<^verbatim>\<open>i > 0\<close>.\<close>

primrec drive_consumer_steps ::
  "handler \<Rightarrow> string list \<Rightarrow> bool \<Rightarrow> ConsumerTransfer \<Rightarrow> prog" where
  "drive_consumer_steps h [] later t = Done"
| "drive_consumer_steps h (st # sts) later t =
     (let step = pushConsumerStep h t st (\<lambda>ok.
            if ok then drive_consumer_steps h sts True (t\<lparr>ct_State := st\<rparr>) else Done)
      in if later then Sleep (h_stepDelay h) step else step)"

definition driveConsumerTransfer :: "handler \<Rightarrow> ConsumerTransfer \<Rightarrow> prog" where
  "driveConsumerTransfer h t =
     drive_consumer_steps h (snd (resolveConsumerTransferPolicy (h_cfg h) (ct_AgreementID t))) False t"

definition maybeDriveConsumerTransfer :: "handler \<Rightarrow> ConsumerTransfer \<Rightarrow> string \<Rightarrow> prog" where
  "maybeDriveConsumerTransfer h t reached =
     (let (after, sequence) = resolveConsumerTransferPolicy (h_cfg h) (ct_AgreementID t) in
      if sequence = [] \<or> reached \<noteq> after then Done
      else Go (driveConsumerTransfer h (t\<lparr>ct_State := reached\<rparr>)) Done)"

section \<open>Initiating a transfer\<close>

definition onTransferRequestAcknowledged :: "handler \<Rightarrow> ConsumerTransfer \<Rightarrow> string \<Rightarrow> prog" where
  "onTransferRequestAcknowledged h t providerPID = Now (\<lambda>now.
     call (SetConsumerTransferProviderPID (ct_ConsumerPID t) providerPID now) (\<lambda>res. case res of
       Inl e \<Rightarrow> Done
     | Inr u \<Rightarrow> maybeDriveConsumerTransfer h (t\<lparr>ct_ProviderPID := providerPID\<rparr>) TransferRequested))"

definition requestTransfer :: "handler \<Rightarrow> ConsumerTransfer \<Rightarrow> prog" where
  "requestTransfer h t =
     sendTransferRequest h (ct_ProviderBaseURL t)
       (buildTransferRequestMessage t (PublicURL (h_cfg h) @ VersionPath)) (ct_CounterpartyID t)
       (\<lambda>reply. case reply of None \<Rightarrow> Done
          | Some providerPID \<Rightarrow> onTransferRequestAcknowledged h t providerPID)"

definition handleTransferInitiate :: "handler \<Rightarrow> request \<Rightarrow> prog" where
  "handleTransferInitiate h r = usable h (\<lambda>ok.
     if \<not> ok then refuseExpiredRoster TransferErrorType
     else decode_body TransferErrorType notJSONObject transferInitiateBody_fields
       zero_transferInitiateBody r (\<lambda>body.
         if tb_ProviderID body = '''' \<or> tb_AgreementID body = '''' \<or> tb_Format body = '''' \<or>
            tb_ConnectorAddress body = '''' then
           writeError TransferErrorType StatusBadRequest
             ''providerId, agreementId, format, and connectorAddress are all required''
         else AllowURL (tb_ConnectorAddress body) (\<lambda>allowed.
           if \<not> allowed then writeError TransferErrorType StatusBadRequest
             ''connectorAddress is not an address this connector will send to''
           else call (GetAgreement (tb_AgreementID body)) (\<lambda>res. case res of
             Inl e \<Rightarrow> WriteHeader StatusInternalServerError Done
           | Inr found \<Rightarrow> (case found of
               None \<Rightarrow> writeError TransferErrorType StatusBadRequest
                 (''no agreement with id '' @ tb_AgreementID body)
             | Some a \<Rightarrow> requireKnown h TransferErrorType (tb_ProviderID body)
                 (dialAddress h TransferErrorType (tb_ProviderID body) (tb_ConnectorAddress body)
                   (\<lambda>baseURL. Uuid (\<lambda>u. case u of
                     None \<Rightarrow> WriteHeader StatusInternalServerError Done
                   | Some consumerPID \<Rightarrow> Now (\<lambda>now.
                       let t = \<lparr>ct_ConsumerPID = consumerPID, ct_ProviderPID = '''',
                         ct_ProviderBaseURL = baseURL, ct_AgreementID = tb_AgreementID body,
                         ct_Format = tb_Format body, ct_State = TransferRequested,
                         ct_CounterpartyID = tb_ProviderID body, ct_ExpectedBytes = 0,
                         ct_ReceivedBytes = 0, ct_DataPath = '''', ct_DataCompletedAt = None,
                         ct_DataError = '''', ct_CreatedAt = now, ct_UpdatedAt = now\<rparr>
                       in call (CreateConsumerTransfer t) (\<lambda>made. case made of
                            Inl e \<Rightarrow> WriteHeader StatusInternalServerError Done
                          | Inr v \<Rightarrow> WriteHeader StatusOK (Go (requestTransfer h t) Done)))))))))))"

section \<open>One answer\<close>

lemma responds_pushConsumerStep [responds_rules]:
  "(\<And>b. responds (k b) n) \<Longrightarrow> responds (pushConsumerStep h t to k) n"
  by (auto simp: pushConsumerStep_def Let_def intro!: responds_rules split: option.splits sum.splits)

lemma responds_drive_consumer_steps [simp]: "responds (drive_consumer_steps h sts later t) 0"
  by (induction sts arbitrary: later t) (auto simp: Let_def intro!: responds_rules)

lemma responds_maybeDriveConsumerTransfer [simp]: "responds (maybeDriveConsumerTransfer h t st) 0"
  by (simp add: maybeDriveConsumerTransfer_def driveConsumerTransfer_def case_prod_beta Let_def)

lemma responds_requestTransfer [simp]: "responds (requestTransfer h t) 0"
  by (auto simp: requestTransfer_def onTransferRequestAcknowledged_def intro!: responds_rules
      split: option.splits sum.splits)

lemma responds_handleTransferInitiate: "responds (handleTransferInitiate h r) (Suc 0)"
  by (auto simp: handleTransferInitiate_def Let_def intro!: responds_rules
      split: option.splits sum.splits)

section \<open>Safety\<close>

text \<open>A step this connector sends is an edge of the state machine, whatever was configured.\<close>

lemma consumerTransferStepMessage_legal:
  "consumerTransferStepMessage t to = Some (path, msg, legalFrom) \<Longrightarrow> legalFrom st \<Longrightarrow>
     transfer_edge st to"
  by (auto simp: consumerTransferStepMessage_def Let_def legal_defs split: if_splits)

lemma safe_pushConsumerStep:
  assumes "known_consumer_transfer (ct_ConsumerPID t) cp (db w)"
    and "AuthRequired (h_cfg h) \<Longrightarrow> cp = p"
    and "\<And>b v. known_consumer_transfer (ct_ConsumerPID t) cp (db v) \<Longrightarrow>
      safe (rely h) (acts_for h p) (k b) v"
  shows "safe (rely h) (acts_for h p) (pushConsumerStep h t to k) w"
proof (cases "consumerTransferStepMessage t to")
  case None
  then show ?thesis using assms by (simp add: pushConsumerStep_def)
next
  case (Some m)
  obtain path msg legalFrom where m: "m = (path, msg, legalFrom)" by (cases m)
  show ?thesis
    unfolding pushConsumerStep_def Some option.case m prod.case Let_def
    by (intro safe_structure safe_pushCallback safe_SetConsumerTransferState [where cp = cp])
      (use assms consumerTransferStepMessage_legal [OF Some [unfolded m]] in auto)
qed

lemma safe_drive_consumer_steps:
  assumes "known_consumer_transfer (ct_ConsumerPID t) cp (db w)"
    and "AuthRequired (h_cfg h) \<Longrightarrow> cp = p"
  shows "safe (rely h) (acts_for h p) (drive_consumer_steps h sts later t) w"
  using assms
proof (induction sts arbitrary: later t w)
  case (Cons st sts)
  have "safe (rely h) (acts_for h p) (pushConsumerStep h t st (\<lambda>ok.
      if ok then drive_consumer_steps h sts True (t\<lparr>ct_State := st\<rparr>) else Done)) w"
    using Cons by (auto intro!: safe_pushConsumerStep [where cp = cp])
  then show ?case by (simp add: Let_def)
qed simp

lemma safe_maybeDriveConsumerTransfer:
  assumes "known_consumer_transfer (ct_ConsumerPID t) cp (db w)"
    and "AuthRequired (h_cfg h) \<Longrightarrow> cp = p"
  shows "safe (rely h) (acts_for h p) (maybeDriveConsumerTransfer h t st) w"
  using assms
  by (auto simp: maybeDriveConsumerTransfer_def driveConsumerTransfer_def case_prod_beta Let_def
      intro!: safe_drive_consumer_steps [where cp = cp])

lemma safe_requestTransfer:
  assumes "known_consumer_transfer (ct_ConsumerPID t) cp (db w)"
    and "AuthRequired (h_cfg h) \<Longrightarrow> cp = p"
  shows "safe (rely h) (acts_for h p) (requestTransfer h t) w"
  unfolding requestTransfer_def onTransferRequestAcknowledged_def
  by (intro safe_sendTransferRequest safe_structure safe_SetConsumerTransferProviderPID [where cp = cp]
      safe_maybeDriveConsumerTransfer [where cp = cp])
    (use assms in auto)

definition transfer_initiate_party :: "request \<Rightarrow> string" where
  "transfer_initiate_party r =
     (case decode (dec_struct transferInitiateBody_fields) zero_transferInitiateBody (rq_Body r) of
        None \<Rightarrow> '''' | Some body \<Rightarrow> tb_ProviderID body)"

lemma safe_handleTransferInitiate:
  "safe (rely h) (acts_for h (transfer_initiate_party r)) (handleTransferInitiate h r) w"
  unfolding handleTransferInitiate_def transfer_initiate_party_def decode_body_def WriteHeader_def
  by (intro safe_usable safe_structure safe_GetAgreement safe_requireKnown safe_dialAddress
      safe_CreateConsumerTransfer safe_requestTransfer)
    (auto simp: consumer_transfer_ok_def listed_def split: option.splits)

end
