(* ===== verification/Management.thy ===== *)
theory Management
  imports CatalogProtocol TransferConsumer "HOL-Library.List_Lexorder" "HOL-Library.Char_ord"
begin

text \<open>
  The management listener (\<^verbatim>\<open>internal/mgmt/router.go\<close>) and the listings of the store it
  reads (\<^verbatim>\<open>store.go\<close>): the operator's token, the import of an agreement made elsewhere,
  the lists, the health probe.  The theory proves that nothing is done without the token, that an
  import keeps the connector's promise for the participant it names, and what the order of a
  list is.
\<close>

section \<open>Listings\<close>

text \<open>
  \<^verbatim>\<open>ORDER BY created_at\<close> compares the stored text, byte by byte.  Rows with the same
  text keep the order of the table.
\<close>

definition ListAgreements :: "Agreement list store_op" where
  "ListAgreements = query (\<lambda>s. sort_key (\<lambda>a. format_RFC3339Nano (a_CreatedAt a)) (agreements s))"

definition ListTransfers :: "TransferProcess list store_op" where
  "ListTransfers =
     query (\<lambda>s. sort_key (\<lambda>t. format_RFC3339Nano (t_CreatedAt t)) (transfer_processes s))"

definition ListConsumerTransfers :: "ConsumerTransfer list store_op" where
  "ListConsumerTransfers =
     query (\<lambda>s. sort_key (\<lambda>t. format_RFC3339Nano (ct_CreatedAt t)) (consumer_transfer_processes s))"

section \<open>The operator's token\<close>

definition bearerPrefix :: string where "bearerPrefix = ''Bearer ''"

definition cutBearerPrefix :: "string \<Rightarrow> string option" where
  "cutBearerPrefix header =
     (if length header < length bearerPrefix \<or>
         \<not> equal_fold (take (length bearerPrefix) header) bearerPrefix then None
      else Some (drop (length bearerPrefix) header))"

definition authenticated :: "string \<Rightarrow> request \<Rightarrow> prog \<Rightarrow> prog" where
  "authenticated token r k =
     (if token = '''' \<or> cutBearerPrefix (rq_Authorization r) \<noteq> Some token then
        Respond (ReplyHeaders [(''WWW-Authenticate'', ''Bearer'')] StatusUnauthorized None) Done
      else k)"

section \<open>Handlers\<close>

definition StatusServiceUnavailable :: int where "StatusServiceUnavailable = 503"

text \<open>\<^verbatim>\<open>http.Error\<close>: a plain text.\<close>

definition http_error :: "string \<Rightarrow> int \<Rightarrow> prog" where
  "http_error reason status = Respond (Reply status (Some (DText reason))) Done"

definition health :: "handler \<Rightarrow> prog" where
  "health h = usable h (\<lambda>ok.
     if \<not> ok then writeJSON StatusServiceUnavailable (DHealth ''roster expired'') Done
     else writeJSON StatusOK (DHealth ''ok'') Done)"

record importBody =
  mb_AgreementID :: string
  mb_DatasetID :: string
  mb_CounterpartyID :: string

definition zero_importBody :: importBody where
  "zero_importBody = \<lparr>mb_AgreementID = '''', mb_DatasetID = '''', mb_CounterpartyID = ''''\<rparr>"

definition importBody_fields :: "importBody json_field list" where
  "importBody_fields =
     [field_of ''agreementId'' mb_AgreementID (\<lambda>x. mb_AgreementID_update (\<lambda>_. x)) dec_string,
      field_of ''datasetId'' mb_DatasetID (\<lambda>x. mb_DatasetID_update (\<lambda>_. x)) dec_string,
      field_of ''counterpartyId'' mb_CounterpartyID (\<lambda>x. mb_CounterpartyID_update (\<lambda>_. x)) dec_string]"

definition importAgreement :: "request \<Rightarrow> prog" where
  "importAgreement r =
     (case decode (dec_struct importBody_fields) zero_importBody (rq_Body r) of
        None \<Rightarrow> http_error ''malformed request body'' StatusBadRequest
      | Some body \<Rightarrow>
          if mb_AgreementID body = '''' \<or> mb_DatasetID body = '''' then
            http_error ''agreementId and datasetId are both required'' StatusBadRequest
          else Now (\<lambda>now. call (CreateAgreement
              \<lparr>a_AgreementID = mb_AgreementID body, a_DatasetID = mb_DatasetID body,
               a_ConsumerPID = '''', a_Origin = OriginImported,
               a_CounterpartyID = mb_CounterpartyID body, a_CreatedAt = now\<rparr>) (\<lambda>res. case res of
              Inl e \<Rightarrow> call (GetAgreement (mb_AgreementID body)) (\<lambda>again.
                if (case again of Inr (Some a) \<Rightarrow> True | _ \<Rightarrow> False) then
                  http_error ''an agreement with that id already exists'' StatusConflict
                else WriteHeader StatusInternalServerError Done)
            | Inr u \<Rightarrow> WriteHeader StatusCreated Done)))"

definition agreementView_of :: "Agreement \<Rightarrow> agreementView" where
  "agreementView_of a = \<lparr>av_AgreementID = a_AgreementID a, av_DatasetID = a_DatasetID a,
     av_Origin = a_Origin a, av_CreatedAt = format_RFC3339Nano (a_CreatedAt a),
     av_CounterpartyID = a_CounterpartyID a\<rparr>"

definition listAgreements :: prog where
  "listAgreements = call ListAgreements (\<lambda>res. case res of
     Inl e \<Rightarrow> WriteHeader StatusInternalServerError Done
   | Inr as \<Rightarrow> writeJSON StatusOK (DAgreements (map agreementView_of as)) Done)"

definition consumerView :: "ConsumerTransfer \<Rightarrow> transferView" where
  "consumerView c = \<lparr>tv_Role = ''consumer'', tv_ConsumerPID = ct_ConsumerPID c,
     tv_ProviderPID = ct_ProviderPID c, tv_AgreementID = ct_AgreementID c, tv_State = ct_State c,
     tv_CounterpartyID = ct_CounterpartyID c, tv_CreatedAt = format_RFC3339Nano (ct_CreatedAt c),
     tv_ExpectedBytes = ct_ExpectedBytes c, tv_ReceivedBytes = ct_ReceivedBytes c,
     tv_DataPath = ct_DataPath c,
     tv_DataCompletedAt =
       (case ct_DataCompletedAt c of None \<Rightarrow> '''' | Some t \<Rightarrow> format_RFC3339Nano t),
     tv_DataError = ct_DataError c\<rparr>"

definition providerView :: "TransferProcess \<Rightarrow> transferView" where
  "providerView p = \<lparr>tv_Role = ''provider'', tv_ConsumerPID = t_ConsumerPID p,
     tv_ProviderPID = t_ProviderPID p, tv_AgreementID = t_AgreementID p, tv_State = t_State p,
     tv_CounterpartyID = t_CounterpartyID p, tv_CreatedAt = format_RFC3339Nano (t_CreatedAt p),
     tv_ExpectedBytes = 0, tv_ReceivedBytes = 0, tv_DataPath = '''', tv_DataCompletedAt = '''',
     tv_DataError = ''''\<rparr>"

definition listTransfers :: prog where
  "listTransfers = call ListConsumerTransfers (\<lambda>res. case res of
     Inl e \<Rightarrow> WriteHeader StatusInternalServerError Done
   | Inr consumers \<Rightarrow> call ListTransfers (\<lambda>res'. case res' of
       Inl e \<Rightarrow> WriteHeader StatusInternalServerError Done
     | Inr providers \<Rightarrow> writeJSON StatusOK
         (DTransfers (map consumerView consumers @ map providerView providers)) Done))"

section \<open>The listing order is not the chronological one\<close>

text \<open>
  The stored text drops trailing zeros of the fraction, so that a full second sorts after the
  fractions of the same second.
\<close>

lemma text_order_not_chronological:
  "(500000000 :: instant) > 0 \<and> format_RFC3339Nano 500000000 < format_RFC3339Nano 0"
  by (rule conjI, simp, code_simp)

section \<open>One answer\<close>

lemma responds_management:
  "responds (health h) (Suc 0)" "responds (importAgreement r) (Suc 0)"
  "responds listAgreements (Suc 0)" "responds listTransfers (Suc 0)"
  by (auto simp: health_def importAgreement_def http_error_def listAgreements_def listTransfers_def
      intro!: responds_rules split: option.splits sum.splits)

lemma responds_authenticated: "responds k (Suc 0) \<Longrightarrow> responds (authenticated token r k) (Suc 0)"
  by (simp add: authenticated_def)

section \<open>Safety\<close>

text \<open>The participant an import names.\<close>

definition import_party :: "request \<Rightarrow> string" where
  "import_party r = (case decode (dec_struct importBody_fields) zero_importBody (rq_Body r) of
     None \<Rightarrow> '''' | Some body \<Rightarrow> mb_CounterpartyID body)"

lemma safe_imported_agreement:
  assumes "a_Origin a = OriginImported" and "a_CounterpartyID a = p"
    and "\<And>w' e. safe (rely h) (acts_for h p) (k e) w'"
  shows "safe (rely h) (acts_for h p) (call (CreateAgreement a) k) w"
proof (rule safe_call_acts)
  fix w' i
  assume w': "rely h w w'" "conn_invar h (db w')"
  have "agreement_ok (db w') a"
    using assms(1) by (simp add: agreement_ok_def OriginAgreed_def OriginNegotiated_def OriginImported_def)
  then show "acts_for h p w' (w'\<lparr>db := snd (CreateAgreement a i (db w'))\<rparr>)"
    unfolding CreateAgreement_def using assms(2) w'(2)
    by (intro acts_driver) (auto intro: acts_for_refl acts_insert_agreement split: option.splits)
qed (rule assms(3))

lemma safe_importAgreement: "safe (rely h) (acts_for h (import_party r)) (importAgreement r) w"
  unfolding importAgreement_def import_party_def http_error_def WriteHeader_def
  by (intro safe_structure safe_imported_agreement) (auto intro!: safe_structure safe_GetAgreement)

lemma safe_listings:
  "safe (rely h) (acts_for h p) (health h) w" "safe (rely h) (acts_for h p) listAgreements w"
  "safe (rely h) (acts_for h p) listTransfers w"
  unfolding health_def listAgreements_def listTransfers_def ListAgreements_def
    ListConsumerTransfers_def ListTransfers_def writeJSON_def WriteHeader_def
  by (intro safe_usable safe_structure safe_query_acts; simp add: safe_query_acts)+

lemma safe_authenticated:
  "(token \<noteq> '''' \<Longrightarrow> cutBearerPrefix (rq_Authorization r) = Some token \<Longrightarrow> safe R G k w) \<Longrightarrow>
     safe R G (authenticated token r k) w"
  by (simp add: authenticated_def)

end
