(* ===== verification/Transfers.thy ===== *)
theory Transfers
  imports TransferConsumer
begin

text \<open>
  The transfer process, provider role, and the endpoints both roles share
  (\<^verbatim>\<open>transfer_handler.go\<close>): the request that opens a transfer, the configured
  sequence the connector drives, the four messages that move a transfer and the state document.
  The theory proves that every handler answers exactly once and is \<open>safe\<close> for the participant
  that sent the request.
\<close>

section \<open>The provider's sequence\<close>

definition resolveTransferSequence :: "Config \<Rightarrow> string \<Rightarrow> string \<Rightarrow> string list" where
  "resolveTransferSequence cfg agreementID datasetID =
     (case find (\<lambda>p. tp_AgreementID p = agreementID) (TransferPolicies cfg) of
        Some p \<Rightarrow> tp_Sequence p
      | None \<Rightarrow>
          (case find (\<lambda>d. d_ID d = datasetID \<and> d_TransferSequence d \<noteq> None) (Datasets cfg) of
             Some d \<Rightarrow> the (d_TransferSequence d)
           | None \<Rightarrow> [TransferStarted]))"

definition servableAsProvider :: "Agreement \<Rightarrow> bool" where
  "servableAsProvider a \<longleftrightarrow> a_Origin a \<noteq> OriginAgreed"

definition hasSourceFor :: "handler \<Rightarrow> string \<Rightarrow> (bool \<Rightarrow> prog) \<Rightarrow> prog" where
  "hasSourceFor h agreementID k = call (GetAgreement agreementID) (\<lambda>res. case res of
     Inl e \<Rightarrow> k False
   | Inr found \<Rightarrow> (case found of
       None \<Rightarrow> k False
     | Some a \<Rightarrow>
         if \<not> servableAsProvider a then k False
         else k (\<exists>d \<in> set (Datasets (h_cfg h)). d_ID d = a_DatasetID a \<and> d_SourceFile d \<noteq> '''')))"

definition transferStepMessage ::
  "handler \<Rightarrow> TransferProcess \<Rightarrow> string \<Rightarrow> (transfer_message option \<Rightarrow> prog) \<Rightarrow> prog" where
  "transferStepMessage h t to k =
     (if to = TransferStarted then
        hasSourceFor h (t_AgreementID t) (\<lambda>source.
          k (Some (transferPath ''/start'',
            DTransferStart (if source then buildTransferStartMessageWithData t (PublicURL (h_cfg h))
                            else buildTransferStartMessage t),
            startLegalFrom)))
      else if to = TransferSuspended then
        k (Some (transferPath ''/suspension'',
          DTransferSuspension (buildTransferSuspensionMessage t), suspensionLegalFrom))
      else if to = TransferCompleted then
        k (Some (transferPath ''/completion'',
          DTransferCompletion (buildTransferCompletionMessage t), completionLegalFrom))
      else if to = TransferTerminated then
        k (Some (transferPath ''/termination'',
          DTransferTermination (buildTransferTerminationMessage t), terminationLegalFrom))
      else k None)"

definition pushTransferStep :: "handler \<Rightarrow> TransferProcess \<Rightarrow> string \<Rightarrow> (bool \<Rightarrow> prog) \<Rightarrow> prog" where
  "pushTransferStep h t to k = transferStepMessage h t to (\<lambda>message. case message of
     None \<Rightarrow> k False
   | Some m \<Rightarrow> (case m of (path, msg, legalFrom) \<Rightarrow>
       if \<not> legalFrom (t_State t) then k False
       else (let callbackURL = t_CallbackAddress t @ path (t_ConsumerPID t) in
         AllowURL callbackURL (\<lambda>allowed.
           if \<not> allowed then k False
           else pushCallback h callbackURL msg (t_CounterpartyID t) (\<lambda>pushed. Now (\<lambda>now.
             call (SetTransferState (t_ProviderPID t) (t_State t) to now) (\<lambda>res.
               case res of Inl e \<Rightarrow> k False | Inr u \<Rightarrow> k True)))))))"

primrec drive_transfer_steps :: "handler \<Rightarrow> string list \<Rightarrow> TransferProcess \<Rightarrow> prog" where
  "drive_transfer_steps h [] t = Done"
| "drive_transfer_steps h (st # sts) t = Sleep (h_stepDelay h)
     (pushTransferStep h t st (\<lambda>ok.
        if ok then drive_transfer_steps h sts (t\<lparr>t_State := st\<rparr>) else Done))"

definition driveTransfer :: "handler \<Rightarrow> TransferProcess \<Rightarrow> prog" where
  "driveTransfer h t = call (GetAgreement (t_AgreementID t)) (\<lambda>res.
     let datasetID = (case res of
           Inl e \<Rightarrow> ''''
         | Inr found \<Rightarrow> (case found of None \<Rightarrow> ''''
             | Some a \<Rightarrow> if servableAsProvider a then a_DatasetID a else ''''))
     in drive_transfer_steps h (resolveTransferSequence (h_cfg h) (t_AgreementID t) datasetID) t)"

section \<open>Opening a transfer\<close>

definition handleTransferRequest :: "handler \<Rightarrow> request \<Rightarrow> prog" where
  "handleTransferRequest h r =
     decode_body TransferErrorType notCompactForm TransferRequestMessage_fields
       zero_TransferRequestMessage r
     (\<lambda>msg. checkEnvelope TransferErrorType (tm_Context msg) (tm_Type msg) TransferRequestMessageType
       (if tm_ConsumerPID msg = '''' then
          writeError TransferErrorType StatusBadRequest ''consumerPid is required''
        else if tm_AgreementID msg = '''' then
          writeError TransferErrorType StatusBadRequest ''agreementId is required''
        else if tm_Format msg = '''' then
          writeError TransferErrorType StatusBadRequest ''format is required''
        else if tm_CallbackAddress msg = '''' then
          writeError TransferErrorType StatusBadRequest ''callbackAddress is required''
        else call (GetAgreement (tm_AgreementID msg)) (\<lambda>res. case res of
          Inl e \<Rightarrow> WriteHeader StatusInternalServerError Done
        | Inr found \<Rightarrow> (case found of
            None \<Rightarrow> writeError TransferErrorType StatusBadRequest
              (''no agreement with id '' @ tm_AgreementID msg)
          | Some a \<Rightarrow>
              if \<not> servableAsProvider a then
                writeError TransferErrorType StatusForbidden
                  ''this connector is not the provider on that agreement''
              else if AuthRequired (h_cfg h) \<and> a_CounterpartyID a \<noteq> '''' \<and>
                      rq_Issuer r \<noteq> a_CounterpartyID a then
                writeError TransferErrorType StatusForbidden ''that agreement is not yours''
              else Uuid (\<lambda>u. case u of
                None \<Rightarrow> WriteHeader StatusInternalServerError Done
              | Some providerPID \<Rightarrow> Now (\<lambda>now.
                  let t = \<lparr>t_ProviderPID = providerPID, t_ConsumerPID = tm_ConsumerPID msg,
                    t_AgreementID = tm_AgreementID msg, t_State = TransferRequested,
                    t_CallbackAddress = tm_CallbackAddress msg, t_Format = tm_Format msg,
                    t_CounterpartyID = rq_Issuer r, t_CreatedAt = now, t_UpdatedAt = now\<rparr>
                  in call (CreateTransfer t) (\<lambda>made. case made of
                       Inl e \<Rightarrow> WriteHeader StatusInternalServerError Done
                     | Inr v \<Rightarrow> writeJSON StatusCreated (DTransferProcess (buildTransferProcessDoc t))
                         (Go (driveTransfer h t) Done))))))))"

section \<open>Transfers by role\<close>

text \<open>A transfer found by path id: a consumer's row is projected into the provider's record.\<close>

record resolvedTransfer = TransferProcess +
  rt_Consumer :: bool
  rt_ProviderBaseURL :: string
  rt_ExpectedBytes :: int64

definition resolve_consumer :: "ConsumerTransfer \<Rightarrow> resolvedTransfer" where
  "resolve_consumer c =
     \<lparr>t_ProviderPID = ct_ProviderPID c, t_ConsumerPID = ct_ConsumerPID c,
      t_AgreementID = ct_AgreementID c, t_State = ct_State c, t_CallbackAddress = '''',
      t_Format = ct_Format c, t_CounterpartyID = ct_CounterpartyID c,
      t_CreatedAt = ct_CreatedAt c, t_UpdatedAt = ct_UpdatedAt c,
      rt_Consumer = True, rt_ProviderBaseURL = ct_ProviderBaseURL c,
      rt_ExpectedBytes = ct_ExpectedBytes c\<rparr>"

definition resolve_provider :: "TransferProcess \<Rightarrow> resolvedTransfer" where
  "resolve_provider t = TransferProcess.extend t
     \<lparr>rt_Consumer = False, rt_ProviderBaseURL = '''', rt_ExpectedBytes = 0\<rparr>"

lemma resolve_provider_simps [simp]:
  "TransferProcess.truncate (resolve_provider t) = t" "rt_Consumer (resolve_provider t) = False"
  "t_CounterpartyID (resolve_provider t) = t_CounterpartyID t"
  "t_ProviderPID (resolve_provider t) = t_ProviderPID t" "t_State (resolve_provider t) = t_State t"
  by (cases t; simp add: resolve_provider_def TransferProcess.defs)+

definition resolved_id :: "resolvedTransfer \<Rightarrow> string" where
  "resolved_id r = (if rt_Consumer r then t_ConsumerPID r else t_ProviderPID r)"

definition lookupTransfer :: "handler \<Rightarrow> request \<Rightarrow> (resolvedTransfer \<Rightarrow> prog) \<Rightarrow> prog" where
  "lookupTransfer h r k = call (GetConsumerTransfer (rq_ID r)) (\<lambda>res. case res of
     Inl e \<Rightarrow> WriteHeader StatusInternalServerError Done
   | Inr found \<Rightarrow> (case found of
       Some c \<Rightarrow> refuseIfNotParty r TransferErrorType (ct_CounterpartyID c) (AuthRequired (h_cfg h))
         (k (resolve_consumer c))
     | None \<Rightarrow> call (GetTransfer (rq_ID r)) (\<lambda>res'. case res' of
         Inl e \<Rightarrow> WriteHeader StatusInternalServerError Done
       | Inr found' \<Rightarrow> (case found' of
           None \<Rightarrow> writeError TransferErrorType StatusNotFound (''no transfer with id '' @ rq_ID r)
         | Some t \<Rightarrow> refuseIfNotParty r TransferErrorType (t_CounterpartyID t)
             (AuthRequired (h_cfg h)) (k (resolve_provider t))))))"

definition inboundStartLegalFor :: "resolvedTransfer \<Rightarrow> string \<Rightarrow> bool" where
  "inboundStartLegalFor r = (if rt_Consumer r then startLegalFrom else providerInboundStartLegalFrom)"

definition setTransferState ::
  "resolvedTransfer \<Rightarrow> string \<Rightarrow> string \<Rightarrow> instant \<Rightarrow> unit store_op" where
  "setTransferState r st to at =
     (if rt_Consumer r then SetConsumerTransferState (t_ConsumerPID r) st to at
      else SetTransferState (t_ProviderPID r) st to at)"

definition zero_ConsumerTransfer :: ConsumerTransfer where
  "zero_ConsumerTransfer = \<lparr>ct_ConsumerPID = '''', ct_ProviderPID = '''', ct_ProviderBaseURL = '''',
     ct_AgreementID = '''', ct_Format = '''', ct_State = '''', ct_CounterpartyID = '''',
     ct_ExpectedBytes = 0, ct_ReceivedBytes = 0, ct_DataPath = '''', ct_DataCompletedAt = None,
     ct_DataError = '''', ct_CreatedAt = 0, ct_UpdatedAt = 0\<rparr>"

text \<open>A \<open>None\<close> rule is the nil of the code: the rule of the start message, which depends on the role.\<close>

definition applyTransition ::
  "handler \<Rightarrow> request \<Rightarrow> string \<Rightarrow> (string \<Rightarrow> bool) option \<Rightarrow> string \<Rightarrow> prog" where
  "applyTransition h r wantType rule to = lookupTransfer h r (\<lambda>t.
     let legalFrom = (case rule of None \<Rightarrow> inboundStartLegalFor t | Some f \<Rightarrow> f) in
     decode_body TransferErrorType notCompactForm transferEnvelope_fields zero_transferEnvelope r (\<lambda>msg.
       checkEnvelope TransferErrorType (te_Context msg) (te_Type msg) wantType
         (if \<not> legalFrom (t_State t) then
            writeError TransferErrorType StatusBadRequest (wantType @ '' is not valid from '' @ t_State t)
          else Now (\<lambda>now. call (setTransferState t (t_State t) to now) (\<lambda>res. case res of
            Inl e \<Rightarrow> writeTransferStateUpdateError (resolved_id t) e
          | Inr u \<Rightarrow> writeJSON StatusOK
              (DTransferProcess (buildTransferProcessDoc (TransferProcess.truncate (t\<lparr>t_State := to\<rparr>))))
              (if rt_Consumer t then
                 (let drive = maybeDriveConsumerTransfer h (zero_ConsumerTransfer
                        \<lparr>ct_ConsumerPID := t_ConsumerPID t, ct_ProviderPID := t_ProviderPID t,
                         ct_ProviderBaseURL := rt_ProviderBaseURL t, ct_AgreementID := t_AgreementID t,
                         ct_CounterpartyID := t_CounterpartyID t, ct_Format := t_Format t,
                         ct_State := to\<rparr>) to
                  in if to = TransferStarted \<and> te_DataAddress msg \<noteq> None then
                       Go (pullTransferData h (zero_ConsumerTransfer
                            \<lparr>ct_ConsumerPID := t_ConsumerPID t, ct_ProviderPID := t_ProviderPID t,
                             ct_AgreementID := t_AgreementID t, ct_CounterpartyID := t_CounterpartyID t,
                             ct_State := to, ct_ExpectedBytes := rt_ExpectedBytes t\<rparr>)
                            (te_DataAddress msg)) drive
                     else drive)
               else Done))))))"

definition handleTransferStart :: "handler \<Rightarrow> request \<Rightarrow> prog" where
  "handleTransferStart h r = applyTransition h r TransferStartMessageType None TransferStarted"

definition handleTransferCompletion :: "handler \<Rightarrow> request \<Rightarrow> prog" where
  "handleTransferCompletion h r =
     applyTransition h r TransferCompletionMessageType (Some completionLegalFrom) TransferCompleted"

definition handleTransferSuspension :: "handler \<Rightarrow> request \<Rightarrow> prog" where
  "handleTransferSuspension h r =
     applyTransition h r TransferSuspensionMessageType (Some suspensionLegalFrom) TransferSuspended"

definition handleTransferTermination :: "handler \<Rightarrow> request \<Rightarrow> prog" where
  "handleTransferTermination h r =
     applyTransition h r TransferTerminationMessageType (Some terminationLegalFrom) TransferTerminated"

definition handleGetTransfer :: "handler \<Rightarrow> request \<Rightarrow> prog" where
  "handleGetTransfer h r = lookupTransfer h r (\<lambda>t.
     writeJSON StatusOK (DTransferProcess (buildTransferProcessDoc (TransferProcess.truncate t))) Done)"

section \<open>One answer\<close>

lemma responds_transferStepMessage [responds_rules]:
  "(\<And>m. responds (k m) n) \<Longrightarrow> responds (transferStepMessage h t to k) n"
  by (auto simp: transferStepMessage_def hasSourceFor_def intro!: responds_rules
      split: option.splits sum.splits)

lemma responds_pushTransferStep [responds_rules]:
  "(\<And>b. responds (k b) n) \<Longrightarrow> responds (pushTransferStep h t to k) n"
  by (auto simp: pushTransferStep_def Let_def intro!: responds_rules split: option.splits sum.splits)

lemma responds_drive_transfer_steps [simp]: "responds (drive_transfer_steps h sts t) 0"
  by (induction sts arbitrary: t) (auto intro!: responds_rules)

lemma responds_driveTransfer [simp]: "responds (driveTransfer h t) 0"
  by (auto simp: driveTransfer_def Let_def intro!: responds_rules)

lemma responds_lookupTransfer [responds_rules]:
  "(\<And>t. responds (k t) (Suc 0)) \<Longrightarrow> responds (lookupTransfer h r k) (Suc 0)"
  by (auto simp: lookupTransfer_def intro!: responds_rules split: option.splits sum.splits)

lemma responds_applyTransition: "responds (applyTransition h r ty rule to) (Suc 0)"
  by (auto simp: applyTransition_def Let_def intro!: responds_rules split: sum.splits)

lemma responds_transfer:
  "responds (handleTransferRequest h r) (Suc 0)" "responds (handleTransferStart h r) (Suc 0)"
  "responds (handleTransferCompletion h r) (Suc 0)" "responds (handleTransferSuspension h r) (Suc 0)"
  "responds (handleTransferTermination h r) (Suc 0)" "responds (handleGetTransfer h r) (Suc 0)"
  by (auto simp: handleTransferRequest_def handleTransferStart_def handleTransferCompletion_def
      handleTransferSuspension_def handleTransferTermination_def handleGetTransfer_def Let_def
      intro!: responds_rules responds_applyTransition split: option.splits sum.splits)

section \<open>Safety\<close>

lemma safe_hasSourceFor:
  assumes "known_transfer t (db w)"
    and "\<And>b v. rely h w v \<Longrightarrow> known_transfer t (db v) \<Longrightarrow> safe (rely h) (acts_for h p) (k b) v"
  shows "safe (rely h) (acts_for h p) (hasSourceFor h aid k) w"
proof -
  have "safe (rely h) (acts_for h p) (k b) v" if "rely h w v" for b v
    using assms(2) [OF that] known_transfer_later [OF that assms(1)] by blast
  then show ?thesis
    unfolding hasSourceFor_def by (intro safe_GetAgreement safe_structure) auto
qed

lemma safe_transferStepMessage:
  assumes "known_transfer t (db w)"
    and "\<And>v. known_transfer t (db v) \<Longrightarrow> safe (rely h) (acts_for h p) (k None) v"
    and "\<And>path msg legalFrom v. known_transfer t (db v) \<Longrightarrow>
      (\<And>st. legalFrom st \<Longrightarrow> transfer_edge st to) \<Longrightarrow>
      safe (rely h) (acts_for h p) (k (Some (path, msg, legalFrom))) v"
  shows "safe (rely h) (acts_for h p) (transferStepMessage h t to k) w"
  unfolding transferStepMessage_def
  by (intro safe_structure safe_hasSourceFor assms(3)) (use assms(1,2) in \<open>auto simp: legal_defs\<close>)

lemma safe_pushTransferStep:
  assumes "known_transfer t (db w)" and "AuthRequired (h_cfg h) \<Longrightarrow> t_CounterpartyID t = p"
    and "\<And>b v. known_transfer t (db v) \<Longrightarrow> safe (rely h) (acts_for h p) (k b) v"
  shows "safe (rely h) (acts_for h p) (pushTransferStep h t to k) w"
  unfolding pushTransferStep_def
proof (rule safe_transferStepMessage [OF assms(1)], goal_cases)
  case (1 v)
  then show ?case using assms(3) by simp
next
  case (2 path msg legalFrom v)
  then show ?case
    unfolding option.case prod.case Let_def
    by (intro safe_structure safe_pushCallback safe_SetTransferState [where u = t])
      (use assms(2,3) in auto)
qed

lemma safe_drive_transfer_steps:
  assumes "known_transfer t (db w)" and "AuthRequired (h_cfg h) \<Longrightarrow> t_CounterpartyID t = p"
  shows "safe (rely h) (acts_for h p) (drive_transfer_steps h sts t) w"
  using assms by (induction sts arbitrary: t w) (auto intro!: safe_pushTransferStep)

lemma safe_driveTransfer:
  assumes "known_transfer t (db w)" and "AuthRequired (h_cfg h) \<Longrightarrow> t_CounterpartyID t = p"
  shows "safe (rely h) (acts_for h p) (driveTransfer h t) w"
proof -
  have "safe (rely h) (acts_for h p) (drive_transfer_steps h sts t) v" if "rely h w v" for sts v
    using safe_drive_transfer_steps [OF known_transfer_later [OF that assms(1)]] assms(2) by blast
  then show ?thesis
    unfolding driveTransfer_def Let_def by (intro safe_GetAgreement) auto
qed

lemma safe_handleTransferRequest:
  "safe (rely h) (acts_for h (rq_Issuer r)) (handleTransferRequest h r) w"
  unfolding handleTransferRequest_def WriteHeader_def writeJSON_def
  by (intro safe_decode_body safe_checkEnvelope safe_structure safe_GetAgreement safe_CreateTransfer
      safe_driveTransfer)
    (auto simp: transfer_ok_def servableAsProvider_def)

text \<open>What the lookup knows of the row, in either role.\<close>

definition known_resolved :: "resolvedTransfer \<Rightarrow> store \<Rightarrow> bool" where
  "known_resolved t s \<longleftrightarrow>
     (if rt_Consumer t then known_consumer_transfer (t_ConsumerPID t) (t_CounterpartyID t) s
      else known_transfer (TransferProcess.truncate t) s)"

lemma safe_lookupTransfer:
  assumes "\<And>w' t. rely h w w' \<Longrightarrow> known_resolved t (db w') \<Longrightarrow>
      (AuthRequired (h_cfg h) \<Longrightarrow> t_CounterpartyID t = rq_Issuer r) \<Longrightarrow>
      safe (rely h) (acts_for h p) (k t) w'"
  shows "safe (rely h) (acts_for h p) (lookupTransfer h r k) w"
proof -
  have prov: "safe (rely h) (acts_for h p) (k (resolve_provider t)) v"
    if "rely h w w'" "rely h w' v" "known_transfer t (db v)"
      "AuthRequired (h_cfg h) \<Longrightarrow> rq_Issuer r = t_CounterpartyID t" for w' v t
    using assms [OF conn.R_trans [OF that(1,2)], of "resolve_provider t"] that(3,4)
    by (simp add: known_resolved_def)
  have cons: "safe (rely h) (acts_for h p) (k (resolve_consumer c)) v"
    if "rely h w v" "known_consumer_transfer (rq_ID r) (ct_CounterpartyID c) (db v)"
      "ct_ConsumerPID c = rq_ID r"
      "AuthRequired (h_cfg h) \<Longrightarrow> rq_Issuer r = ct_CounterpartyID c" for v c
    using assms [OF that(1), of "resolve_consumer c"] that(2-4)
    by (simp add: resolve_consumer_def known_resolved_def)
  show ?thesis
    unfolding lookupTransfer_def WriteHeader_def
    by (intro safe_GetConsumerTransfer)
      (auto intro!: safe_structure safe_GetTransfer safe_refuseIfNotParty prov cons)
qed

lemma safe_setTransferState:
  assumes "known_resolved t (db w)" and "AuthRequired (h_cfg h) \<Longrightarrow> t_CounterpartyID t = p"
    and "transfer_edge st to"
    and "\<And>e v. known_resolved t (db v) \<Longrightarrow> safe (rely h) (acts_for h p) (k e) v"
  shows "safe (rely h) (acts_for h p) (call (setTransferState t st to now) k) w"
proof (cases "rt_Consumer t")
  case True
  with assms show ?thesis
    by (auto simp: setTransferState_def known_resolved_def
        intro!: safe_SetConsumerTransferState [where cp = "t_CounterpartyID t"])
next
  case False
  with assms show ?thesis
    by (auto simp: setTransferState_def known_resolved_def TransferProcess.defs
        intro!: safe_SetTransferState [where u = "TransferProcess.truncate t"])
qed

lemma safe_applyTransition:
  assumes "\<And>t st. (case rule of None \<Rightarrow> inboundStartLegalFor t | Some f \<Rightarrow> f) st \<Longrightarrow> transfer_edge st to"
  shows "safe (rely h) (acts_for h (rq_Issuer r)) (applyTransition h r ty rule to) w"
  unfolding applyTransition_def writeJSON_def Let_def
proof (rule safe_lookupTransfer, goal_cases)
  case (1 w' t)
  show ?case
    by (intro safe_decode_body safe_checkEnvelope safe_structure safe_setTransferState
        safe_pullTransferData [where cp = "t_CounterpartyID t"]
        safe_maybeDriveConsumerTransfer [where cp = "t_CounterpartyID t"])
      (use 1 assms in \<open>auto simp: known_resolved_def\<close>)
qed

lemma safe_transfer:
  "safe (rely h) (acts_for h (rq_Issuer r)) (handleTransferStart h r) w"
  "safe (rely h) (acts_for h (rq_Issuer r)) (handleTransferCompletion h r) w"
  "safe (rely h) (acts_for h (rq_Issuer r)) (handleTransferSuspension h r) w"
  "safe (rely h) (acts_for h (rq_Issuer r)) (handleTransferTermination h r) w"
  "safe (rely h) (acts_for h (rq_Issuer r)) (handleGetTransfer h r) w"
  unfolding handleTransferStart_def handleTransferCompletion_def handleTransferSuspension_def
    handleTransferTermination_def handleGetTransfer_def
  by (auto intro!: safe_applyTransition safe_lookupTransfer
      simp: legal_defs inboundStartLegalFor_def split: if_splits)

end
