(* ===== verification/DataPlane.thy ===== *)
theory DataPlane
  imports Transfers
begin

text \<open>
  The data plane of the provider role (\<^verbatim>\<open>data_handler.go\<close>): who is served which bytes of
  which file.  The bytes are the content of the source file when it is opened; the response
  carries what the handler hands to the connection, of which a client that leaves early receives
  a prefix.  The theory proves that the endpoint answers once and is \<open>safe\<close>; what every served byte
  presupposes is in \<open>TransferRuns\<close>.
\<close>

section \<open>The dataset behind an agreement\<close>

definition datasetFor :: "handler \<Rightarrow> string \<Rightarrow> (Dataset option \<Rightarrow> prog) \<Rightarrow> prog" where
  "datasetFor h agreementID k = call (GetAgreement agreementID) (\<lambda>res. case res of
     Inl e \<Rightarrow> k None
   | Inr found \<Rightarrow> (case found of
       None \<Rightarrow> k None
     | Some a \<Rightarrow> if \<not> servableAsProvider a then k None
                 else k (findConfiguredDataset (h_cfg h) (a_DatasetID a))))"

section \<open>Copying under a rolling deadline\<close>

text \<open>
  One round of the loop: whether the deadline could be set, the bytes read and the error of the
  read, how many of them were written and whether the write failed.  The result is the bytes
  written and the error the copy ended with, \<open>None\<close> at the end of the file; a loop whose rounds
  have not ended is still running.
\<close>

datatype copy_error = DeadlineError | WriteError | ShortWrite | ReadError

datatype read_end = More | EOF | ReadFailed

record copy_round =
  cr_Deadline :: bool
  cr_Bytes :: "8 word list"
  cr_End :: read_end
  cr_Written :: nat
  cr_WriteFailed :: bool

fun copyUnderRollingDeadline ::
  "8 word list \<Rightarrow> copy_round list \<Rightarrow> (8 word list \<times> copy_error option) option" where
  "copyUnderRollingDeadline sent [] = None"
| "copyUnderRollingDeadline sent (c # cs) =
     (if \<not> cr_Deadline c then Some (sent, Some DeadlineError)
      else
        (let n = length (cr_Bytes c); sent' = sent @ take (cr_Written c) (cr_Bytes c) in
         if 0 < n \<and> cr_WriteFailed c then Some (sent', Some WriteError)
         else if 0 < n \<and> cr_Written c < n then Some (sent', Some ShortWrite)
         else (case cr_End c of
                 EOF \<Rightarrow> Some (sent', None)
               | ReadFailed \<Rightarrow> Some (sent', Some ReadError)
               | More \<Rightarrow> copyUnderRollingDeadline sent' cs)))"

section \<open>Serving the bytes\<close>

definition noDataConfigured :: string where
  "noDataConfigured = ''no data is configured for this transfer's dataset''"

text \<open>The answer once the file is open: its content and the range the request names.\<close>

definition serve_file :: "Dataset \<Rightarrow> request \<Rightarrow> 8 word list \<Rightarrow> prog" where
  "serve_file ds r content =
     (let fileSize = word_of_nat (length content) in
      case parseRangeStart (rq_Range r) of
        Some rangeStart \<Rightarrow>
          if fileSize \<le>s rangeStart then
            Respond (ReplyHeaders [(''Content-Range'', ''bytes */'' @ FormatInt fileSize)] 416
              (Some (DError (errorDocument TransferErrorType 416
                ''the requested range starts at or after the end of this dataset's current content''))))
              Done
          else sys id (\<lambda>sought.
            if \<not> sought then WriteHeader StatusInternalServerError Done
            else Respond (Stream 206 (contentRange rangeStart fileSize) (fileSize - rangeStart)
                   (drop (nat (sint rangeStart)) content)) Done)
      | None \<Rightarrow>
          if 0 <s d_SimulateInterruptAfterBytes ds then
            (let n = (if fileSize <s d_SimulateInterruptAfterBytes ds then fileSize
                      else d_SimulateInterruptAfterBytes ds)
             in Respond (Stream 200 '''' fileSize (take (nat (sint n)) content)) Done)
          else Respond (Stream 200 '''' fileSize content) Done)"

definition handleData :: "handler \<Rightarrow> request \<Rightarrow> prog" where
  "handleData h r = call (GetTransfer (rq_ID r)) (\<lambda>res. case res of
     Inl e \<Rightarrow> WriteHeader StatusInternalServerError Done
   | Inr found \<Rightarrow> (case found of
       None \<Rightarrow> writeError TransferErrorType StatusNotFound (''no transfer with id '' @ rq_ID r)
     | Some t \<Rightarrow>
         if AuthRequired (h_cfg h) \<and> rq_Issuer r \<noteq> t_CounterpartyID t then
           writeError TransferErrorType StatusForbidden ''this transfer is not yours''
         else if t_State t \<noteq> TransferStarted then
           writeError TransferErrorType StatusConflict
             (''transfer '' @ rq_ID r @ '' is '' @ t_State t @ '', and data is served only from '' @
              TransferStarted)
         else datasetFor h (t_AgreementID t) (\<lambda>dataset. case dataset of
           None \<Rightarrow> writeError TransferErrorType StatusConflict noDataConfigured
         | Some ds \<Rightarrow>
             (let open_window =
                (if d_SourceFile ds = '''' then
                   writeError TransferErrorType StatusConflict noDataConfigured
                 else Act (\<lambda>i w. w) (\<lambda>i w. case (if i = IoOk then files w (d_SourceFile ds) else None) of
                        None \<Rightarrow> WriteHeader StatusInternalServerError Done
                      | Some content \<Rightarrow> sys id (\<lambda>statted.
                          if \<not> statted then WriteHeader StatusInternalServerError Done
                          else serve_file ds r content)))
              in case d_ValidityUntil ds of
                   None \<Rightarrow> open_window
                 | Some t \<Rightarrow> Now (\<lambda>now.
                     if \<not> now < t then
                       writeError TransferErrorType StatusConflict
                         ''the access window for this transfer's dataset has closed''
                     else open_window)))))"

section \<open>One answer, no write\<close>

lemma responds_datasetFor: "(\<And>d. responds (k d) n) \<Longrightarrow> responds (datasetFor h aid k) n"
  by (auto simp: datasetFor_def intro!: responds_rules split: option.splits sum.splits)

lemma responds_handleData: "responds (handleData h r) (Suc 0)"
  by (auto simp: handleData_def serve_file_def Let_def intro!: responds_rules responds_datasetFor responds_sys
      split: option.splits sum.splits)

lemma safe_readonly_Act:
  assumes "\<And>i w'. u i w' = w'" and "\<And>i w' v. rely h w v \<Longrightarrow> safe (rely h) (acts_for h p) (k i w') v"
  shows "safe (rely h) (acts_for h p) (Act u k) w"
  using assms conn.R_inv by (auto intro: acts_for_refl)

lemma safe_handleData: "safe (rely h) (acts_for h (rq_Issuer r)) (handleData h r) w"
proof -
  have serve: "safe (rely h) (acts_for h (rq_Issuer r)) (serve_file ds r content) v" for ds content v
    unfolding serve_file_def Let_def WriteHeader_def sys_def
    by (intro safe_structure safe_readonly_Act) simp_all
  have window: "safe (rely h) (acts_for h (rq_Issuer r))
      (Act (\<lambda>i w. w) (\<lambda>i w. case (if i = IoOk then files w (d_SourceFile ds) else None) of
         None \<Rightarrow> WriteHeader StatusInternalServerError Done
       | Some content \<Rightarrow> sys id (\<lambda>statted.
           if \<not> statted then WriteHeader StatusInternalServerError Done
           else serve_file ds r content))) v" for ds v
    unfolding WriteHeader_def sys_def
    by (intro safe_structure safe_readonly_Act serve) simp_all
  show ?thesis
    unfolding handleData_def datasetFor_def Let_def
    by (intro safe_GetTransfer safe_structure safe_GetAgreement window)
      (auto intro!: safe_structure safe_GetAgreement window)
qed

end
