(* ===== verification/GoStrings.thy ===== *)
theory GoStrings
  imports Ranges
begin

text \<open>
  What the program uses of Go's \<^verbatim>\<open>strings\<close> beyond prefixes: splitting, trimming Unicode space,
  trimming a set of characters, and the fields between spaces.  A string is its bytes, so a rune
  of Unicode space is its UTF-8 encoding.
\<close>

section \<open>Splitting\<close>

text \<open>\<^verbatim>\<open>strings.Split\<close> at a character.\<close>

primrec split_on :: "char \<Rightarrow> string \<Rightarrow> string list" where
  "split_on x [] = [[]]"
| "split_on x (c # cs) =
     (if c = x then [] # split_on x cs
      else case split_on x cs of [] \<Rightarrow> [[c]] | p # ps \<Rightarrow> (c # p) # ps)"

lemma split_on_none: "x \<notin> set s \<Longrightarrow> split_on x s = [s]"
  by (induction s) auto

lemma split_on_append: "x \<notin> set a \<Longrightarrow> split_on x (a @ x # b) = a # split_on x b"
  by (induction a) auto

text \<open>\<^verbatim>\<open>strings.HasSuffix\<close>.\<close>

definition HasSuffix :: "string \<Rightarrow> string \<Rightarrow> bool" where
  "HasSuffix s t = HasPrefix (rev s) (rev t)"

section \<open>Trimming\<close>

text \<open>The runes of \<^verbatim>\<open>unicode.IsSpace\<close>, in UTF-8.\<close>

definition space_runes :: "string list" where
  "space_runes =
    [[CHR 0x09], [CHR 0x0A], [CHR 0x0B], [CHR 0x0C], [CHR 0x0D], [CHR 0x20],
     [CHR 0xC2, CHR 0x85], [CHR 0xC2, CHR 0xA0], [CHR 0xE1, CHR 0x9A, CHR 0x80],
     [CHR 0xE2, CHR 0x80, CHR 0x80], [CHR 0xE2, CHR 0x80, CHR 0x81],
     [CHR 0xE2, CHR 0x80, CHR 0x82], [CHR 0xE2, CHR 0x80, CHR 0x83],
     [CHR 0xE2, CHR 0x80, CHR 0x84], [CHR 0xE2, CHR 0x80, CHR 0x85],
     [CHR 0xE2, CHR 0x80, CHR 0x86], [CHR 0xE2, CHR 0x80, CHR 0x87],
     [CHR 0xE2, CHR 0x80, CHR 0x88], [CHR 0xE2, CHR 0x80, CHR 0x89],
     [CHR 0xE2, CHR 0x80, CHR 0x8A], [CHR 0xE2, CHR 0x80, CHR 0xA8],
     [CHR 0xE2, CHR 0x80, CHR 0xA9], [CHR 0xE2, CHR 0x80, CHR 0xAF],
     [CHR 0xE2, CHR 0x81, CHR 0x9F], [CHR 0xE3, CHR 0x80, CHR 0x80]]"

function drop_runes :: "string list \<Rightarrow> string \<Rightarrow> string" where
  "drop_runes runes s = (case find (\<lambda>p. p \<noteq> [] \<and> take (length p) s = p) runes of
     None \<Rightarrow> s | Some p \<Rightarrow> drop_runes runes (drop (length p) s))"
  by pat_completeness auto
termination
proof (relation "measure (\<lambda>(runes, s). length s)", simp)
  fix runes :: "string list" and s p :: string
  assume "find (\<lambda>p. p \<noteq> [] \<and> take (length p) s = p) runes = Some p"
  then have "p \<noteq> []" "take (length p) s = p" by (auto simp: find_Some_iff)
  then have "0 < length p" "s \<noteq> []" by auto
  then show "((runes, drop (length p) s), runes, s) \<in> measure (\<lambda>(runes, s). length s)" by simp
qed

declare drop_runes.simps [simp del]

definition TrimSpace :: "string \<Rightarrow> string" where
  "TrimSpace s = rev (drop_runes (map rev space_runes) (rev (drop_runes space_runes s)))"

text \<open>Nothing to trim between two printable ASCII characters.\<close>

lemma space_runes_ends:
  "p \<in> set space_runes \<Longrightarrow> p \<noteq> [] \<and> (of_char (hd p) :: nat) \<notin> {33 ..< 128} \<and>
     (of_char (last p) :: nat) \<notin> {33 ..< 128}"
  by (auto simp: space_runes_def)

lemma drop_runes_id: "(\<And>p. p \<in> set runes \<Longrightarrow> hd p \<noteq> hd s) \<Longrightarrow> drop_runes runes s = s"
proof -
  assume heads: "\<And>p. p \<in> set runes \<Longrightarrow> hd p \<noteq> hd s"
  have "hd p = hd s" if "p \<noteq> []" "take (length p) s = p" for p
    using that by (metis hd_take length_greater_0_conv)
  with heads have "find (\<lambda>p. p \<noteq> [] \<and> take (length p) s = p) runes = None"
    by (auto simp: find_None_iff)
  then show ?thesis by (subst drop_runes.simps) simp
qed

lemma TrimSpace_id:
  assumes "(of_char (hd s) :: nat) \<in> {33 ..< 128}" and "(of_char (last s) :: nat) \<in> {33 ..< 128}"
    and "s \<noteq> []"
  shows "TrimSpace s = s"
proof -
  have "hd p \<noteq> hd s" "last p \<noteq> last s" "p \<noteq> []" if "p \<in> set space_runes" for p
    using space_runes_ends [OF that] assms(1,2) by metis+
  then have "drop_runes space_runes s = s" "drop_runes (map rev space_runes) (rev s) = rev s"
    using assms(3) by (auto intro!: drop_runes_id simp: hd_rev)
  then show ?thesis by (simp add: TrimSpace_def)
qed

text \<open>\<^verbatim>\<open>strings.TrimLeft\<close>, \<^verbatim>\<open>strings.TrimRight\<close> and \<^verbatim>\<open>strings.Trim\<close> with a set of characters.\<close>

definition TrimLeft :: "string \<Rightarrow> string \<Rightarrow> string" where
  "TrimLeft s cutset = dropWhile (\<lambda>c. c \<in> set cutset) s"

definition TrimRight :: "string \<Rightarrow> string \<Rightarrow> string" where
  "TrimRight s cutset = rev (TrimLeft (rev s) cutset)"

definition Trim :: "string \<Rightarrow> string \<Rightarrow> string" where
  "Trim s cutset = TrimRight (TrimLeft s cutset) cutset"

text \<open>\<^verbatim>\<open>strings.Fields\<close>: the non-empty runs between runes of space.\<close>

function fields_from :: "string \<Rightarrow> string \<Rightarrow> string list" where
  "fields_from acc s = (case s of
     [] \<Rightarrow> (if acc = [] then [] else [rev acc])
   | c # cs \<Rightarrow> (case find (\<lambda>p. p \<noteq> [] \<and> take (length p) s = p) space_runes of
       Some p \<Rightarrow> (if acc = [] then [] else [rev acc]) @ fields_from [] (drop (length p) s)
     | None \<Rightarrow> fields_from (c # acc) cs))"
  by pat_completeness auto
termination
  by (relation "measure (\<lambda>(acc, s). length s)") (auto simp: find_Some_iff)

declare fields_from.simps [simp del]

definition Fields :: "string \<Rightarrow> string list" where
  "Fields s = fields_from [] s"

text \<open>\<^verbatim>\<open>strings.Join\<close>.\<close>

fun Join :: "string list \<Rightarrow> string \<Rightarrow> string" where
  "Join [] sep = ''''"
| "Join [p] sep = p"
| "Join (p # q # ps) sep = p @ sep @ Join (q # ps) sep"

end
