(* ===== verification/Token.thy ===== *)
theory Token
  imports Json GoStrings
begin

text \<open>
  The credential of \<^verbatim>\<open>internal/auth/token.go\<close>: a JWT over Ed25519.  Bytes are
  characters.  \<^verbatim>\<open>encoding/base64\<close> (raw, URL alphabet, CR and LF skipped, trailing
  bits not checked) and the \<^verbatim>\<open>int64\<close> arithmetic of the time checks are written out.  The
  text of a JSON document and the signature scheme are the parameters of the model: \<open>unmarshal\<close>
  and \<open>marshal\<close> of \<^verbatim>\<open>encoding/json\<close>, \<open>sign\<close> and \<open>verify\<close> of
  \<^verbatim>\<open>crypto/ed25519\<close>.  The theory proves what an accepted token carries, and that a
  minted token is accepted.
\<close>

section \<open>Base64, raw URL alphabet\<close>

definition b64_char :: "int \<Rightarrow> char" where
  "b64_char n = (if n < 26 then char_of (nat (65 + n)) else if n < 52 then char_of (nat (71 + n))
     else if n < 62 then char_of (nat (n - 4)) else if n = 62 then CHR ''-'' else CHR ''_'')"

definition b64_val :: "char \<Rightarrow> int option" where
  "b64_val c = (let n = int (of_char c) in
     if 65 \<le> n \<and> n \<le> 90 then Some (n - 65) else if 97 \<le> n \<and> n \<le> 122 then Some (n - 71)
     else if 48 \<le> n \<and> n \<le> 57 then Some (n + 4) else if c = CHR ''-'' then Some 62
     else if c = CHR ''_'' then Some 63 else None)"

definition byte_val :: "char \<Rightarrow> int" where
  "byte_val c = int (of_char c)"

definition byte_char :: "int \<Rightarrow> char" where
  "byte_char n = char_of (nat n)"

fun b64_digits :: "int list \<Rightarrow> int list" where
  "b64_digits [] = []"
| "b64_digits [a] = [a div 4, (a mod 4) * 16]"
| "b64_digits [a, b] = [a div 4, (a mod 4) * 16 + b div 16, (b mod 16) * 4]"
| "b64_digits (a # b # c # ds) =
     [a div 4, (a mod 4) * 16 + b div 16, (b mod 16) * 4 + c div 64, c mod 64] @ b64_digits ds"

fun b64_bytes :: "int list \<Rightarrow> int list option" where
  "b64_bytes [] = Some []"
| "b64_bytes [p] = None"
| "b64_bytes [p, q] = Some [p * 4 + q div 16]"
| "b64_bytes [p, q, r] = Some [p * 4 + q div 16, (q mod 16) * 16 + r div 4]"
| "b64_bytes (p # q # r # s # ds) = map_option (\<lambda>bs.
     [p * 4 + q div 16, (q mod 16) * 16 + r div 4, (r mod 4) * 64 + s] @ bs) (b64_bytes ds)"

primrec map_all :: "('a \<Rightarrow> 'b option) \<Rightarrow> 'a list \<Rightarrow> 'b list option" where
  "map_all f [] = Some []"
| "map_all f (x # xs) = (case f x of None \<Rightarrow> None | Some y \<Rightarrow> map_option (\<lambda>ys. y # ys) (map_all f xs))"

definition b64_encode :: "string \<Rightarrow> string" where
  "b64_encode b = map b64_char (b64_digits (map byte_val b))"

definition b64_decode :: "string \<Rightarrow> string option" where
  "b64_decode s = Option.bind
     (map_all b64_val (filter (\<lambda>c. c \<noteq> char_of (10 :: nat) \<and> c \<noteq> char_of (13 :: nat)) s))
     (\<lambda>ds. map_option (map byte_char) (b64_bytes ds))"

section \<open>The token\<close>

definition Algorithm :: string where "Algorithm = ''EdDSA''"

definition second :: instant where "second = 1000000000"
definition clockLeeway :: instant where "clockLeeway = 60 * second"
definition maxCredentialLifetime :: instant where "maxCredentialLifetime = 3600 * second"
definition credentialTTL :: instant where "credentialTTL = 300 * second"

text \<open>\<^verbatim>\<open>Time.Unix\<close>.\<close>

definition Unix :: "instant \<Rightarrow> int64" where
  "Unix t = word_of_int (t div second)"

datatype token_error =
    ErrMalformed | ErrBadAlgorithm | ErrUnknownIssuer | ErrBadSignature | ErrExpired
  | ErrWrongAudience | ErrLifetimeTooLong

record jwt_header =
  jh_Alg :: string
  jh_Typ :: string

record claims =
  jc_Iss :: string
  jc_Aud :: string
  jc_Iat :: int64
  jc_Exp :: int64

definition dec_int64 :: "int64 decoder" where
  "dec_int64 j old = (case j of JNum s \<Rightarrow> ParseInt s | JNull \<Rightarrow> Some old | _ \<Rightarrow> None)"

definition jwt_header_fields :: "jwt_header json_field list" where
  "jwt_header_fields =
     [field_of ''alg'' jh_Alg (\<lambda>x. jh_Alg_update (\<lambda>_. x)) dec_string,
      field_of ''typ'' jh_Typ (\<lambda>x. jh_Typ_update (\<lambda>_. x)) dec_string]"

definition claims_fields :: "claims json_field list" where
  "claims_fields =
     [field_of ''iss'' jc_Iss (\<lambda>x. jc_Iss_update (\<lambda>_. x)) dec_string,
      field_of ''aud'' jc_Aud (\<lambda>x. jc_Aud_update (\<lambda>_. x)) dec_string,
      field_of ''iat'' jc_Iat (\<lambda>x. jc_Iat_update (\<lambda>_. x)) dec_int64,
      field_of ''exp'' jc_Exp (\<lambda>x. jc_Exp_update (\<lambda>_. x)) dec_int64]"

definition zero_jwt_header :: jwt_header where
  "zero_jwt_header = \<lparr>jh_Alg = '''', jh_Typ = ''''\<rparr>"

definition zero_claims :: claims where
  "zero_claims = \<lparr>jc_Iss = '''', jc_Aud = '''', jc_Iat = 0, jc_Exp = 0\<rparr>"

definition json_of_header :: "jwt_header \<Rightarrow> json" where
  "json_of_header h = JObj [(''alg'', JStr (jh_Alg h)), (''typ'', JStr (jh_Typ h))]"

definition json_of_claims :: "claims \<Rightarrow> json" where
  "json_of_claims c = JObj [(''iss'', JStr (jc_Iss c)), (''aud'', JStr (jc_Aud c)),
     (''iat'', JNum (FormatInt (jc_Iat c))), (''exp'', JNum (FormatInt (jc_Exp c)))]"

definition jwt_header_of_mint :: jwt_header where
  "jwt_header_of_mint = \<lparr>jh_Alg = Algorithm, jh_Typ = ''JWT''\<rparr>"

definition claims_of_mint :: "string \<Rightarrow> string \<Rightarrow> instant \<Rightarrow> instant \<Rightarrow> claims" where
  "claims_of_mint iss aud now ttl =
     \<lparr>jc_Iss = iss, jc_Aud = aud, jc_Iat = Unix now, jc_Exp = Unix (now + ttl)\<rparr>"

text \<open>
  \<^verbatim>\<open>Mint\<close>: \<open>None\<close> is its error for a key of the wrong size; \<open>sign\<close> is the signature with
  the key.
\<close>

definition Mint ::
  "(json \<Rightarrow> string) \<Rightarrow> (string \<Rightarrow> string) option \<Rightarrow> string \<Rightarrow> string \<Rightarrow> instant \<Rightarrow> instant \<Rightarrow> string option" where
  "Mint marshal priv iss aud now ttl = (case priv of
     None \<Rightarrow> None
   | Some sign \<Rightarrow>
       (let h = marshal (json_of_header jwt_header_of_mint);
            c = marshal (json_of_claims (claims_of_mint iss aud now ttl));
            signing = b64_encode h @ ''.'' @ b64_encode c
        in Some (signing @ ''.'' @ b64_encode (sign signing))))"

definition Verify ::
  "(string \<Rightarrow> json option) \<Rightarrow> ('k \<Rightarrow> string \<Rightarrow> string \<Rightarrow> bool) \<Rightarrow> string \<Rightarrow> (string \<Rightarrow> 'k option) \<Rightarrow>
   string \<Rightarrow> instant \<Rightarrow> token_error + string" where
  "Verify unmarshal verify token keyFor wantAud now = (case split_on (CHR ''.'') token of
     [p0, p1, p2] \<Rightarrow>
       (case b64_decode p0 of None \<Rightarrow> Inl ErrMalformed | Some rawHeader \<Rightarrow>
       (case b64_decode p1 of None \<Rightarrow> Inl ErrMalformed | Some rawClaims \<Rightarrow>
       (case b64_decode p2 of None \<Rightarrow> Inl ErrMalformed | Some sig \<Rightarrow>
       (case decode (dec_struct jwt_header_fields) zero_jwt_header (unmarshal rawHeader) of
          None \<Rightarrow> Inl ErrMalformed
        | Some h \<Rightarrow>
       if jh_Alg h \<noteq> Algorithm then Inl ErrBadAlgorithm
       else (case decode (dec_struct claims_fields) zero_claims (unmarshal rawClaims) of
          None \<Rightarrow> Inl ErrMalformed
        | Some c \<Rightarrow>
       (case keyFor (jc_Iss c) of None \<Rightarrow> Inl ErrUnknownIssuer | Some pub \<Rightarrow>
       if \<not> verify pub (p0 @ ''.'' @ p1) sig then Inl ErrBadSignature
       else if jc_Exp c \<le>s Unix (now - clockLeeway) then Inl ErrExpired
       else if word_of_int (maxCredentialLifetime div second) <s jc_Exp c - Unix now then
         Inl ErrLifetimeTooLong
       else if jc_Aud c \<noteq> wantAud then Inl ErrWrongAudience
       else Inr (jc_Iss c)))))))
   | _ \<Rightarrow> Inl ErrMalformed)"

section \<open>What an accepted token carries\<close>

lemma Verify_accepts:
  assumes "Verify unmarshal verify token keyFor wantAud now = Inr iss"
  obtains p0 p1 p2 rawClaims sig c pub where
    "split_on (CHR ''.'') token = [p0, p1, p2]" and "b64_decode p1 = Some rawClaims"
    and "b64_decode p2 = Some sig"
    and "decode (dec_struct claims_fields) zero_claims (unmarshal rawClaims) = Some c"
    and "jc_Iss c = iss" and "jc_Aud c = wantAud" and "keyFor iss = Some pub"
    and "verify pub (p0 @ ''.'' @ p1) sig"
    and "\<not> jc_Exp c \<le>s Unix (now - clockLeeway)"
    and "\<not> word_of_int (maxCredentialLifetime div second) <s jc_Exp c - Unix now"
  using assms unfolding Verify_def
  by (auto split: list.splits option.splits if_splits)

text \<open>Arithmetic on 64 bits that stays in range is arithmetic.\<close>

lemma sint64_of_int: "- (2 ^ 63) \<le> x \<Longrightarrow> x < 2 ^ 63 \<Longrightarrow> sint (word_of_int x :: int64) = x"
  by (simp add: sint_sbintrunc' signed_take_bit_int_eq_self)

lemma sint64_diff:
  assumes "- (2 ^ 63) \<le> sint a - sint b" and "sint a - sint b < 2 ^ 63"
  shows "sint (a - b :: int64) = sint a - sint b"
proof -
  have "a - b = word_of_int (sint a - sint b)" by simp
  then show ?thesis using sint64_of_int [OF assms] by simp
qed

definition clock_ok :: "instant \<Rightarrow> bool" where
  "clock_ok now \<longleftrightarrow> 0 \<le> now \<and> now div second < 2 ^ 62"

lemma sint_Unix: "clock_ok now \<Longrightarrow> - (2 ^ 62) \<le> d \<Longrightarrow> d \<le> 2 ^ 62 \<Longrightarrow>
    sint (Unix (now + d * second)) = now div second + d"
proof -
  assume now: "clock_ok now" and d: "- (2 ^ 62) \<le> d" "d \<le> 2 ^ 62"
  have "(now + d * second) div second = now div second + d"
    by (simp add: second_def)
  moreover have "0 \<le> now div second" "now div second < 2 ^ 62"
    using now by (auto simp: clock_ok_def second_def pos_imp_zdiv_nonneg_iff)
  ultimately show ?thesis
    using d unfolding Unix_def by (simp only:) (rule sint64_of_int; simp)
qed

lemma Unix_leeway: "clock_ok now \<Longrightarrow> sint (Unix (now - clockLeeway)) = now div second - 60"
  using sint_Unix [of now "- 60"] by (simp add: clockLeeway_def)

lemma Unix_now: "clock_ok now \<Longrightarrow> sint (Unix now) = now div second"
  using sint_Unix [of now 0] by simp

text \<open>
  The two time checks together bound the expiry by the verifier's own clock, for every 64-bit
  value an issuer can write: the subtraction does not wrap once the expiry check has passed.
\<close>

lemma expiry_window:
  assumes "clock_ok now" and "\<not> e \<le>s Unix (now - clockLeeway)"
    and "\<not> word_of_int (maxCredentialLifetime div second) <s e - Unix now"
  shows "now div second - 60 < sint e \<and> sint e \<le> now div second + 3600"
proof -
  have lo: "now div second - 60 < sint e"
    using assms(2) Unix_leeway [OF assms(1)] by (simp add: word_sle_eq)
  have "0 \<le> now div second" using assms(1) by (auto simp: clock_ok_def second_def)
  then have diff: "sint (e - Unix now) = sint e - now div second"
    using lo sint64_bounds(2) [of e] Unix_now [OF assms(1)] by (subst sint64_diff) auto
  have "sint (word_of_int (maxCredentialLifetime div second) :: int64) = 3600"
    by (subst sint64_of_int) (simp_all add: maxCredentialLifetime_def second_def)
  then show ?thesis
    using lo assms(3) diff by (simp add: word_sless_alt)
qed

section \<open>Encoding round trip\<close>

lemma of_char_code: "0 \<le> k \<Longrightarrow> k < 256 \<Longrightarrow> int (of_char (char_of (nat k))) = k"
  by (simp add: nat_less_iff)

lemma b64_char_code:
  assumes "0 \<le> n" and "n < 64"
  shows "int (of_char (b64_char n)) =
    (if n < 26 then 65 + n else if n < 52 then 71 + n else if n < 62 then n - 4
     else if n = 62 then 45 else 95)"
  using assms by (simp add: b64_char_def of_char_code)

lemma b64_val_char:
  assumes "0 \<le> n" and "n < 64"
  shows "b64_val (b64_char n) = Some n"
proof (cases "n < 62")
  case True
  then show ?thesis using assms b64_char_code [OF assms] by (auto simp: b64_val_def Let_def)
next
  case False
  with assms have "n = 62 \<or> n = 63" by auto
  then show ?thesis by (auto simp: b64_val_def b64_char_def)
qed

lemma b64_char_plain:
  assumes "0 \<le> n" and "n < 64"
  shows "b64_char n \<noteq> char_of (10 :: nat) \<and> b64_char n \<noteq> char_of (13 :: nat) \<and> b64_char n \<noteq> CHR ''.''"
proof -
  have "int (of_char (b64_char n)) \<notin> {10, 13, 46}"
    using assms b64_char_code [OF assms] by auto
  then show ?thesis by auto
qed

lemma byte_parts:
  assumes "0 \<le> x" and "(x :: int) < 256"
  shows "0 \<le> x div 4" "x div 4 < 64" "0 \<le> x mod 4" "x mod 4 \<le> 3"
    "0 \<le> x div 16" "x div 16 \<le> 15" "0 \<le> x mod 16" "x mod 16 \<le> 15"
    "0 \<le> x div 64" "x div 64 \<le> 3" "0 \<le> x mod 64" "x mod 64 < 64"
  using assms by auto

lemma byte_join:
  assumes "0 \<le> x" and "(x :: int) < 256"
  shows "x div 16 div 16 = 0" "x div 64 div 4 = 0" "x div 16 mod 16 * 16 + x mod 16 = x"
    "x div 64 mod 4 * 64 + x mod 64 = x"
proof -
  have "x div 16 < 16" "x div 64 < 4" "0 \<le> x div 16" "0 \<le> x div 64" using assms by auto
  then show "x div 16 div 16 = 0" "x div 64 div 4 = 0" "x div 16 mod 16 * 16 + x mod 16 = x"
    "x div 64 mod 4 * 64 + x mod 64 = x"
    using div_mult_mod_eq [of x 16] div_mult_mod_eq [of x 64] by simp_all
qed

lemma byte_digits:
  assumes "0 \<le> a" "(a :: int) < 256" "0 \<le> b" "b < 256" "0 \<le> c" "c < 256"
  shows "0 \<le> a mod 4 * 16 \<and> a mod 4 * 16 < 64"
    and "0 \<le> a mod 4 * 16 + b div 16 \<and> a mod 4 * 16 + b div 16 < 64"
    and "0 \<le> b mod 16 * 4 \<and> b mod 16 * 4 < 64"
    and "0 \<le> b mod 16 * 4 + c div 64 \<and> b mod 16 * 4 + c div 64 < 64"
proof -
  have join: "0 \<le> x * 16 \<and> x * 16 < 64 \<and> 0 \<le> x * 16 + y \<and> x * 16 + y < 64"
    if "0 \<le> x" "x \<le> 3" "0 \<le> y" "y \<le> 15" for x y :: int
    using that by linarith
  have join': "0 \<le> x * 4 \<and> x * 4 < 64 \<and> 0 \<le> x * 4 + y \<and> x * 4 + y < 64"
    if "0 \<le> x" "x \<le> 15" "0 \<le> y" "y \<le> 3" for x y :: int
    using that by linarith
  show "0 \<le> a mod 4 * 16 \<and> a mod 4 * 16 < 64"
    and "0 \<le> a mod 4 * 16 + b div 16 \<and> a mod 4 * 16 + b div 16 < 64"
    using join [of "a mod 4" "b div 16"] byte_parts(3,4) [OF assms(1,2)] byte_parts(5,6) [OF assms(3,4)]
    by simp_all
  show "0 \<le> b mod 16 * 4 \<and> b mod 16 * 4 < 64"
    and "0 \<le> b mod 16 * 4 + c div 64 \<and> b mod 16 * 4 + c div 64 < 64"
    using join' [of "b mod 16" "c div 64"] byte_parts(7,8) [OF assms(3,4)] byte_parts(9,10) [OF assms(5,6)]
    by simp_all
qed

lemma b64_digits_range:
  "\<forall>b \<in> set bs. 0 \<le> b \<and> b < 256 \<Longrightarrow> \<forall>d \<in> set (b64_digits bs). 0 \<le> d \<and> d < 64"
proof (induction bs rule: b64_digits.induct)
  case (2 a)
  then show ?case using byte_digits(1) [of a 0 0] byte_parts(1,2) [of a] by simp
next
  case (3 a b)
  then show ?case using byte_digits(2,3) [of a b 0] byte_parts(1,2) [of a] by simp
next
  case (4 a b c ds)
  have ds: "\<forall>d \<in> set (b64_digits ds). 0 \<le> d \<and> d < 64"
    using 4 by simp
  have abc: "0 \<le> a" "a < 256" "0 \<le> b" "b < 256" "0 \<le> c" "c < 256" using 4 by simp_all
  show ?case
    unfolding b64_digits.simps using ds byte_digits(2,4) [OF abc] byte_parts(1,2) [OF abc(1,2)] by simp
qed simp

lemma b64_bytes_digits:
  "\<forall>b \<in> set bs. 0 \<le> b \<and> b < 256 \<Longrightarrow> b64_bytes (b64_digits bs) = Some bs"
  by (induction bs rule: b64_digits.induct) (simp_all add: byte_join)

lemma byte_val_range: "0 \<le> byte_val c \<and> byte_val c < 256"
proof -
  have "(of_char c :: nat) = of_char c mod 256" by simp
  also have "\<dots> < 256" by simp
  finally show ?thesis by (simp add: byte_val_def)
qed

lemma byte_char_val [simp]: "byte_char (byte_val c) = c"
  by (simp add: byte_char_def byte_val_def)

lemma map_all_map: "(\<And>x. x \<in> set xs \<Longrightarrow> f (g x) = Some x) \<Longrightarrow> map_all f (map g xs) = Some xs"
  by (induction xs) auto

lemma b64_round_trip: "b64_decode (b64_encode b) = Some b"
proof -
  have range: "\<forall>d \<in> set (b64_digits (map byte_val b)). 0 \<le> d \<and> d < 64"
    by (rule b64_digits_range) (use byte_val_range in auto)
  have "filter (\<lambda>c. c \<noteq> char_of (10 :: nat) \<and> c \<noteq> char_of (13 :: nat)) (b64_encode b) = b64_encode b"
    unfolding b64_encode_def using range b64_char_plain by (auto simp: filter_id_conv)
  moreover have "map_all b64_val (b64_encode b) = Some (b64_digits (map byte_val b))"
    unfolding b64_encode_def using range b64_val_char by (intro map_all_map) auto
  moreover have "b64_bytes (b64_digits (map byte_val b)) = Some (map byte_val b)"
    by (rule b64_bytes_digits) (use byte_val_range in auto)
  ultimately show ?thesis by (simp add: b64_decode_def comp_def)
qed

lemma b64_no_dot: "CHR ''.'' \<notin> set (b64_encode b)"
proof -
  have "\<forall>d \<in> set (b64_digits (map byte_val b)). 0 \<le> d \<and> d < 64"
    by (rule b64_digits_range) (use byte_val_range in auto)
  then show ?thesis using b64_char_plain by (force simp: b64_encode_def)
qed

section \<open>A minted token is accepted\<close>

lemma ParseInt_FormatInt: "ParseInt (FormatInt x) = Some x"
proof (cases "sint x < 0")
  case True
  then have "digits_val 0 (decimal (- sint x)) = Some (- sint x)"
    by (intro digits_val_decimal) simp
  moreover have "- sint x \<le> 2 ^ 63" using sint64_bounds(1) [of x] by simp
  ultimately show ?thesis using True by (simp add: FormatInt_def itoa_def ParseInt_def)
next
  case False
  then show ?thesis
    using ParseInt_decimal [of "sint x"] sint64_bounds(2) [of x] by (simp add: FormatInt_def itoa_def)
qed

lemma decode_header: "decode (dec_struct jwt_header_fields) zero_jwt_header (Some (json_of_header h)) = Some h"
  by (simp add: decode_def dec_struct_def json_of_header_def jwt_header_fields_def zero_jwt_header_def
      lookup_field_def field_of_def dec_string_def)

lemma decode_claims: "decode (dec_struct claims_fields) zero_claims (Some (json_of_claims c)) = Some c"
  by (simp add: decode_def dec_struct_def json_of_claims_def claims_fields_def zero_claims_def
      lookup_field_def field_of_def dec_string_def dec_int64_def ParseInt_FormatInt)

lemma split_token:
  "split_on (CHR ''.'') (b64_encode a @ ''.'' @ b64_encode b @ ''.'' @ b64_encode c) =
     [b64_encode a, b64_encode b, b64_encode c]"
  using split_on_append [OF b64_no_dot] split_on_none [OF b64_no_dot] by simp

text \<open>What the minter and the verifier must agree on besides the token.\<close>

definition signing_pair :: "(string \<Rightarrow> string) \<Rightarrow> ('k \<Rightarrow> string \<Rightarrow> string \<Rightarrow> bool) \<Rightarrow> 'k \<Rightarrow> bool" where
  "signing_pair sign verify pub \<longleftrightarrow> (\<forall>m. verify pub m (sign m))"

lemma Mint_Verify:
  assumes minted: "Mint marshal (Some sign) iss aud now ttl = Some token"
    and json: "unmarshal (marshal (json_of_header jwt_header_of_mint)) = Some (json_of_header jwt_header_of_mint)"
      "unmarshal (marshal (json_of_claims (claims_of_mint iss aud now ttl))) =
        Some (json_of_claims (claims_of_mint iss aud now ttl))"
    and keys: "signing_pair sign verify pub" "keyFor iss = Some pub"
    and clocks: "clock_ok (now + ttl)" "clock_ok later"
    and window: "later div second - 60 < (now + ttl) div second"
      "(now + ttl) div second \<le> later div second + 3600"
  shows "Verify unmarshal verify token keyFor aud later = Inr iss"
proof -
  let ?h = "marshal (json_of_header jwt_header_of_mint)"
  let ?c = "marshal (json_of_claims (claims_of_mint iss aud now ttl))"
  let ?signing = "b64_encode ?h @ ''.'' @ b64_encode ?c"
  have token: "token = b64_encode ?h @ ''.'' @ b64_encode ?c @ ''.'' @ b64_encode (sign ?signing)"
    using minted by (simp add: Mint_def Let_def)
  have fresh: "\<not> Unix (now + ttl) \<le>s Unix (later - clockLeeway)"
    using window(1) Unix_now [OF clocks(1)] Unix_leeway [OF clocks(2)] by (simp add: word_sle_eq)
  have "0 \<le> later div second" "later div second < 2 ^ 62" "0 \<le> (now + ttl) div second"
    using clocks by (auto simp: clock_ok_def second_def)
  then have "sint (Unix (now + ttl) - Unix later) = (now + ttl) div second - later div second"
    using window clocks(1) Unix_now [OF clocks(1)] Unix_now [OF clocks(2)]
    by (subst sint64_diff) (auto simp: clock_ok_def)
  moreover have "sint (word_of_int (maxCredentialLifetime div second) :: int64) = 3600"
    by (subst sint64_of_int) (simp_all add: maxCredentialLifetime_def second_def)
  ultimately have short: "\<not> word_of_int (maxCredentialLifetime div second) <s Unix (now + ttl) - Unix later"
    using window(2) by (simp add: word_sless_alt)
  show ?thesis
    unfolding Verify_def token split_token
    using json keys fresh short
    by (simp add: b64_round_trip decode_header decode_claims signing_pair_def jwt_header_of_mint_def
        claims_of_mint_def)
qed

section \<open>What a credential is worth\<close>

text \<open>
  C7. A credential that is accepted was signed with the key the roster lists for the issuer it
  names, over exactly the bytes that were read; it is addressed to this connector, expired less
  than a minute ago at most, and expires within the hour, for every value of its 64-bit times.
\<close>

theorem accepted_credentials_are_sound:
  assumes "Verify unmarshal verify token keyFor wantAud now = Inr iss" and "clock_ok now"
  shows "\<exists>p0 p1 p2 rawClaims sig c pub. split_on (CHR ''.'') token = [p0, p1, p2] \<and>
    b64_decode p1 = Some rawClaims \<and> b64_decode p2 = Some sig \<and>
    decode (dec_struct claims_fields) zero_claims (unmarshal rawClaims) = Some c \<and>
    keyFor iss = Some pub \<and> verify pub (p0 @ ''.'' @ p1) sig \<and> jc_Iss c = iss \<and> jc_Aud c = wantAud \<and>
    now div second - 60 < sint (jc_Exp c) \<and> sint (jc_Exp c) \<le> now div second + 3600"
  using assms(1)
proof (rule Verify_accepts)
  fix p0 p1 p2 rawClaims sig and c :: claims and pub
  assume "\<not> jc_Exp c \<le>s Unix (now - clockLeeway)"
    and "\<not> word_of_int (maxCredentialLifetime div second) <s jc_Exp c - Unix now"
  from expiry_window [OF assms(2) this]
  show "split_on (CHR ''.'') token = [p0, p1, p2] \<Longrightarrow> b64_decode p1 = Some rawClaims \<Longrightarrow>
    b64_decode p2 = Some sig \<Longrightarrow>
    decode (dec_struct claims_fields) zero_claims (unmarshal rawClaims) = Some c \<Longrightarrow>
    jc_Iss c = iss \<Longrightarrow> jc_Aud c = wantAud \<Longrightarrow> keyFor iss = Some pub \<Longrightarrow>
    verify pub (p0 @ ''.'' @ p1) sig \<Longrightarrow> ?thesis"
    by blast
qed

definition example_unmarshal :: "string \<Rightarrow> json option" where
  "example_unmarshal s = (if s = ''h'' then Some (JObj [(''alg'', JStr ''EdDSA'')])
     else if s = ''c'' then Some (JObj [(''iss'', JStr ''c''), (''aud'', JStr ''p''), (''exp'', JNum ''100'')])
     else None)"

theorem accepted_credentials_are_sound_witness:
  "\<exists>p0 p1 p2 rawClaims sig c pub. split_on (CHR ''.'') ''aA.Yw.'' = [p0, p1, p2] \<and>
    b64_decode p1 = Some rawClaims \<and> b64_decode p2 = Some sig \<and>
    decode (dec_struct claims_fields) zero_claims (example_unmarshal rawClaims) = Some c \<and>
    [''c'' \<mapsto> ''k''] ''c'' = Some pub \<and> pub = ''k'' \<and> jc_Iss c = ''c'' \<and> jc_Aud c = ''p'' \<and>
    0 div second - 60 < sint (jc_Exp c) \<and> sint (jc_Exp c) \<le> 0 div second + 3600"
proof -
  have "Verify example_unmarshal (\<lambda>k m s. k = ''k'') ''aA.Yw.'' [''c'' \<mapsto> ''k''] ''p'' 0 = Inr ''c''"
    by code_simp
  from accepted_credentials_are_sound [OF this] show ?thesis by (simp add: clock_ok_def)
qed

end
