(* ===== verification/Roster.thy ===== *)
theory Roster
  imports Token
begin

text \<open>
  The signed participant registry of \<^verbatim>\<open>internal/auth/roster.go\<close>.  A file is its content,
  or \<open>None\<close> when it cannot be read; the JSON text, the signature scheme and
  \<^verbatim>\<open>url.Parse\<close> are parameters.  The theory proves what a loaded roster carries, and that
  \<^verbatim>\<open>SignRoster\<close> signs only what \<^verbatim>\<open>LoadRoster\<close> accepts about the document.
\<close>

section \<open>Documents\<close>

record rosterEntry =
  re_ID :: string
  re_PublicKey :: string
  re_ConnectorAddress :: string

record rosterDocument =
  rd_Participants :: "rosterEntry list"
  rd_Version :: int64
  rd_ExpiresAt :: string
  rd_Signature :: string

definition zero_rosterEntry :: rosterEntry where
  "zero_rosterEntry = \<lparr>re_ID = '''', re_PublicKey = '''', re_ConnectorAddress = ''''\<rparr>"

definition zero_rosterDocument :: rosterDocument where
  "zero_rosterDocument = \<lparr>rd_Participants = [], rd_Version = 0, rd_ExpiresAt = '''', rd_Signature = ''''\<rparr>"

definition rosterEntry_fields :: "rosterEntry json_field list" where
  "rosterEntry_fields =
     [field_of ''id'' re_ID (\<lambda>x. re_ID_update (\<lambda>_. x)) dec_string,
      field_of ''public_key'' re_PublicKey (\<lambda>x. re_PublicKey_update (\<lambda>_. x)) dec_string,
      field_of ''connector_address'' re_ConnectorAddress (\<lambda>x. re_ConnectorAddress_update (\<lambda>_. x))
        dec_string]"

definition rosterDocument_fields :: "rosterDocument json_field list" where
  "rosterDocument_fields =
     [field_of ''participants'' rd_Participants (\<lambda>x. rd_Participants_update (\<lambda>_. x))
        (dec_list (dec_struct rosterEntry_fields) zero_rosterEntry),
      field_of ''version'' rd_Version (\<lambda>x. rd_Version_update (\<lambda>_. x)) dec_int64,
      field_of ''expires_at'' rd_ExpiresAt (\<lambda>x. rd_ExpiresAt_update (\<lambda>_. x)) dec_string,
      field_of ''signature'' rd_Signature (\<lambda>x. rd_Signature_update (\<lambda>_. x)) dec_string]"

definition json_of_rosterEntry :: "rosterEntry \<Rightarrow> json" where
  "json_of_rosterEntry p =
     JObj ([(''id'', JStr (re_ID p)), (''public_key'', JStr (re_PublicKey p))] @
           (if re_ConnectorAddress p = '''' then []
            else [(''connector_address'', JStr (re_ConnectorAddress p))]))"

text \<open>The signed fields, in declaration order; the signature is not among them.\<close>

definition canonicalRosterBytes :: "(json \<Rightarrow> string) \<Rightarrow> rosterDocument \<Rightarrow> string" where
  "canonicalRosterBytes marshal doc = marshal (JObj
     [(''participants'', JArr (map json_of_rosterEntry (rd_Participants doc))),
      (''version'', JNum (FormatInt (rd_Version doc))),
      (''expires_at'', JStr (rd_ExpiresAt doc))])"

section \<open>The roster\<close>

record Roster =
  ro_keys :: "string \<Rightarrow> string option"
  ro_addresses :: "string \<Rightarrow> string option"
  ro_version :: int64
  ro_expiresAt :: instant

definition KeyFor :: "Roster \<Rightarrow> string \<Rightarrow> string option" where
  "KeyFor r ident = ro_keys r ident"

definition AddressFor :: "Roster \<Rightarrow> string \<Rightarrow> string option" where
  "AddressFor r ident = ro_addresses r ident"

definition UsableAt :: "Roster \<Rightarrow> instant \<Rightarrow> bool" where
  "UsableAt r now \<longleftrightarrow> now < ro_expiresAt r"

datatype roster_error =
    RosterUnreadable | RosterNotJSON | NoParticipants | BadVersion int64 | NoExpiresAt
  | NoSignature | SignatureNotBase64 | SignatureMismatch
  | ExpiryNotRFC3339 string | ExpiryTooFar string | RosterHasExpired string
  | NoID nat | AppearsTwice string | NoPublicKey string | KeyNotBase64 string | KeyLength string nat
  | AddressQuery string | AddressWhitespace string | AddressSlash string | AddressNotURL string
  | AddressScheme string | AddressHost string | AddressUserinfo string

definition maxRosterLifetime :: instant where
  "maxRosterLifetime = 400 * 24 * 3600 * second"

definition PublicKeySize :: nat where "PublicKeySize = 32"

definition checkRosterDocument :: "rosterDocument \<Rightarrow> roster_error option" where
  "checkRosterDocument doc =
     (if rd_Participants doc = [] then Some NoParticipants
      else if rd_Version doc <s 1 then Some (BadVersion (rd_Version doc))
      else if rd_ExpiresAt doc = '''' then Some NoExpiresAt
      else None)"

definition checkRosterExpiry :: "rosterDocument \<Rightarrow> instant \<Rightarrow> roster_error + instant" where
  "checkRosterExpiry doc now = (case parse_RFC3339 (rd_ExpiresAt doc) of
     None \<Rightarrow> Inl (ExpiryNotRFC3339 (rd_ExpiresAt doc))
   | Some expiresAt \<Rightarrow>
       if now + maxRosterLifetime < expiresAt then Inl (ExpiryTooFar (rd_ExpiresAt doc))
       else if \<not> UsableAt \<lparr>ro_keys = Map.empty, ro_addresses = Map.empty, ro_version = 0,
                           ro_expiresAt = expiresAt\<rparr> now then
         Inl (RosterHasExpired (rd_ExpiresAt doc))
       else Inr expiresAt)"

text \<open>What the code reads of \<^verbatim>\<open>url.Parse\<close>: scheme, host, and whether there is userinfo.\<close>

type_synonym url_parser = "string \<Rightarrow> (string \<times> string \<times> bool) option"

definition checkConnectorAddress :: "url_parser \<Rightarrow> string \<Rightarrow> string \<Rightarrow> roster_error option" where
  "checkConnectorAddress parse_url ident addr =
     (if set addr \<inter> set ''?#'' \<noteq> {} then Some (AddressQuery ident)
      else if set addr \<inter> {CHR '' '', char_of (9 :: nat), char_of (13 :: nat), char_of (10 :: nat)} \<noteq> {} then
        Some (AddressWhitespace ident)
      else if addr \<noteq> '''' \<and> last addr = CHR ''/'' then Some (AddressSlash ident)
      else (case parse_url addr of
              None \<Rightarrow> Some (AddressNotURL ident)
            | Some (scheme, host, userinfo) \<Rightarrow>
                if scheme \<noteq> ''http'' \<and> scheme \<noteq> ''https'' then Some (AddressScheme ident)
                else if host = '''' then Some (AddressHost ident)
                else if userinfo then Some (AddressUserinfo ident)
                else None))"

text \<open>The loop over the participants, with the index of the error messages.\<close>

primrec load_participants ::
  "url_parser \<Rightarrow> rosterEntry list \<Rightarrow> nat \<Rightarrow> (string \<Rightarrow> string option) \<Rightarrow> (string \<Rightarrow> string option) \<Rightarrow>
   roster_error + (string \<Rightarrow> string option) \<times> (string \<Rightarrow> string option)" where
  "load_participants parse_url [] i keys addresses = Inr (keys, addresses)"
| "load_participants parse_url (p # ps) i keys addresses =
     (if re_ID p = '''' then Inl (NoID i)
      else if keys (re_ID p) \<noteq> None then Inl (AppearsTwice (re_ID p))
      else if re_PublicKey p = '''' then Inl (NoPublicKey (re_ID p))
      else (case b64_decode (re_PublicKey p) of
              None \<Rightarrow> Inl (KeyNotBase64 (re_ID p))
            | Some raw \<Rightarrow>
                if length raw \<noteq> PublicKeySize then Inl (KeyLength (re_ID p) (length raw))
                else
                  (let keys' = keys(re_ID p \<mapsto> raw) in
                   if re_ConnectorAddress p = '''' then
                     load_participants parse_url ps (Suc i) keys' addresses
                   else (case checkConnectorAddress parse_url (re_ID p) (re_ConnectorAddress p) of
                           Some e \<Rightarrow> Inl e
                         | None \<Rightarrow> load_participants parse_url ps (Suc i) keys'
                                     (addresses(re_ID p \<mapsto> re_ConnectorAddress p))))))"

definition LoadRoster ::
  "(string \<Rightarrow> json option) \<Rightarrow> (json \<Rightarrow> string) \<Rightarrow> (string \<Rightarrow> string \<Rightarrow> string \<Rightarrow> bool) \<Rightarrow> url_parser \<Rightarrow>
   string option \<Rightarrow> string \<Rightarrow> instant \<Rightarrow> roster_error + Roster" where
  "LoadRoster unmarshal marshal verify parse_url content signer now = (case content of
     None \<Rightarrow> Inl RosterUnreadable
   | Some data \<Rightarrow>
     (case decode (dec_struct rosterDocument_fields) zero_rosterDocument (unmarshal data) of
        None \<Rightarrow> Inl RosterNotJSON
      | Some doc \<Rightarrow>
        (case checkRosterDocument doc of
           Some e \<Rightarrow> Inl e
         | None \<Rightarrow>
           if rd_Signature doc = '''' then Inl NoSignature
           else (case b64_decode (rd_Signature doc) of
             None \<Rightarrow> Inl SignatureNotBase64
           | Some sig \<Rightarrow>
               if \<not> verify signer (canonicalRosterBytes marshal doc) sig then Inl SignatureMismatch
               else (case checkRosterExpiry doc now of
                 Inl e \<Rightarrow> Inl e
               | Inr expiresAt \<Rightarrow>
                   (case load_participants parse_url (rd_Participants doc) 0 Map.empty Map.empty of
                      Inl e \<Rightarrow> Inl e
                    | Inr (keys, addresses) \<Rightarrow>
                        Inr \<lparr>ro_keys = keys, ro_addresses = addresses,
                             ro_version = rd_Version doc, ro_expiresAt = expiresAt\<rparr>))))))"

definition SignRoster ::
  "(string \<Rightarrow> json option) \<Rightarrow> (json \<Rightarrow> string) \<Rightarrow> (string \<Rightarrow> string) \<Rightarrow>
   string option \<Rightarrow> instant \<Rightarrow> roster_error + string" where
  "SignRoster unmarshal marshal sign content now = (case content of
     None \<Rightarrow> Inl RosterUnreadable
   | Some data \<Rightarrow>
     (case decode (dec_struct rosterDocument_fields) zero_rosterDocument (unmarshal data) of
        None \<Rightarrow> Inl RosterNotJSON
      | Some doc \<Rightarrow>
        (case checkRosterDocument doc of
           Some e \<Rightarrow> Inl e
         | None \<Rightarrow> (case checkRosterExpiry doc now of
             Inl e \<Rightarrow> Inl e
           | Inr expiresAt \<Rightarrow> Inr (b64_encode (sign (canonicalRosterBytes marshal doc)))))))"

section \<open>What a loaded roster carries\<close>

lemma load_participants_step:
  assumes "load_participants parse_url (p # ps) i keys addresses = Inr r"
  obtains raw where "b64_decode (re_PublicKey p) = Some raw" "length raw = PublicKeySize"
    "keys (re_ID p) = None"
    "re_ConnectorAddress p \<noteq> '''' \<Longrightarrow>
      checkConnectorAddress parse_url (re_ID p) (re_ConnectorAddress p) = None"
    "load_participants parse_url ps (Suc i) (keys(re_ID p \<mapsto> raw))
       (if re_ConnectorAddress p = '''' then addresses
        else addresses(re_ID p \<mapsto> re_ConnectorAddress p)) = Inr r"
  using assms by (auto simp: Let_def split: if_splits option.splits)

text \<open>A key of the result was there before or is the decoded key of an entry.\<close>

lemma load_participants_keys:
  "load_participants parse_url ps i keys addresses = Inr (keys', addresses') \<Longrightarrow> keys' k = Some raw \<Longrightarrow>
   keys k = Some raw \<or> length raw = PublicKeySize \<and>
     (\<exists>p \<in> set ps. re_ID p = k \<and> b64_decode (re_PublicKey p) = Some raw)"
proof (induction ps arbitrary: i keys addresses)
  case (Cons p ps)
  show ?case
    by (rule load_participants_step [OF Cons.prems(1)])
      (use Cons.IH Cons.prems(2) in \<open>force split: if_splits\<close>)
qed simp

lemma load_participants_grows:
  "load_participants parse_url ps i keys addresses = Inr (keys', addresses') \<Longrightarrow> keys k \<noteq> None \<Longrightarrow>
   keys' k = keys k"
proof (induction ps arbitrary: i keys addresses)
  case (Cons p ps)
  show ?case
    by (rule load_participants_step [OF Cons.prems(1)])
      (use Cons.IH Cons.prems(2) in \<open>force split: if_splits\<close>)
qed simp

text \<open>Every entry is in the result under its own key, and an address belongs to an entry.\<close>

lemma load_participants_lists:
  "load_participants parse_url ps i keys addresses = Inr (keys', addresses') \<Longrightarrow> p \<in> set ps \<Longrightarrow>
   keys' (re_ID p) = b64_decode (re_PublicKey p) \<and> keys' (re_ID p) \<noteq> None"
proof (induction ps arbitrary: i keys addresses)
  case (Cons q ps)
  show ?case
  proof (rule load_participants_step [OF Cons.prems(1)])
    fix raw
    assume raw: "b64_decode (re_PublicKey q) = Some raw"
      and rest: "load_participants parse_url ps (Suc i) (keys(re_ID q \<mapsto> raw))
        (if re_ConnectorAddress q = '''' then addresses
         else addresses(re_ID q \<mapsto> re_ConnectorAddress q)) = Inr (keys', addresses')"
    show ?thesis
    proof (cases "p = q")
      case True
      then show ?thesis using load_participants_grows [OF rest, of "re_ID q"] raw by simp
    next
      case False
      then have "p \<in> set ps" using Cons.prems(2) by simp
      then show ?thesis by (rule Cons.IH [OF rest])
    qed
  qed
qed simp

lemma load_participants_addresses:
  "load_participants parse_url ps i keys addresses = Inr (keys', addresses') \<Longrightarrow> addresses' k = Some a \<Longrightarrow>
   addresses k = Some a \<or> a \<noteq> '''' \<and> checkConnectorAddress parse_url k a = None \<and>
     (\<exists>p \<in> set ps. re_ID p = k \<and> re_ConnectorAddress p = a)"
proof (induction ps arbitrary: i keys addresses)
  case (Cons p ps)
  show ?case
    by (rule load_participants_step [OF Cons.prems(1)])
      (use Cons.IH Cons.prems(2) in \<open>force split: if_splits\<close>)
qed simp

lemma load_participants_distinct:
  "load_participants parse_url ps i keys addresses = Inr r \<Longrightarrow>
   distinct (map re_ID ps) \<and> (\<forall>p \<in> set ps. keys (re_ID p) = None)"
proof (induction ps arbitrary: i keys addresses)
  case (Cons p ps)
  show ?case
    by (rule load_participants_step [OF Cons.prems(1)])
      (use Cons.IH in \<open>force split: if_splits\<close>)
qed simp

lemma LoadRoster_accepts:
  assumes "LoadRoster unmarshal marshal verify parse_url content signer now = Inr r"
  obtains data doc sig where "content = Some data"
    "decode (dec_struct rosterDocument_fields) zero_rosterDocument (unmarshal data) = Some doc"
    "checkRosterDocument doc = None" "b64_decode (rd_Signature doc) = Some sig"
    "verify signer (canonicalRosterBytes marshal doc) sig"
    "checkRosterExpiry doc now = Inr (ro_expiresAt r)"
    "load_participants parse_url (rd_Participants doc) 0 Map.empty Map.empty
       = Inr (ro_keys r, ro_addresses r)"
    "ro_version r = rd_Version doc"
  using assms unfolding LoadRoster_def
  by (auto split: option.splits sum.splits if_splits)

lemma checkRosterExpiry_window:
  "checkRosterExpiry doc now = Inr e \<Longrightarrow> now < e \<and> e \<le> now + maxRosterLifetime"
  by (auto simp: checkRosterExpiry_def UsableAt_def split: option.splits if_splits)

text \<open>Signing and loading read the same bytes, whatever signature the file already has.\<close>

lemma canonical_ignores_signature:
  "canonicalRosterBytes marshal (doc\<lparr>rd_Signature := s\<rparr>) = canonicalRosterBytes marshal doc"
  by (simp add: canonicalRosterBytes_def)

section \<open>What a roster is worth\<close>


lemma b64_encode_Nil: "b64_encode b = [] \<Longrightarrow> b = []"
  using b64_round_trip [of b] by (auto simp: b64_decode_def)

text \<open>
  C23. Signing and loading agree: a document \<^verbatim>\<open>SignRoster\<close> signed is loaded with that
  signature until it expires, unless one of its participants is malformed.
\<close>

theorem signed_rosters_are_loaded:
  assumes signed: "SignRoster unmarshal marshal sign (Some data) now = Inr s"
    and doc: "decode (dec_struct rosterDocument_fields) zero_rosterDocument (unmarshal data) = Some doc"
    and written: "decode (dec_struct rosterDocument_fields) zero_rosterDocument (unmarshal data') =
      Some (doc\<lparr>rd_Signature := s\<rparr>)"
    and keys: "\<And>m. verify signer m (sign m)" "\<And>m. sign m \<noteq> ''''"
    and later: "now \<le> later" "\<And>e. parse_RFC3339 (rd_ExpiresAt doc) = Some e \<Longrightarrow> later < e"
  shows "\<exists>e. LoadRoster unmarshal marshal verify parse_url (Some data') signer later =
    (case load_participants parse_url (rd_Participants doc) 0 Map.empty Map.empty of
       Inl err \<Rightarrow> Inl err
     | Inr (ks, as) \<Rightarrow> Inr \<lparr>ro_keys = ks, ro_addresses = as, ro_version = rd_Version doc, ro_expiresAt = e\<rparr>)"
proof -
  obtain e where checked: "checkRosterDocument doc = None" "checkRosterExpiry doc now = Inr e"
    and s: "s = b64_encode (sign (canonicalRosterBytes marshal doc))"
    using signed doc by (auto simp: SignRoster_def split: option.splits sum.splits)
  have "checkRosterDocument (doc\<lparr>rd_Signature := s\<rparr>) = None"
    using checked(1) by (auto simp: checkRosterDocument_def split: if_splits)
  moreover have "checkRosterExpiry (doc\<lparr>rd_Signature := s\<rparr>) later = Inr e"
    using checked(2) later by (auto simp: checkRosterExpiry_def UsableAt_def split: option.splits if_splits)
  moreover have "s \<noteq> ''''"
    using b64_encode_Nil keys(2) s by metis
  ultimately show ?thesis
    using written keys(1) s
    by (auto simp: LoadRoster_def canonical_ignores_signature b64_round_trip split: sum.splits)
qed

definition example_roster_json :: "string \<Rightarrow> json" where
  "example_roster_json sig = JObj [(''participants'', JArr [JObj [(''id'', JStr ''c''),
     (''public_key'', JStr (b64_encode (replicate 32 CHR ''k'')))]]), (''version'', JNum ''1''),
     (''expires_at'', JStr ''1970-01-02T00:00:00Z''), (''signature'', JStr sig)]"

definition example_roster :: rosterDocument where
  "example_roster = \<lparr>rd_Participants = [\<lparr>re_ID = ''c'',
     re_PublicKey = b64_encode (replicate 32 CHR ''k''), re_ConnectorAddress = ''''\<rparr>],
     rd_Version = 1, rd_ExpiresAt = ''1970-01-02T00:00:00Z'', rd_Signature = ''''\<rparr>"

definition example_files :: "string \<Rightarrow> json option" where
  "example_files s = (if s = ''u'' then Some (example_roster_json '''')
     else if s = ''s'' then Some (example_roster_json (b64_encode ''g'')) else None)"

lemma example_roster_read:
  "decode (dec_struct rosterDocument_fields) zero_rosterDocument (Some (example_roster_json sig)) =
     Some (example_roster\<lparr>rd_Signature := sig\<rparr>)"
proof -
  have "ParseInt ''1'' = Some 1" by code_simp
  then show ?thesis
    by (simp add: decode_def dec_struct_def example_roster_json_def rosterDocument_fields_def
        rosterEntry_fields_def zero_rosterDocument_def zero_rosterEntry_def lookup_field_def field_of_def
        dec_string_def dec_list_def dec_int64_def equal_fold_def ascii_lower_def example_roster_def)
qed

lemma example_roster_parts:
  "parse_RFC3339 (rd_ExpiresAt example_roster) = Some (86400 * second)"
  "rd_Signature example_roster = ''''"
  "checkRosterDocument (example_roster\<lparr>rd_Signature := sig\<rparr>) = None"
  "checkRosterExpiry (example_roster\<lparr>rd_Signature := sig\<rparr>) 0 = Inr (86400 * second)"
  "load_participants parse_url (rd_Participants example_roster) 0 Map.empty Map.empty =
     Inr ([''c'' \<mapsto> replicate 32 CHR ''k''], Map.empty)"
proof -
  have *: "parse_RFC3339 ''1970-01-02T00:00:00Z'' = Some (86400 * second)" by code_simp
  then show "parse_RFC3339 (rd_ExpiresAt example_roster) = Some (86400 * second)"
    by (simp add: example_roster_def)
  show "checkRosterExpiry (example_roster\<lparr>rd_Signature := sig\<rparr>) 0 = Inr (86400 * second)"
    using * by (simp add: checkRosterExpiry_def example_roster_def maxRosterLifetime_def UsableAt_def second_def)
  show "load_participants parse_url (rd_Participants example_roster) 0 Map.empty Map.empty =
     Inr ([''c'' \<mapsto> replicate 32 CHR ''k''], Map.empty)"
    using b64_encode_Nil [of "replicate 32 CHR ''k''"]
    by (auto simp: example_roster_def b64_round_trip PublicKeySize_def)
qed (simp_all add: example_roster_def checkRosterDocument_def word_sless_alt)

lemma example_signed: "SignRoster example_files (\<lambda>j. '''') (\<lambda>m. ''g'') (Some ''u'') 0 = Inr (b64_encode ''g'')"
  using example_roster_read [of "''''"] example_roster_parts(3,4) [of "''''"]
  by (simp add: SignRoster_def example_files_def)

theorem signed_rosters_are_loaded_witness:
  "\<exists>e. LoadRoster example_files (\<lambda>j. '''') (\<lambda>k m s. s = ''g'') (\<lambda>u. None) (Some ''s'') ''k'' 5 =
    Inr \<lparr>ro_keys = [''c'' \<mapsto> replicate 32 CHR ''k''], ro_addresses = Map.empty, ro_version = 1, ro_expiresAt = e\<rparr>"
proof -
  have unsigned: "decode (dec_struct rosterDocument_fields) zero_rosterDocument (example_files ''u'') = Some example_roster"
    using example_roster_read [of "''''"] by (simp add: example_files_def example_roster_def)
  have signed: "decode (dec_struct rosterDocument_fields) zero_rosterDocument (example_files ''s'') =
      Some (example_roster\<lparr>rd_Signature := b64_encode ''g''\<rparr>)"
    using example_roster_read by (simp add: example_files_def)
  have "(5 :: instant) < e" if "parse_RFC3339 (rd_ExpiresAt example_roster) = Some e" for e
    using that example_roster_parts(1) by (simp add: second_def)
  from signed_rosters_are_loaded [where verify = "\<lambda>k m s. s = ''g''" and signer = "''k''" and later = 5
      and parse_url = "\<lambda>u. None", OF example_signed unsigned signed _ _ _ this]
  show ?thesis by (simp add: example_roster_parts(5)) (simp add: example_roster_def)
qed

lemma example_roster_loads:
  "LoadRoster example_files (\<lambda>j. '''') (\<lambda>k m s. s = ''g'') parse_url (Some ''s'') signer 0 =
    Inr \<lparr>ro_keys = [''c'' \<mapsto> replicate 32 CHR ''k''], ro_addresses = Map.empty, ro_version = 1,
      ro_expiresAt = 86400 * second\<rparr>"
  using example_roster_read [of "b64_encode ''g''"] example_roster_parts(3,4,5) b64_encode_Nil [of "''g''"]
  by (auto simp: LoadRoster_def example_files_def b64_round_trip example_roster_def)


end
