(* ===== verification/Connector.thy ===== *)
theory Connector
  imports Management DataPlane Roster
begin

text \<open>
  The connector as it is assembled (\<^verbatim>\<open>router.go\<close>, \<^verbatim>\<open>auth_middleware.go\<close>,
  \<^verbatim>\<open>mgmt/router.go\<close>): the handlers' fields from the configuration and the roster, the
  credential check, the two route tables, and the programs a request can start.  The theory
  proves that every message answers once and is safe for the participant that signed it, that a
  message without an accepted credential does nothing, and that every reachable system keeps the
  invariant of the store and its evolution.
\<close>

section \<open>The connector's parts\<close>

text \<open>
  \<open>cn_key\<close> signs with the connector's own key, \<open>None\<close> when the key has the wrong size; \<open>cn_verify\<close>
  is \<^verbatim>\<open>ed25519.Verify\<close>, \<open>cn_marshal\<close> and \<open>cn_unmarshal\<close> the text of a JSON document.
\<close>

record connector =
  cn_cfg :: Config
  cn_roster :: Roster
  cn_key :: "(string \<Rightarrow> string) option"
  cn_marshal :: "json \<Rightarrow> string"
  cn_unmarshal :: "string \<Rightarrow> json option"
  cn_verify :: "string \<Rightarrow> string \<Rightarrow> string \<Rightarrow> bool"

definition transferStepDelay :: instant where "transferStepDelay = 200 * millisecond"

definition newHandler :: "connector \<Rightarrow> handler" where
  "newHandler c =
     (let auth = AuthRequired (cn_cfg c) in
      \<lparr>h_cfg = cn_cfg c, h_stepDelay = transferStepDelay,
       h_knownParticipant =
         (if auth then Some (\<lambda>ident. KeyFor (cn_roster c) ident \<noteq> None) else None),
       h_providerAddress = (if auth then Some (AddressFor (cn_roster c)) else None),
       h_guard = (if auth then Some (UsableAt (cn_roster c)) else None),
       h_sign = (\<lambda>aud now. Mint (cn_marshal c) (cn_key c) (ParticipantID (cn_cfg c)) aud now
                   credentialTTL)\<rparr>)"

section \<open>The credential check\<close>

definition cutBearer :: "string \<Rightarrow> string option" where
  "cutBearer header =
     (let scheme = ''bearer '' in
      if length header < length scheme \<or> \<not> equal_fold (take (length scheme) header) scheme then None
      else (let token = TrimSpace (drop (length scheme) header) in
            if token = '''' then None else Some token))"

definition refuse :: prog where
  "refuse = Respond (ReplyHeaders [(''WWW-Authenticate'', ''Bearer'')] StatusUnauthorized
     (Some (DError (errorDocument TransferErrorType StatusUnauthorized
        ''a valid participant credential is required'')))) Done"

definition requireParticipant :: "connector \<Rightarrow> request \<Rightarrow> (request \<Rightarrow> prog) \<Rightarrow> prog" where
  "requireParticipant c r k = usable (newHandler c) (\<lambda>ok.
     if \<not> ok then refuseExpiredRoster TransferErrorType
     else (case cutBearer (rq_Authorization r) of
       None \<Rightarrow> refuse
     | Some presented \<Rightarrow> Now (\<lambda>now.
         case Verify (cn_unmarshal c) (cn_verify c) presented (KeyFor (cn_roster c))
                (ParticipantID (cn_cfg c)) now of
           Inl e \<Rightarrow> refuse
         | Inr iss \<Rightarrow> k (r\<lparr>rq_Issuer := iss\<rparr>))))"

section \<open>Routes\<close>

text \<open>
  A pattern of \<^verbatim>\<open>http.ServeMux\<close>: its method and its segments, a wildcard being \<open>None\<close>;
  a path is its segments.  No path and method match two of the patterns below.
\<close>

type_synonym route = "string \<times> string option list \<times> (handler \<Rightarrow> request \<Rightarrow> prog)"

fun match_path :: "string option list \<Rightarrow> string list \<Rightarrow> string \<Rightarrow> string option" where
  "match_path [] [] ident = Some ident"
| "match_path (Some l # ps) (s # ss) ident = (if s = l then match_path ps ss ident else None)"
| "match_path (None # ps) (s # ss) ident = (if s = '''' then None else match_path ps ss s)"
| "match_path _ _ ident = None"

definition method_matches :: "string \<Rightarrow> string \<Rightarrow> bool" where
  "method_matches pat m \<longleftrightarrow> m = pat \<or> pat = ''GET'' \<and> m = ''HEAD''"

definition allowed_methods :: "route list \<Rightarrow> string list \<Rightarrow> string list" where
  "allowed_methods routes path =
     (let ms = map fst (filter (\<lambda>rt. match_path (fst (snd rt)) path '''' \<noteq> None) routes)
      in (if ''GET'' \<in> set ms then [''GET'', ''HEAD''] else []) @
         (if ''POST'' \<in> set ms then [''POST''] else []))"

primrec join_comma :: "string list \<Rightarrow> string" where
  "join_comma [] = ''''"
| "join_comma (m # ms) = (if ms = [] then m else m @ '', '' @ join_comma ms)"

definition serve_mux ::
  "route list \<Rightarrow> handler \<Rightarrow> string \<Rightarrow> string list \<Rightarrow> request \<Rightarrow> prog" where
  "serve_mux routes h m path r =
     (case find (\<lambda>rt. method_matches (fst rt) m \<and> match_path (fst (snd rt)) path '''' \<noteq> None) routes of
        Some rt \<Rightarrow> snd (snd rt) h
          (r\<lparr>rq_ID := (case match_path (fst (snd rt)) path '''' of None \<Rightarrow> '''' | Some x \<Rightarrow> x)\<rparr>)
      | None \<Rightarrow>
          (let allowed = allowed_methods routes path in
           if allowed = [] then Respond (Reply StatusNotFound (Some (DText ''404 page not found''))) Done
           else Respond (ReplyHeaders [(''Allow'', join_comma allowed)] 405
                  (Some (DText ''Method Not Allowed''))) Done))"

definition protocol_routes :: "route list" where
  "protocol_routes =
     (let v = Some ''2025-1''; negotiations = Some ''negotiations''; transfers = Some ''transfers''
      in [(''POST'', [v, Some ''catalog'', Some ''request''], handleCatalogRequest),
          (''GET'', [v, Some ''catalog'', Some ''datasets'', None], handleDatasetRequest),
          (''POST'', [v, negotiations, Some ''request''], handleContractRequest),
          (''POST'', [v, negotiations, None, Some ''request''], handleReRequest),
          (''POST'', [v, negotiations, None, Some ''events''], handleEvent),
          (''POST'', [v, negotiations, None, Some ''agreement'', Some ''verification''], handleVerification),
          (''POST'', [v, negotiations, None, Some ''termination''], handleTermination),
          (''GET'', [v, negotiations, None], handleGetNegotiation),
          (''POST'', [v, negotiations, None, Some ''offers''], handleOffers),
          (''POST'', [v, negotiations, None, Some ''agreement''], handleAgreement),
          (''POST'', [v, transfers, Some ''request''], handleTransferRequest),
          (''GET'', [v, Some ''data'', None], handleData),
          (''GET'', [v, transfers, None], handleGetTransfer),
          (''POST'', [v, transfers, None, Some ''start''], handleTransferStart),
          (''POST'', [v, transfers, None, Some ''completion''], handleTransferCompletion),
          (''POST'', [v, transfers, None, Some ''suspension''], handleTransferSuspension),
          (''POST'', [v, transfers, None, Some ''termination''], handleTransferTermination)])"

definition protocol_router :: "connector \<Rightarrow> string \<Rightarrow> string list \<Rightarrow> request \<Rightarrow> prog" where
  "protocol_router c m path r =
     (if path = [''.well-known'', ''dspace-version''] then
        if method_matches ''GET'' m then handleVersion
        else Respond (ReplyHeaders [(''Allow'', ''GET'')] 405 None) Done
      else if AuthRequired (cn_cfg c) then
        requireParticipant c r (serve_mux protocol_routes (newHandler c) m path)
      else serve_mux protocol_routes (newHandler c) m path (r\<lparr>rq_Issuer := ''''\<rparr>))"

definition management_routes :: "string \<Rightarrow> route list" where
  "management_routes token =
     [(''GET'', [Some ''health''], \<lambda>h r. health h),
      (''POST'', [Some ''agreements''], \<lambda>h r. authenticated token r (importAgreement r)),
      (''GET'', [Some ''agreements''], \<lambda>h r. authenticated token r listAgreements),
      (''GET'', [Some ''transfers''], \<lambda>h r. authenticated token r listTransfers),
      (''POST'', [Some ''negotiations'', Some ''initiate''],
         \<lambda>h r. authenticated token r (handleInitiate h r)),
      (''POST'', [Some ''transfers'', Some ''initiate''],
         \<lambda>h r. authenticated token r (handleTransferInitiate h r)),
      (''GET'', [Some ''catalog''], \<lambda>h r. authenticated token r (handleCatalogLookup h r))]"

definition management_router :: "connector \<Rightarrow> string \<Rightarrow> string list \<Rightarrow> request \<Rightarrow> prog" where
  "management_router c m path r =
     serve_mux (management_routes (MgmtToken (cn_cfg c))) (newHandler c) m path r"

text \<open>The programs a request can start on either listener.\<close>

definition message :: "connector \<Rightarrow> prog \<Rightarrow> bool" where
  "message c p \<longleftrightarrow> (\<exists>m path r. p = protocol_router c m path r \<or> p = management_router c m path r)"

section \<open>One answer\<close>

lemma responds_requireParticipant:
  "(\<And>r'. responds (k r') (Suc 0)) \<Longrightarrow> responds (requireParticipant c r k) (Suc 0)"
  by (auto simp: requireParticipant_def refuse_def intro!: responds_usable
      split: option.splits sum.splits)

lemma serve_mux_cases:
  obtains (served) mm pat f x where "(mm, pat, f) \<in> set routes"
    "serve_mux routes h m path r = f h (r\<lparr>rq_ID := x\<rparr>)"
  | (refused) rsp where "serve_mux routes h m path r = Respond rsp Done"
proof (cases "find (\<lambda>rt. method_matches (fst rt) m \<and> match_path (fst (snd rt)) path '''' \<noteq> None) routes")
  case None
  then show ?thesis
    using refused by (cases "allowed_methods routes path = []") (simp_all add: serve_mux_def Let_def)
next
  case (Some rt)
  then have "rt \<in> set routes" by (auto simp: find_Some_iff)
  then show ?thesis
    using served [of "fst rt" "fst (snd rt)" "snd (snd rt)"] Some by (simp add: serve_mux_def)
qed

lemma responds_serve_mux:
  "(\<And>m pat f r'. (m, pat, f) \<in> set routes \<Longrightarrow> responds (f h r') (Suc 0)) \<Longrightarrow>
     responds (serve_mux routes h m path r) (Suc 0)"
  by (rule serve_mux_cases [of routes h m path r]) auto

lemma responds_protocol_routes: "(m, pat, f) \<in> set protocol_routes \<Longrightarrow> responds (f h r) (Suc 0)"
  by (auto simp: protocol_routes_def Let_def responds_catalog responds_negotiation
      responds_negotiation_consumer responds_transfer responds_handleData)

lemma responds_management_routes: "(m, pat, f) \<in> set (management_routes token) \<Longrightarrow> responds (f h r) (Suc 0)"
  by (auto simp: management_routes_def responds_management responds_catalog
      responds_handleTransferInitiate responds_negotiation_consumer intro!: responds_authenticated)

lemma responds_message: "message c p \<Longrightarrow> responds p (Suc 0)"
  by (auto simp: message_def protocol_router_def management_router_def responds_catalog(3)
      intro!: responds_requireParticipant responds_serve_mux
      intro: responds_protocol_routes responds_management_routes)

section \<open>Whose message it is\<close>

definition token_issuer :: "(string \<Rightarrow> json option) \<Rightarrow> string \<Rightarrow> string" where
  "token_issuer unmarshal token = (case split_on (CHR ''.'') token of
     [p0, p1, p2] \<Rightarrow> (case b64_decode p1 of
        None \<Rightarrow> '''' | Some raw \<Rightarrow>
          (case decode (dec_struct claims_fields) zero_claims (unmarshal raw) of
             None \<Rightarrow> '''' | Some cl \<Rightarrow> jc_Iss cl))
   | _ \<Rightarrow> '''')"

lemma Verify_issuer:
  assumes "Verify unmarshal verify token keyFor aud now = Inr iss"
  shows "token_issuer unmarshal token = iss"
  by (rule Verify_accepts [OF assms]) (simp add: token_issuer_def)

text \<open>The participant whose rows a message may touch: on the protocol listener its issuer.\<close>

definition sender :: "connector \<Rightarrow> request \<Rightarrow> string" where
  "sender c r = (case cutBearer (rq_Authorization r) of
     None \<Rightarrow> '''' | Some token \<Rightarrow> token_issuer (cn_unmarshal c) token)"

section \<open>Safety\<close>

lemma safe_serve_mux:
  assumes "\<And>m pat f x. (m, pat, f) \<in> set routes \<Longrightarrow> safe R G (f h (r\<lparr>rq_ID := x\<rparr>)) w"
  shows "safe R G (serve_mux routes h m path r) w"
  by (rule serve_mux_cases [of routes h m path r]) (use assms in auto)

lemma safe_protocol_routes:
  "(m, pat, f) \<in> set protocol_routes \<Longrightarrow> safe (rely h) (acts_for h (rq_Issuer r)) (f h r) w"
  by (auto simp: protocol_routes_def Let_def safe_catalog safe_handleContractRequest
      safe_handleReRequest safe_handleVerification safe_shared_endpoints safe_handleOffers
      safe_handleAgreement safe_handleTransferRequest safe_transfer safe_handleData)

lemma safe_requireParticipant:
  assumes "\<And>iss. sender c r = iss \<Longrightarrow> safe R G (k (r\<lparr>rq_Issuer := iss\<rparr>)) w"
  shows "safe R G (requireParticipant c r k) w"
  unfolding requireParticipant_def refuse_def
  by (intro safe_usable safe_structure)
    (use assms in \<open>auto simp: sender_def split: option.splits sum.splits dest: Verify_issuer\<close>)

text \<open>
  On the protocol listener a message acts for its sender; with authentication off every message
  is anonymous, and \<open>acts_for\<close> asks only for the invariant and the evolution.
\<close>

lemma safe_protocol_router:
  "safe (rely (newHandler c)) (acts_for (newHandler c) (sender c r)) (protocol_router c m path r) w"
proof -
  let ?h = "newHandler c"
  have on: "safe (rely ?h) (acts_for ?h p) (serve_mux protocol_routes ?h m path r') w"
    if "rq_Issuer r' = p" for p r'
  proof (rule safe_serve_mux)
    fix mm pat f x
    assume "(mm, pat, f) \<in> set protocol_routes"
    from safe_protocol_routes [OF this, of ?h "r'\<lparr>rq_ID := x\<rparr>" w]
    show "safe (rely ?h) (acts_for ?h p) (f ?h (r'\<lparr>rq_ID := x\<rparr>)) w" using that by simp
  qed
  have "safe (rely ?h) (acts_for ?h (sender c r))
      (serve_mux protocol_routes ?h m path (r\<lparr>rq_Issuer := ''''\<rparr>)) w" if "\<not> AuthRequired (cn_cfg c)"
    by (rule safe_mono [OF on [of _ "''''"]]) (use that in \<open>auto simp: acts_for_def newHandler_def Let_def\<close>)
  then show ?thesis
    unfolding protocol_router_def
    by (auto intro!: safe_structure safe_requireParticipant on safe_catalog)
qed

text \<open>The management listener, for the participant each of its requests names.\<close>

lemma safe_management_routes:
  assumes "(m, pat, f) \<in> set (management_routes token)"
  shows "safe (rely h) (rely h) (f h r) w"
proof -
  have "safe (rely h) (rely h) q w" if "safe (rely h) (acts_for h p) q w" for p q
    using that acts_for_rely by (rule safe_mono)
  note rel = this
  note ops = rel [OF safe_listings(1)] rel [OF safe_listings(2)] rel [OF safe_listings(3)]
    rel [OF safe_importAgreement] rel [OF safe_handleInitiate] rel [OF safe_handleTransferInitiate]
    safe_handleCatalogLookup
  show ?thesis
    using assms by (auto simp: management_routes_def ops intro!: safe_authenticated)
qed

lemma safe_message: "message c p \<Longrightarrow> safe (rely (newHandler c)) (rely (newHandler c)) p w"
  by (auto simp: message_def management_router_def
      intro: safe_mono [OF safe_protocol_router acts_for_rely] safe_serve_mux safe_management_routes)

text \<open>The promise holds of every system the connector can reach.\<close>

lemma reachable_promise:
  assumes "reachable (message c) c0 c1" and "all_safe (\<lambda>w. conn_invar (newHandler c) (db w)) (rely (newHandler c)) c0"
  shows "all_safe (\<lambda>w. conn_invar (newHandler c) (db w)) (rely (newHandler c)) c1"
    and "rely (newHandler c) (fst c0) (fst c1)"
  using conn.reachable_all_safe [OF assms] safe_message by blast+

lemma start_safe:
  "conn_invar h (db w) \<Longrightarrow> all_safe (\<lambda>w. conn_invar h (db w)) (rely h) (w, [], tr)"
  by (simp add: all_safe_def)

lemma reachable_invar:
  "conn_invar (newHandler c) (db w) \<Longrightarrow> reachable (message c) (w, [], tr) (w', ps, tr') \<Longrightarrow>
     conn_invar (newHandler c) (db w')"
  using reachable_promise(2) [OF _ start_safe] by (fastforce simp: rely_def)

section \<open>One participant alone\<close>

lemma safe_rely_mono: "safe R G p w \<Longrightarrow> (\<And>v v'. R' v v' \<Longrightarrow> R v v') \<Longrightarrow> safe R' G p w"
  by (induction p arbitrary: w) (simp_all, (meson rangeI)+)

lemma only_touches_trans: "only_touches p a b \<Longrightarrow> only_touches p b c \<Longrightarrow> only_touches p a c"
  by (simp add: only_touches_def)

interpretation own: rely_guarantee "\<lambda>w. conn_invar h (db w)" "acts_for h p" for h p
  by unfold_locales
    (auto simp: acts_for_refl acts_for_def rely_def intro: evolves_trans only_touches_trans)

definition message_from :: "connector \<Rightarrow> string \<Rightarrow> prog \<Rightarrow> bool" where
  "message_from c p q \<longleftrightarrow> (\<exists>m path r. q = protocol_router c m path r \<and> sender c r = p)"

lemma safe_message_from:
  "message_from c p q \<Longrightarrow> safe (acts_for (newHandler c) p) (acts_for (newHandler c) p) q w"
  by (auto simp: message_from_def intro: safe_rely_mono [OF safe_protocol_router acts_for_rely])

lemma start_own:
  "conn_invar h (db w) \<Longrightarrow> all_safe (\<lambda>w. conn_invar h (db w)) (acts_for h p) (w, [], tr)"
  by (simp add: all_safe_def)

lemma AuthRequired_newHandler [simp]: "AuthRequired (h_cfg (newHandler c)) = AuthRequired (cn_cfg c)"
  by (simp add: newHandler_def Let_def)

section \<open>Without an accepted credential\<close>

definition accepted :: "connector \<Rightarrow> request \<Rightarrow> instant \<Rightarrow> bool" where
  "accepted c r now \<longleftrightarrow> (\<exists>token iss. cutBearer (rq_Authorization r) = Some token \<and>
     Verify (cn_unmarshal c) (cn_verify c) token (KeyFor (cn_roster c)) (ParticipantID (cn_cfg c)) now
       = Inr iss)"

definition status_of :: "response \<Rightarrow> int" where
  "status_of rsp = (case rsp of Reply st d \<Rightarrow> st | ReplyHeaders hs st d \<Rightarrow> st | Stream st r l b \<Rightarrow> st)"

lemma requireParticipant_refuses:
  assumes "AuthRequired (cn_cfg c)" and "\<And>now. \<not> accepted c r now"
  shows "\<exists>rsp. run (requireParticipant c r k) a w = ([Answered rsp], [], w) \<and> status_of rsp \<in> {401, 409}"
proof (cases "UsableAt (cn_roster c) (an_Now (a 0))")
  case False
  then show ?thesis
    using assms(1) by (simp add: requireParticipant_def usable_def newHandler_def Let_def run_simps
        refuseExpiredRoster_def status_defs status_of_def)
next
  case True
  have run: "run refuse b w = ([Answered (ReplyHeaders [(''WWW-Authenticate'', ''Bearer'')] 401
      (Some (DError (errorDocument TransferErrorType 401 ''a valid participant credential is required''))))], [], w)" for b
    by (simp add: refuse_def status_defs)
  show ?thesis
  proof (cases "cutBearer (rq_Authorization r)")
    case None
    then show ?thesis using True assms(1) run
      by (simp add: requireParticipant_def usable_def newHandler_def Let_def status_of_def)
  next
    case (Some token)
    obtain e where "Verify (cn_unmarshal c) (cn_verify c) token (KeyFor (cn_roster c))
        (ParticipantID (cn_cfg c)) (an_Now (a 1)) = Inl e"
      using assms(2) [of "an_Now (a 1)"] Some
      by (cases "Verify (cn_unmarshal c) (cn_verify c) token (KeyFor (cn_roster c))
        (ParticipantID (cn_cfg c)) (an_Now (a 1))") (auto simp: accepted_def)
    then show ?thesis using True Some assms(1) run
      by (simp add: requireParticipant_def usable_def newHandler_def Let_def status_of_def)
  qed
qed

lemma management_refuses:
  assumes "MgmtToken (cn_cfg c) = '''' \<or> cutBearerPrefix (rq_Authorization r) \<noteq> Some (MgmtToken (cn_cfg c))"
    and "path \<noteq> [''health'']"
  shows "\<exists>rsp. run (management_router c m path r) a w = ([Answered rsp], [], w) \<and>
    status_of rsp \<in> {401, 404, 405}"
proof -
  let ?routes = "management_routes (MgmtToken (cn_cfg c))"
  let ?hit = "\<lambda>rt. method_matches (fst rt) m \<and> match_path (fst (snd rt)) path '''' \<noteq> None"
  have refused: "authenticated (MgmtToken (cn_cfg c)) (r\<lparr>rq_ID := x\<rparr>) k =
      Respond (ReplyHeaders [(''WWW-Authenticate'', ''Bearer'')] 401 None) Done" for x k
    using assms(1) by (auto simp: authenticated_def status_defs)
  show ?thesis
  proof (cases "find ?hit ?routes")
    case None
    then show ?thesis
      by (cases "allowed_methods ?routes path = []")
        (simp_all add: management_router_def serve_mux_def Let_def status_of_def status_defs)
  next
    case (Some rt)
    then have rt: "rt \<in> set ?routes" "match_path (fst (snd rt)) path '''' \<noteq> None"
      by (auto simp: find_Some_iff)
    have "match_path [Some ''health''] path '''' = None"
      using assms(2) by (cases path; cases "tl path") auto
    then have "\<exists>k. snd (snd rt) (newHandler c) (r\<lparr>rq_ID := x\<rparr>) =
        authenticated (MgmtToken (cn_cfg c)) (r\<lparr>rq_ID := x\<rparr>) k" for x
      using rt by (auto simp: management_routes_def)
    then show ?thesis
      using Some refused by (fastforce simp: management_router_def serve_mux_def status_of_def)
  qed
qed

end
