(* ===== verification/Demonstration.thy ===== *)
theory Demonstration
  imports Connector
begin

text \<open>
  A concrete connector, with authentication on, a store with a finalized negotiation, its
  agreement and a started transfer, and a step of its history: participant \<open>c\<close> asks for another
  offer, and the request is answered.  The theorems with hypotheses are applied to it.
\<close>

definition demo_dataset :: Dataset where
  "demo_dataset = \<lparr>d_ID = ''d1'', d_ValidityUntil = None, d_SourceFile = ''f'',
     d_TerminateOnVerify = False, d_TransferSequence = None, d_SimulateInterruptAfterBytes = 0\<rparr>"

definition demo_cfg :: Config where
  "demo_cfg = \<lparr>PublicURL = ''http://p'', ParticipantID = ''p'', Datasets = [demo_dataset],
     DevMode = False, DSPAddr = '''', MgmtAddr = '''', MgmtToken = ''secret'', DataDir = ''/d'',
     DataIdleTimeout = 60000000000, MaxDownloadBytes = 100, ConsumerPolicies = [],
     TransferPolicies = [], ConsumerTransferPolicies = [], ParticipantKey = '''', RosterPath = '''',
     RosterSigner = '''', RequireAuth = None\<rparr>"

text \<open>A scheme in which every signature verifies, and a text of one character per document.\<close>

definition demo_unmarshal :: "string \<Rightarrow> json option" where
  "demo_unmarshal s = (if s = ''h'' then Some (JObj [(''alg'', JStr ''EdDSA'')])
     else if s = ''c'' then Some (JObj [(''iss'', JStr ''c''), (''aud'', JStr ''p''), (''exp'', JNum ''100'')])
     else None)"

definition demo_connector :: connector where
  "demo_connector = \<lparr>cn_cfg = demo_cfg,
     cn_roster = \<lparr>ro_keys = [''c'' \<mapsto> ''k''], ro_addresses = [''c'' \<mapsto> ''http://c''], ro_version = 1,
       ro_expiresAt = 1000000000000\<rparr>,
     cn_key = None, cn_marshal = (\<lambda>j. ''''), cn_unmarshal = demo_unmarshal,
     cn_verify = (\<lambda>k m s. True)\<rparr>"

definition demo_request :: request where
  "demo_request = \<lparr>rq_ID = '''', rq_Issuer = '''',
     rq_Body = Some (JObj [(''@context'', JArr [JStr ContextURL]),
       (''@type'', JStr ''ContractRequestMessage''), (''consumerPid'', JStr ''c1''),
       (''offer'', JObj [(''@id'', JStr ''d1#offer''), (''target'', JStr ''d1'')]),
       (''callbackAddress'', JStr ''http://c'')]),
     rq_Authorization = ''Bearer aA.Yw.'', rq_ProviderID = '''', rq_Range = ''''\<rparr>"

definition demo_answer :: answer where
  "demo_answer = \<lparr>an_Io = IoOk, an_Now = 0, an_Uuid = Some ''u1'', an_Allow = True,
     an_Http = HttpOk \<lparr>hr_Status = 200, hr_Body = None, hr_ContentRange = '''', hr_ContentLength = 0,
       hr_Data = [], hr_DataEnd = None\<rparr>\<rparr>"

definition demo_finalized :: Negotiation where
  "demo_finalized = \<lparr>n_ProviderPID = ''n0'', n_ConsumerPID = ''c0'', n_State = ''FINALIZED'',
     n_DatasetID = ''d1'', n_OfferID = ''d1#other'', n_CallbackAddress = ''http://c'',
     n_Rerequested = True, n_CounterpartyID = ''c'', n_CreatedAt = 0, n_UpdatedAt = 0\<rparr>"

definition demo_agreement :: Agreement where
  "demo_agreement = \<lparr>a_AgreementID = ''n0'', a_DatasetID = ''d1'', a_ConsumerPID = ''c0'',
     a_Origin = ''negotiated'', a_CounterpartyID = ''c'', a_CreatedAt = 0\<rparr>"

definition demo_transfer :: TransferProcess where
  "demo_transfer = \<lparr>t_ProviderPID = ''t0'', t_ConsumerPID = ''ct0'', t_AgreementID = ''n0'',
     t_State = ''STARTED'', t_CallbackAddress = ''http://c'', t_Format = ''HTTP-PULL'',
     t_CounterpartyID = ''c'', t_CreatedAt = 0, t_UpdatedAt = 0\<rparr>"

definition demo_pull :: ConsumerTransfer where
  "demo_pull = \<lparr>ct_ConsumerPID = ''x0'', ct_ProviderPID = ''y0'', ct_ProviderBaseURL = ''http://c'',
     ct_AgreementID = ''n0'', ct_Format = ''HTTP-PULL'', ct_State = ''STARTED'',
     ct_CounterpartyID = ''c'', ct_ExpectedBytes = 0, ct_ReceivedBytes = 0, ct_DataPath = '''',
     ct_DataCompletedAt = None, ct_DataError = '''', ct_CreatedAt = 0, ct_UpdatedAt = 0\<rparr>"

text \<open>The consumer role: a verified negotiation and the agreement recorded for it.\<close>

definition demo_verified :: ConsumerNegotiation where
  "demo_verified = \<lparr>c_ConsumerPID = ''m0'', c_ProviderPID = ''pm0'', c_ProviderBaseURL = ''http://c'',
     c_State = ''VERIFIED'', c_DatasetID = ''d2'', c_OfferID = ''d2#offer'', c_CounterpartyID = ''c'',
     c_CreatedAt = 0, c_UpdatedAt = 0\<rparr>"

definition demo_accepted :: Agreement where
  "demo_accepted = \<lparr>a_AgreementID = ''pm0'', a_DatasetID = ''d2'', a_ConsumerPID = ''m0'',
     a_Origin = ''agreed'', a_CounterpartyID = ''c'', a_CreatedAt = 0\<rparr>"

definition demo_store :: store where
  "demo_store = empty_store\<lparr>negotiations := [demo_finalized], consumer_negotiations := [demo_verified],
     agreements := [demo_agreement, demo_accepted],
     transfer_processes := [demo_transfer], consumer_transfer_processes := [demo_pull]\<rparr>"

definition demo_world :: world where
  "demo_world = \<lparr>db = demo_store, pulling = [], files = [''f'' \<mapsto> [1, 2, 3]]\<rparr>"

lemmas demo_row_defs = demo_finalized_def demo_agreement_def demo_transfer_def demo_pull_def
  demo_verified_def demo_accepted_def

lemma demo_rows:
  "find_negotiation ''n0'' (db demo_world) = Some demo_finalized"
  "find_agreement ''n0'' (db demo_world) = Some demo_agreement"
  "find_transfer ''t0'' (db demo_world) = Some demo_transfer"
  "find_consumer_transfer ''x0'' (db demo_world) = Some demo_pull"
  "find_consumer ''m0'' (db demo_world) = Some demo_verified"
  "find_agreement ''pm0'' (db demo_world) = Some demo_accepted"
  by (simp_all add: demo_world_def demo_store_def empty_store_def table_simps demo_row_defs)

lemma demo_invar: "conn_invar (newHandler demo_connector) (db demo_world)"
proof -
  have "agreement_ok demo_store demo_agreement"
    using demo_rows(1)
    by (simp add: agreement_ok_def demo_row_defs demo_world_def agreement_issued_def state_defs
        OriginAgreed_def)
  moreover have "agreement_ok demo_store demo_accepted"
    using demo_rows(5)
    by (simp add: agreement_ok_def demo_row_defs demo_world_def OriginAgreed_def OriginNegotiated_def)
  moreover have "\<exists>aid a. find_agreement aid demo_store = Some a \<and> a_Origin a = OriginAgreed \<and>
      a_ConsumerPID a = ''m0'' \<and> a_CounterpartyID a = ''c''"
    using demo_rows(6) by (intro exI [of _ "''pm0''"] exI [of _ demo_accepted])
      (simp add: demo_world_def demo_accepted_def OriginAgreed_def)
  then have "consumer_ok (newHandler demo_connector) demo_store demo_verified"
    by (simp add: consumer_ok_def demo_verified_def negotiation_states_def state_defs
        listed_def newHandler_def Let_def demo_connector_def KeyFor_def AddressFor_def)
  moreover have "transfer_ok (newHandler demo_connector) demo_store demo_transfer"
    using demo_rows(2)
    by (simp add: transfer_ok_def demo_row_defs demo_world_def transfer_states_def
        transfer_state_defs OriginAgreed_def)
  moreover have "consumer_transfer_ok (newHandler demo_connector) demo_store demo_pull"
    using demo_rows(2)
    by (simp add: consumer_transfer_ok_def demo_row_defs demo_world_def transfer_states_def
        transfer_state_defs listed_def newHandler_def Let_def demo_connector_def KeyFor_def AddressFor_def)
  moreover have "negotiation_ok demo_finalized"
    by (simp add: negotiation_ok_def demo_row_defs negotiation_states_def state_defs)
  moreover have "store_wf demo_store"
    by (simp add: store_wf_def demo_store_def empty_store_def demo_agreement_def demo_accepted_def)
  ultimately show ?thesis
    by (simp add: conn_invar_def demo_world_def demo_store_def empty_store_def all_rows_def table_simps)
qed

definition demo_message :: prog where
  "demo_message = protocol_router demo_connector ''POST'' [''2025-1'', ''negotiations'', ''request''] demo_request"

definition demo_1 :: outcome where "demo_1 = run demo_message (\<lambda>i. demo_answer) demo_world"

lemma demo_bearer: "cutBearer (rq_Authorization demo_request) = Some ''aA.Yw.''"
proof -
  have "equal_fold ''Bearer '' ''bearer ''" by code_simp
  then show ?thesis by (simp add: cutBearer_def demo_request_def TrimSpace_id)
qed

lemma demo_sender: "sender demo_connector demo_request = ''c''"
proof -
  have "token_issuer demo_unmarshal ''aA.Yw.'' = ''c''" by code_simp
  then show ?thesis by (simp add: sender_def demo_bearer demo_connector_def)
qed

lemma demo_message: "message demo_connector demo_message" "message_from demo_connector ''c'' demo_message"
  using demo_sender unfolding message_def message_from_def demo_message_def by blast+

text \<open>The state the connector is in when the request has been answered.\<close>

lemma arrive_run:
  assumes "entry p"
  shows "reachable entry (w, [], []) (snd (snd (run p a w)), Done # fst (snd (run p a w)), fst (run p a w))"
proof -
  have "reachable entry (w, [], []) (w, [p], [])"
    using assms(1) sys_step.arrive [of entry p w "[]" "[]"] by (auto intro: reachable.intros)
  from reachable_trans [OF _ this] run_reachable [of entry w "[]" p "[]" "[]" a]
  show ?thesis by simp
qed

lemma demo_reached: "entry demo_message \<Longrightarrow>
    reachable entry (demo_world, [], []) (snd (snd demo_1), Done # fst (snd demo_1), fst demo_1)"
  unfolding demo_1_def by (rule arrive_run)

lemmas demo_history = demo_reached [of "message demo_connector", OF demo_message(1)]
  demo_reached [of "message_from demo_connector ''c''", OF demo_message(2)]

end
