(* ===== verification/CatalogRuns.thy ===== *)
theory CatalogRuns
  imports Demonstration
begin

text \<open>
  The catalog as both roles use it: what the provider offers is what the consumer can honour, what
  it advertises is what it agrees to, and a lookup reports the participant it was asked for.
\<close>

text \<open>
  What this connector offers or agrees to, the consumer role of the same software can honour:
  the permission of every offer and agreement message carries no constraint but the validity
  period, which is recognised, as long as the configured window ends in a year of four digits.
\<close>

lemma offered_permissions_are_enforceable:
  assumes "\<And>d t. d \<in> set (Datasets cfg) \<Longrightarrow> d_ValidityUntil d = Some t \<Longrightarrow> four_digit_year t"
  shows "\<not> hasUnenforceableConstraint (no_Permission (om_Offer (buildOfferMessage cfg mid n))) \<and>
    \<not> hasUnenforceableConstraint (ab_Permission (am_Agreement (buildAgreementMessage cfg mid now n)))"
proof -
  have "\<not> hasUnenforceableConstraint
      (buildPermission (dataset_validity (findConfiguredDataset cfg (n_DatasetID n))))"
  proof (rule buildPermission_enforceable)
    fix t
    assume "dataset_validity (findConfiguredDataset cfg (n_DatasetID n)) = Some t"
    then obtain d where "d \<in> set (Datasets cfg)" "d_ValidityUntil d = Some t"
      by (force simp: dataset_validity_def findConfiguredDataset_def find_Some_iff split: option.splits)
    then show "four_digit_year t" by (rule assms)
  qed
  then show ?thesis
    by (simp add: buildOfferMessage_def newNegotiationOffer_def buildAgreementMessage_def Let_def)
qed

text \<open>
  C33. A consumer that reads the advertised catalog finds every configured dataset once, each with
  the offer and the format this connector serves, and the provider agrees to each of these offers
  while its window is open, and terminates the negotiation otherwise.
\<close>

theorem advertised_offers_are_agreed:
  assumes "distinct (map d_ID (Datasets cfg))"
  shows "\<exists>ps. map_option pairs (decode (dec_struct remoteCatalog_fields) zero_remoteCatalog
      (Some (json_of_Catalog (buildCatalog cfg)))) = Some (ps, 0) \<and>
    map do_DatasetID ps = map d_ID (Datasets cfg) \<and>
    (\<forall>p \<in> set ps. do_Format p = servedFormat \<and> (\<exists>d \<in> set (Datasets cfg). do_DatasetID p = d_ID d \<and>
       decideInitialRequest cfg (do_DatasetID p) (do_OfferID p) now =
         (if isValid d now then outcomeAgree else outcomeTerminate)))"
  unfolding advertised_pairs using decide_advertised [OF assms] by auto

theorem advertised_offers_are_agreed_witness:
  "\<exists>ps. map_option pairs (decode (dec_struct remoteCatalog_fields) zero_remoteCatalog
      (Some (json_of_Catalog (buildCatalog (h_cfg example_handler\<lparr>Datasets := [\<lparr>d_ID = ''d'', d_ValidityUntil = None,
        d_SourceFile = '''', d_TerminateOnVerify = False, d_TransferSequence = None,
        d_SimulateInterruptAfterBytes = 0\<rparr>]\<rparr>))))) = Some (ps, 0) \<and> map do_DatasetID ps = [''d'']"
  using advertised_offers_are_agreed [of "h_cfg example_handler\<lparr>Datasets := [\<lparr>d_ID = ''d'', d_ValidityUntil = None,
        d_SourceFile = '''', d_TerminateOnVerify = False, d_TransferSequence = None,
        d_SimulateInterruptAfterBytes = 0\<rparr>]\<rparr>" 0]
  by auto

lemma run_fetchCatalog:
  "\<exists>au x j. run (fetchCatalog h url aud k) a w = emit [Sent (post (url @ consumerCatalogPath)
      (DCatalogRequest \<lparr>cq_Context = [ContextURL], cq_Type = CatalogRequestMessageType, cq_Filter = None\<rparr>) au)] []
      (run (k x) (\<lambda>i. a (i + j)) w) \<or> (\<exists>j. run (fetchCatalog h url aud k) a w = run (k None) (\<lambda>i. a (i + j)) w)"
proof -
  let ?k = "\<lambda>(authorization, maySend). if \<not> maySend then k None
       else Http (post (url @ consumerCatalogPath)
                   (DCatalogRequest \<lparr>cq_Context = [ContextURL],
                      cq_Type = CatalogRequestMessageType, cq_Filter = None\<rparr>) authorization)
              (\<lambda>res. k (catalog_of_reply res))"
  obtain au ms j where run: "run (fetchCatalog h url aud k) a w = run (?k (au, ms)) (\<lambda>i. a (i + j)) w"
    using run_mint [of h aud ?k a w] unfolding fetchCatalog_def by (metis surj_pair)
  show ?thesis
  proof (cases ms)
    case True
    then show ?thesis using run
      by (intro exI [of _ au] exI [of _ "catalog_of_reply (an_Http (a j))"] exI [of _ "Suc j"]) simp
  next
    case False
    then show ?thesis using run by auto
  qed
qed

definition lookup_reply :: "string \<Rightarrow> string \<Rightarrow> remoteCatalog option \<Rightarrow> prog" where
  "lookup_reply provider address fetched = (case fetched of
     None \<Rightarrow> writeError CatalogErrorType StatusBadGateway (''the catalog request to '' @ provider @ '' did not succeed'')
   | Some c \<Rightarrow>
       if rc_ParticipantID c \<noteq> provider then
         writeError CatalogErrorType StatusBadRequest (''the catalog at that address declares participantId '' @
            rc_ParticipantID c @ '', not '' @ provider)
       else writeJSON StatusOK (DCatalogLookup \<lparr>cl_ParticipantID = rc_ParticipantID c,
         cl_ConnectorAddress = address, cl_Datasets = fst (pairs c)\<rparr>) Done)"

lemma run_lookup:
  assumes "Answered (Reply StatusOK (Some (DCatalogLookup l))) \<in>
    set (fst (run (fetchCatalog h address provider (lookup_reply provider address)) a w))"
  shows "cl_ParticipantID l = provider \<and> cl_ConnectorAddress l = address \<and>
    (\<exists>doc au. Sent (post (address @ consumerCatalogPath) doc au) \<in>
       set (fst (run (fetchCatalog h address provider (lookup_reply provider address)) a w)))"
proof -
  have reply: "cl_ParticipantID l = provider \<and> cl_ConnectorAddress l = address \<and> x \<noteq> None"
    if "Answered (Reply StatusOK (Some (DCatalogLookup l))) \<in> set (fst (run (lookup_reply provider address x) b w))" for x b
    using that by (auto simp: lookup_reply_def writeError_def writeJSON_def split: option.splits if_splits)
  show ?thesis
    using run_fetchCatalog [of h address provider "lookup_reply provider address" a w] assms reply by fastforce
qed

text \<open>
  A catalog lookup that answers 200 reports the catalog of the participant it was asked for:
  the document declares that participant, and it was fetched from the address the roster lists for
  it, never from one the request or the document chose.
\<close>

lemma lookups_report_the_participant_asked_for:
  assumes "Answered (Reply StatusOK (Some (DCatalogLookup l))) \<in> set (fst (run (handleCatalogLookup h r) a w))"
  shows "cl_ParticipantID l = rq_ProviderID r \<and>
    (\<exists>addressFor. h_providerAddress h = Some addressFor \<and>
       addressFor (rq_ProviderID r) = Some (cl_ConnectorAddress l)) \<and>
    (\<forall>known. h_knownParticipant h = Some known \<longrightarrow> known (rq_ProviderID r)) \<and>
    (\<exists>doc au. Sent (post (cl_ConnectorAddress l @ consumerCatalogPath) doc au)
       \<in> set (fst (run (handleCatalogLookup h r) a w)))"
proof -
  let ?p = "rq_ProviderID r"
  let ?k = "\<lambda>ok. if \<not> ok then refuseExpiredRoster CatalogErrorType
     else if ?p = '''' then writeError CatalogErrorType StatusBadRequest ''providerId is required''
     else (case h_providerAddress h of
       None \<Rightarrow> writeError CatalogErrorType StatusBadRequest
         ''this connector is running without a roster, so it cannot resolve a participant to an address''
     | Some addressFor \<Rightarrow> requireKnown h CatalogErrorType ?p
          (case addressFor ?p of
             None \<Rightarrow> writeError CatalogErrorType StatusBadRequest
               (''the roster lists no connector_address for providerId '' @ ?p)
           | Some address \<Rightarrow> AllowURL address (\<lambda>allowed.
               if \<not> allowed then writeError CatalogErrorType StatusBadRequest
                 (''the roster's connector_address for '' @ ?p @
                  '' is not an address this connector will send to'')
               else fetchCatalog h address ?p (lookup_reply ?p address))))"
  obtain b j where run: "run (handleCatalogLookup h r) a w = run (?k b) (\<lambda>i. a (i + j)) w"
    using run_usable [of h ?k a w] unfolding handleCatalogLookup_def lookup_reply_def by blast
  then obtain addressFor address where "h_providerAddress h = Some addressFor" "addressFor ?p = Some address"
    "\<forall>known. h_knownParticipant h = Some known \<longrightarrow> known ?p"
    "run (?k b) (\<lambda>i. a (i + j)) w = run (fetchCatalog h address ?p (lookup_reply ?p address)) (\<lambda>i. a (Suc (i + j))) w"
    using assms unfolding run
    by (auto simp: refuseExpiredRoster_def writeError_def writeJSON_def requireKnown_def split: if_splits option.splits)
  then show ?thesis
    using assms run_lookup [of l h address ?p "\<lambda>i. a (Suc (i + j))" w] unfolding run by auto
qed

end
