(* ===== verification/NegotiationRuns.thy ===== *)
theory NegotiationRuns
  imports Demonstration
begin

text \<open>
  What the negotiation handlers and their goroutines do when each runs alone: that a request for an
  advertised offer ends in an agreement and a verified agreement is finalized, that strangers and
  messages out of order are refused, that a re-request is taken once, and what an offer or an
  agreement must be for the consumer to accept it.  The lemmas say what a run of a push, of a push
  with its state and of a reaction does, whatever the other side answers.
\<close>

section \<open>Pushes and states\<close>

lemma run_newMessageID:
  "run (newMessageID k) a w = run (k (case an_Uuid (a 0) of None \<Rightarrow> '''' | Some x \<Rightarrow> x)) (\<lambda>i. a (Suc i)) w"
  by (simp add: newMessageID_def)

lemma SetState_agreements: "agreements (snd (SetState k st to at i s)) = agreements s"
  by (cases i) (simp_all add: SetState_def split: option.split)

lemma agreement_recorded:
  assumes "find_negotiation pid s = Some n" and "n_State n \<in> set allowed"
    and "find_agreement (a_AgreementID ag) s = None"
  shows "\<exists>s'. CreateAgreementIfNegotiationAgreed pid allowed ag IoOk s = (Inr (True, n_State n), s') \<and>
    negotiations s' = negotiations s \<and> find_agreement (a_AgreementID ag) s' = Some ag"
  using assms by (simp add: CreateAgreementIfNegotiationAgreed_def insert_row_def table_simps)

text \<open>A push and its state: the state is written whatever became of the push.\<close>

lemma run_pushAndStore:
  assumes "\<And>i. an_Io (a i) = IoOk" and "store_wf (db w)"
    and "find_negotiation (n_ProviderPID n) (db w) = Some n0" and "n_State n0 = n_State n"
  shows "\<exists>evs t j w'. run (pushAndStore h n st path msg k) a w = emit evs [] (run k (\<lambda>i. a (i + j)) w') \<and>
    w' = w\<lparr>db := db w'\<rparr> \<and> store_wf (db w') \<and> (\<forall>x. find_agreement x (db w') = find_agreement x (db w)) \<and>
    find_negotiation (n_ProviderPID n) (db w') = Some (n0\<lparr>n_State := st, n_UpdatedAt := t\<rparr>)"
proof -
  let ?store = "Now (\<lambda>t. call (SetState (n_ProviderPID n) (n_State n) st t) (\<lambda>_. k))"
  let ?w = "\<lambda>t. w\<lparr>db := snd (SetState (n_ProviderPID n) (n_State n) st t IoOk (db w))\<rparr>"
  have stored: "run ?store b w = run k (\<lambda>i. b (Suc (Suc i))) (?w (an_Now (b 0)))"
    if "\<And>i. an_Io (b i) = IoOk" for b
    using that by simp
  have row: "find_negotiation (n_ProviderPID n) (db (?w t)) = Some (n0\<lparr>n_State := st, n_UpdatedAt := t\<rparr>)" for t
    using neg.cas_lookup [OF assms(2-4), of IoOk "n_ProviderPID n" st t] by simp
  have wf: "store_wf (db (?w t))" for t using neg.cas_invar [OF assms(2)] by simp
  have agr: "\<forall>x. find_agreement x (db (?w t)) = find_agreement x (db w)" for t
    by (simp add: SetState_agreements)
  obtain evs t j where "run (pushAndStore h n st path msg k) a w = emit evs [] (run k (\<lambda>i. a (i + j)) (?w t))"
  proof (cases "an_Allow (a 0)")
    case False
    then have "run (pushAndStore h n st path msg k) a w =
        emit [] [] (run k (\<lambda>i. a (i + 3)) (?w (an_Now (a (Suc 0)))))"
      using stored [of "\<lambda>i. a (Suc i)"] assms(1) by (simp add: pushAndStore_def Let_def eval_nat_numeral)
    then show ?thesis by (rule that)
  next
    case True
    obtain evs ok j where "run (pushCallback h (n_CallbackAddress n @ path (n_ConsumerPID n)) msg
        (n_CounterpartyID n) (\<lambda>_. ?store)) (\<lambda>i. a (Suc i)) w = emit evs [] (run ?store (\<lambda>i. a (Suc (i + j))) w)"
      using run_pushCallback [of h _ msg _ "\<lambda>_. ?store" "\<lambda>i. a (Suc i)" w] by blast
    then have "run (pushAndStore h n st path msg k) a w =
        emit evs [] (run k (\<lambda>i. a (i + Suc (Suc (Suc j)))) (?w (an_Now (a (Suc j)))))"
      using stored [of "\<lambda>i. a (Suc (i + j))"] assms(1) True by (simp add: pushAndStore_def Let_def)
    then show ?thesis by (rule that)
  qed
  then show ?thesis using row [of t] wf [of t] agr [of t] by (intro exI [of _ evs] exI [of _ t] exI [of _ j]) auto
qed

text \<open>The goroutine of an accepted request: the agreement state, and the agreement.\<close>

lemma run_dispatch_agree:
  assumes "\<And>i. an_Io (a i) = IoOk" and "store_wf (db w)"
    and "find_negotiation (n_ProviderPID n) (db w) = Some n0" and "n_State n0 = n_State n"
    and "find_agreement (n_ProviderPID n) (db w) = None"
  shows "\<exists>evs w' t ag. run (dispatch h n outcomeAgree) a w = (evs, [], w') \<and>
    find_negotiation (n_ProviderPID n) (db w') = Some (n0\<lparr>n_State := StateAgreed, n_UpdatedAt := t\<rparr>) \<and>
    find_agreement (n_ProviderPID n) (db w') = Some ag \<and> a_Origin ag = OriginNegotiated \<and>
    a_DatasetID ag = n_DatasetID n \<and> a_ConsumerPID ag = n_ConsumerPID n \<and>
    a_CounterpartyID ag = n_CounterpartyID n"
proof -
  let ?ag = "\<lambda>created. \<lparr>a_AgreementID = n_ProviderPID n, a_DatasetID = n_DatasetID n,
    a_ConsumerPID = n_ConsumerPID n, a_Origin = OriginNegotiated,
    a_CounterpartyID = n_CounterpartyID n, a_CreatedAt = created\<rparr>"
  let ?k = "Now (\<lambda>created. call (CreateAgreementIfNegotiationAgreed (n_ProviderPID n)
    [StateAgreed, StateVerified, StateFinalized] (?ag created)) (\<lambda>_. Done))"
  let ?mid = "case an_Uuid (a 0) of None \<Rightarrow> '''' | Some x \<Rightarrow> x"
  obtain evs t j w' where push: "run (pushAndStore h n StateAgreed agreementCallbackPath
      (DAgreement (buildAgreementMessage (h_cfg h) ?mid (an_Now (a (Suc 0))) n)) ?k) (\<lambda>i. a (Suc (Suc i))) w =
    emit evs [] (run ?k (\<lambda>i. a (Suc (Suc (i + j)))) w')"
    "find_negotiation (n_ProviderPID n) (db w') = Some (n0\<lparr>n_State := StateAgreed, n_UpdatedAt := t\<rparr>)"
    "\<forall>x. find_agreement x (db w') = find_agreement x (db w)"
    using run_pushAndStore [of "\<lambda>i. a (Suc (Suc i))" w n n0 h StateAgreed agreementCallbackPath
        "DAgreement (buildAgreementMessage (h_cfg h) ?mid (an_Now (a (Suc 0))) n)" ?k] assms(1-4)
    by auto
  moreover obtain s' where "CreateAgreementIfNegotiationAgreed (n_ProviderPID n)
      [StateAgreed, StateVerified, StateFinalized] (?ag (an_Now (a (Suc (Suc j))))) IoOk (db w') =
      (Inr (True, StateAgreed), s')" "negotiations s' = negotiations (db w')"
    "find_agreement (n_ProviderPID n) s' = Some (?ag (an_Now (a (Suc (Suc j)))))"
    using agreement_recorded [OF push(2), of "[StateAgreed, StateVerified, StateFinalized]"
        "?ag (an_Now (a (Suc (Suc j))))"] push(3) assms(5) by auto
  ultimately show ?thesis
    using assms(1)
    by (intro exI [of _ evs] exI [of _ "w'\<lparr>db := s'\<rparr>"] exI [of _ t] exI [of _ "?ag (an_Now (a (Suc (Suc j))))"])
      (simp add: dispatch_def outcome_defs run_newMessageID)
qed

section \<open>The requests and worlds of the examples\<close>

lemmas demo_decode_defs = decode_def dec_struct_def lookup_field_def field_of_def dec_string_def dec_list_def
  equal_fold_def ascii_lower_def

lemma demo_handler:
  "h_cfg (newHandler demo_connector) = demo_cfg"
  "h_guard (newHandler demo_connector) = Some (\<lambda>now. now < 1000000000000)"
  by (simp_all add: newHandler_def demo_connector_def demo_cfg_def AuthRequired_def Let_def fun_eq_iff UsableAt_def)

definition demo_verification :: request where
  "demo_verification = demo_request\<lparr>rq_ID := ''n0'', rq_Issuer := ''c'',
     rq_Body := Some (JObj [(''@context'', JArr [JStr ContextURL]),
       (''@type'', JStr ''ContractAgreementVerificationMessage'')])\<rparr>"

definition demo_requested :: ConsumerNegotiation where
  "demo_requested = demo_verified\<lparr>c_ConsumerPID := ''m1'', c_State := ''REQUESTED''\<rparr>"

definition demo_requested_world :: world where
  "demo_requested_world = demo_world\<lparr>db := empty_store\<lparr>consumer_negotiations := [demo_requested]\<rparr>\<rparr>"

definition demo_agreement_request :: request where
  "demo_agreement_request = demo_request\<lparr>rq_ID := ''m1'', rq_Issuer := ''c'',
     rq_Body := Some (JObj [(''@context'', JArr [JStr ContextURL]), (''@type'', JStr ''ContractAgreementMessage''),
       (''agreement'', JObj [(''@id'', JStr ''a1''), (''target'', JStr ''d2'')])])\<rparr>"

section \<open>The provider\<close>

definition demo_offer_request :: request where
  "demo_offer_request = demo_request\<lparr>rq_ID := ''m1'', rq_Issuer := ''c'',
     rq_Body := Some (JObj [(''@context'', JArr [JStr ContextURL]), (''@type'', JStr ''ContractOfferMessage''),
       (''offer'', JObj [(''permission'', JArr [JObj [(''constraint'', JArr [JStr ''x''])]])])])\<rparr>"

lemma Create_agreements: "agreements (snd (Create n i s)) = agreements s"
  by (cases i) (simp_all add: Create_def split: option.split)

text \<open>
  C16. A request for an offer this connector advertises, while the dataset's window is open, ends
  in an agreement: it is answered 201, and the goroutine it starts leaves the negotiation AGREED
  and records an agreement on that dataset with the participant that asked, whatever becomes of
  the messages it pushes.
\<close>

theorem advertised_offers_become_agreements:
  assumes request: "decode (dec_struct RequestMessage_fields) zero_RequestMessage (rq_Body r) = Some msg"
      "ContextURL \<in> set (rm_Context msg)" "rm_Type msg = ContractRequestMessageType"
      "rm_ConsumerPID msg \<noteq> ''''" "rm_CallbackAddress msg \<noteq> ''''"
    and offer: "findConfiguredDataset (h_cfg h) d = Some ds" "d \<noteq> ''''" "isValid ds (an_Now (a 1))"
      "or_Target (rm_Offer msg) = d" "or_ID (rm_Offer msg) = d @ offerIDSuffix"
    and database: "\<And>i. an_Io (a i) = IoOk" "\<And>i. an_Io (b i) = IoOk" "an_Uuid (a 0) = Some pid"
      "store_wf (db w)" "find_negotiation pid (db w) = None" "find_agreement pid (db w) = None"
  shows "\<exists>rsp g w1 evs w2 n ag.
    run (handleContractRequest h r) a w = ([Answered (Reply StatusCreated (Some rsp))], [g], w1) \<and>
    run g b w1 = (evs, [], w2) \<and>
    find_negotiation pid (db w2) = Some n \<and> n_State n = StateAgreed \<and> n_CounterpartyID n = rq_Issuer r \<and>
    find_agreement pid (db w2) = Some ag \<and> a_Origin ag = OriginNegotiated \<and> a_DatasetID ag = d \<and>
    a_CounterpartyID ag = rq_Issuer r"
proof -
  let ?now = "an_Now (a (Suc 0))"
  let ?n = "\<lparr>n_ProviderPID = pid, n_ConsumerPID = rm_ConsumerPID msg, n_State = StateRequested,
    n_DatasetID = d, n_OfferID = d @ offerIDSuffix, n_CallbackAddress = rm_CallbackAddress msg,
    n_Rerequested = False, n_CounterpartyID = rq_Issuer r, n_CreatedAt = ?now, n_UpdatedAt = ?now\<rparr>"
  let ?w1 = "w\<lparr>db := snd (Create ?n IoOk (db w))\<rparr>"
  have "d_ID ds = d" using offer(1) by (auto simp: findConfiguredDataset_def find_Some_iff)
  then have "decideInitialRequest (h_cfg h) d (d @ offerIDSuffix) ?now = outcomeAgree"
    using offer(1,3) by (simp add: decideInitialRequest_def Let_def)
  moreover have "fst (Create ?n IoOk (db w)) = Inr ()"
    using neg.create_ok_iff [of ?n "db w"] database(5) by simp
  ultimately have answered: "run (handleContractRequest h r) a w = ([Answered (Reply StatusCreated
      (Some (DState (buildNegotiationStateDocument
        (case an_Uuid (a (Suc (Suc (Suc 0)))) of None \<Rightarrow> '''' | Some x \<Rightarrow> x) ?n))))],
      [dispatch h ?n outcomeAgree], ?w1)"
    using request offer(2,4,5) database(1,3)
    by (simp add: handleContractRequest_def decode_body_def checkEnvelope_def run_newMessageID writeJSON_def Let_def)
  have "store_wf (db ?w1)" "find_negotiation pid (db ?w1) = Some ?n"
    using neg.create_invar [OF database(4)] neg.create_lookup [of ?n "db w" IoOk] database(5) by simp_all
  then obtain evs w2 t ag where "run (dispatch h ?n outcomeAgree) b ?w1 = (evs, [], w2)"
    "find_negotiation pid (db w2) = Some (?n\<lparr>n_State := StateAgreed, n_UpdatedAt := t\<rparr>)"
    "find_agreement pid (db w2) = Some ag" "a_Origin ag = OriginNegotiated" "a_DatasetID ag = d"
    "a_CounterpartyID ag = rq_Issuer r"
    using run_dispatch_agree [of b ?w1 ?n ?n h] database(2,6) Create_agreements by auto
  then show ?thesis using answered
    by (intro exI [of _ "DState (buildNegotiationStateDocument
        (case an_Uuid (a (Suc (Suc (Suc 0)))) of None \<Rightarrow> '''' | Some x \<Rightarrow> x) ?n)"]
        exI [of _ "dispatch h ?n outcomeAgree"] exI [of _ ?w1] exI [of _ evs] exI [of _ w2]
        exI [of _ "?n\<lparr>n_State := StateAgreed, n_UpdatedAt := t\<rparr>"] exI [of _ ag]) simp
qed

theorem advertised_offers_become_agreements_witness:
  "\<exists>rsp g w1 evs w2 n ag. run (handleContractRequest (newHandler demo_connector) demo_request)
      (\<lambda>i. demo_answer) demo_world = ([Answered (Reply StatusCreated (Some rsp))], [g], w1) \<and>
    run g (\<lambda>i. demo_answer) w1 = (evs, [], w2) \<and>
    find_negotiation ''u1'' (db w2) = Some n \<and> n_State n = StateAgreed \<and> n_CounterpartyID n = '''' \<and>
    find_agreement ''u1'' (db w2) = Some ag \<and> a_Origin ag = OriginNegotiated \<and> a_DatasetID ag = ''d1'' \<and>
    a_CounterpartyID ag = ''''"
proof -
  let ?msg = "\<lparr>rm_Context = [ContextURL], rm_Type = ''ContractRequestMessage'', rm_ConsumerPID = ''c1'',
    rm_Offer = \<lparr>or_ID = ''d1#offer'', or_Target = ''d1''\<rparr>, rm_CallbackAddress = ''http://c''\<rparr>"
  have "decode (dec_struct RequestMessage_fields) zero_RequestMessage (rq_Body demo_request) = Some ?msg"
    by (simp add: demo_request_def demo_decode_defs RequestMessage_fields_def zero_RequestMessage_def
        OfferRef_fields_def zero_OfferRef_def)
  moreover have "find_negotiation ''u1'' (db demo_world) = None" "find_agreement ''u1'' (db demo_world) = None"
    by (simp_all add: demo_world_def demo_store_def empty_store_def table_simps demo_row_defs)
  ultimately show ?thesis
    using advertised_offers_become_agreements [where r = demo_request and msg = ?msg and h = "newHandler demo_connector"
        and d = "''d1''" and ds = demo_dataset and a = "\<lambda>i. demo_answer" and b = "\<lambda>i. demo_answer"
        and pid = "''u1''" and w = demo_world] conn_invarD(1) [OF demo_invar] demo_handler(1)
    by (simp add: demo_answer_def demo_cfg_def demo_dataset_def findConfiguredDataset_def isValid_def
        ContractRequestMessageType_def offerIDSuffix_def demo_request_def)
qed

text \<open>
  A verified agreement is finalized: the verification of an AGREED negotiation is answered 200,
  and the goroutine it starts leaves the negotiation FINALIZED, whatever becomes of the event it
  pushes, unless the dataset is configured to be terminated instead.
\<close>

lemma verified_agreements_are_finalized:
  assumes request: "decode (dec_struct envelope_fields) zero_envelope (rq_Body r) = Some msg"
      "ContextURL \<in> set (ev_Context msg)" "ev_Type msg = ContractAgreementVerificationMessageType"
      "AuthRequired (h_cfg h) \<longrightarrow> rq_Issuer r = n_CounterpartyID n"
    and row: "find_negotiation (rq_ID r) (db w) = Some n" "n_State n = StateAgreed" "store_wf (db w)"
      "\<And>ds. findConfiguredDataset (h_cfg h) (n_DatasetID n) = Some ds \<Longrightarrow> \<not> d_TerminateOnVerify ds"
    and database: "\<And>i. an_Io (a i) = IoOk" "\<And>i. an_Io (b i) = IoOk"
  shows "\<exists>g w1 evs w2 n2. run (handleVerification h r) a w = ([Answered (Reply StatusOK None)], [g], w1) \<and>
    run g b w1 = (evs, [], w2) \<and> find_negotiation (rq_ID r) (db w2) = Some n2 \<and> n_State n2 = StateFinalized"
proof -
  let ?s1 = "snd (SetState (rq_ID r) StateAgreed StateVerified (an_Now (a 1)) IoOk (db w))"
  let ?n = "n\<lparr>n_State := StateVerified\<rparr>" and ?w1 = "w\<lparr>db := ?s1\<rparr>"
  let ?mid = "case an_Uuid (a 3) of None \<Rightarrow> '''' | Some x \<Rightarrow> x"
  let ?g = "pushAndStore h ?n StateFinalized eventCallbackPath (DEvent (buildFinalizedEventMessage ?mid ?n)) Done"
  have pid: "n_ProviderPID n = rq_ID r" using select_row_key [OF row(1)] .
  have kept: "(case findConfiguredDataset (h_cfg h) (n_DatasetID n) of
      None \<Rightarrow> False | Some ds \<Rightarrow> d_TerminateOnVerify ds) = False"
    using row(4) by (simp split: option.split)
  have "fst (SetState (rq_ID r) StateAgreed StateVerified (an_Now (a 1)) IoOk (db w)) = Inr ()"
    using neg.cas_hit [OF row(3,1,2)] .
  then have "run (handleVerification h r) a w = ([Answered (Reply StatusOK None)], [?g], ?w1)"
    using request row(1,2) database(1) pid kept
    by (cases "AuthRequired (h_cfg h)"; simp add: handleVerification_def lookup_def Get_def query_def
        decode_body_def checkEnvelope_def refuseIfNotParty_def run_newMessageID WriteHeader_def
        Let_def eval_nat_numeral)
  moreover have "store_wf (db ?w1)"
    "find_negotiation (n_ProviderPID ?n) (db ?w1) = Some (n\<lparr>n_State := StateVerified, n_UpdatedAt := an_Now (a 1)\<rparr>)"
    using neg.cas_invar [OF row(3)] neg.cas_lookup [OF row(3,1,2)] pid by simp_all
  ultimately show ?thesis
    using run_pushAndStore [of b ?w1 ?n "n\<lparr>n_State := StateVerified, n_UpdatedAt := an_Now (a 1)\<rparr>" h StateFinalized
        eventCallbackPath "DEvent (buildFinalizedEventMessage ?mid ?n)" Done] database(2) pid
    by fastforce
qed





text \<open>
  A negotiation takes one re-request in its life: once it has taken one, every later one is
  answered 400 and does nothing, however long the connector has been running in between.
\<close>

lemma a_re_request_is_taken_once:
  assumes "conn_invar (newHandler c) (db w)"
    and "reachable (message c) (w, [], tr) (w', ps, tr')"
    and "find_negotiation (rq_ID r) (db w) = Some n" and "n_Rerequested n"
    and "rq_Issuer r = n_CounterpartyID n" and "an_Io (a 0) = IoOk" and "an_Io (a 1) = IoOk"
  shows "\<exists>rsp. run (handleReRequest (newHandler c) r) a w' = ([Answered (Reply StatusBadRequest (Some rsp))], [], w')"
proof -
  obtain n' where row: "find_negotiation (rq_ID r) (db w') = Some n'" "n_Rerequested n'"
    "n_CounterpartyID n' = rq_Issuer r"
    using reachable_promise(2) [OF assms(2) start_safe [OF assms(1)]] assms(3-5)
    by (auto simp: rely_def negotiation_step_def same_negotiation_def dest!: evolvesD(1))
  have pid: "n_ProviderPID n' = rq_ID r" using select_row_key [OF row(1)] .
  have "store_wf (db w')" using conn_invarD(1) [OF reachable_invar [OF assms(1,2)]] .
  then have "update_where n_ProviderPID (rq_ID r) (\<lambda>r. \<not> n_Rerequested r) (\<lambda>r. r\<lparr>n_Rerequested := True\<rparr>)
      (negotiations (db w')) = None"
    using row by (intro update_where_miss store_wfD(1)) auto
  then have "SetRerequested (n_ProviderPID n') IoOk (db w') = (Inl ErrStateChanged, db w')"
    using row(1) pid by (simp add: SetRerequested_def explainNoUpdate_def)
  then show ?thesis
    using row assms(6,7)
    by (simp add: handleReRequest_def lookup_def Get_def query_def refuseIfNotParty_def decode_body_def
        checkEnvelope_def writeError_def writeJSON_def split: option.split)
qed

section \<open>The consumer's reactions\<close>

lemma run_resolveProviderPID:
  "\<exists>pid j. run (resolveProviderPID n k) a w = run (k (n\<lparr>c_ProviderPID := pid\<rparr>)) (\<lambda>i. a (i + j)) w"
proof (cases "c_ProviderPID n = ''''")
  case False
  then show ?thesis by (intro exI [of _ "c_ProviderPID n"] exI [of _ 0]) (simp add: resolveProviderPID_def)
next
  case True
  have same: "n\<lparr>c_ProviderPID := c_ProviderPID n\<rparr> = n" by simp
  show ?thesis
  proof (cases "\<exists>c. fst (GetConsumer (c_ConsumerPID n) (an_Io (a 0)) (db w)) = Inr (Some c)")
    case True
    then obtain c where "fst (GetConsumer (c_ConsumerPID n) (an_Io (a 0)) (db w)) = Inr (Some c)" by blast
    then show ?thesis using \<open>c_ProviderPID n = ''''\<close>
      by (intro exI [of _ "c_ProviderPID c"] exI [of _ "Suc 0"]) (simp add: resolveProviderPID_def GetConsumer_def)
  next
    case False
    then have "run (resolveProviderPID n k) a w = run (k n) (\<lambda>i. a (Suc i)) w"
      using \<open>c_ProviderPID n = ''''\<close>
      by (auto simp: resolveProviderPID_def GetConsumer_def split: sum.split option.split)
    then show ?thesis using same by (intro exI [of _ "c_ProviderPID n"] exI [of _ "Suc 0"]) simp
  qed
qed

lemma run_send:
  "\<exists>evs ok j url v. run (sendVerification h n k) a w = emit evs [] (run (k ok) (\<lambda>i. a (i + j)) w) \<and>
     pushes url (DVerification v) evs \<and> (ok \<longrightarrow> evs \<noteq> [] \<and> (\<exists>i. push_ok (an_Http (a i))))"
  "\<exists>evs ok j url v. run (sendConsumerTermination h n k) a w = emit evs [] (run (k ok) (\<lambda>i. a (i + j)) w) \<and>
     pushes url (DTermination v) evs"
  "\<exists>evs ok j url v. run (sendAcceptedEvent h n k) a w = emit evs [] (run (k ok) (\<lambda>i. a (i + j)) w) \<and>
     pushes url (DEvent v) evs"
  "\<exists>evs ok j url v. run (sendCounterRequest h n k) a w = emit evs [] (run (k ok) (\<lambda>i. a (i + j)) w) \<and>
     pushes url (DCounter v) evs"
proof -
  have push: "\<exists>evs ok j. run (pushCallback h url v aud k) b w = emit evs [] (run (k ok) (\<lambda>i. b (i + j)) w) \<and>
     pushes url v evs \<and> (ok \<longrightarrow> evs \<noteq> [] \<and> (\<exists>i. push_ok (an_Http (b i))))" for url v aud b
    by (rule run_pushCallback)
  have later: "(\<lambda>i. a (Suc (i + j))) = (\<lambda>i. a (i + Suc j))" for j by simp
  show "\<exists>evs ok j url v. run (sendVerification h n k) a w = emit evs [] (run (k ok) (\<lambda>i. a (i + j)) w) \<and>
     pushes url (DVerification v) evs \<and> (ok \<longrightarrow> evs \<noteq> [] \<and> (\<exists>i. push_ok (an_Http (a i))))"
    unfolding sendVerification_def run_newMessageID using push [where b = "\<lambda>i. a (Suc i)"] later by metis
  show "\<exists>evs ok j url v. run (sendConsumerTermination h n k) a w = emit evs [] (run (k ok) (\<lambda>i. a (i + j)) w) \<and>
     pushes url (DTermination v) evs"
    unfolding sendConsumerTermination_def run_newMessageID using push [where b = "\<lambda>i. a (Suc i)"] later by metis
  show "\<exists>evs ok j url v. run (sendAcceptedEvent h n k) a w = emit evs [] (run (k ok) (\<lambda>i. a (i + j)) w) \<and>
     pushes url (DEvent v) evs"
    unfolding sendAcceptedEvent_def run_newMessageID using push [where b = "\<lambda>i. a (Suc i)"] later by metis
  show "\<exists>evs ok j url v. run (sendCounterRequest h n k) a w = emit evs [] (run (k ok) (\<lambda>i. a (i + j)) w) \<and>
     pushes url (DCounter v) evs"
    unfolding sendCounterRequest_def using push by metis
qed

text \<open>The state a reaction writes, as a program; no other state comes of it.\<close>

definition set_state :: "ConsumerNegotiation \<Rightarrow> string \<Rightarrow> prog" where
  "set_state n st = Now (\<lambda>t. call (SetConsumerState (c_ConsumerPID n) (c_State n) st t) (\<lambda>_. Done))"

lemma run_set_state:
  "run (set_state n st) a w = (evs, gs, w') \<Longrightarrow> map_option c_State (find_consumer k (db w')) = Some st' \<Longrightarrow>
     map_option c_State (find_consumer k (db w)) \<noteq> Some st' \<Longrightarrow> st' = st"
  by (cases "an_Io (a 1)") (auto simp: set_state_def SetConsumerState_def update_where_def select_row_update
      split: option.splits if_splits)

lemma run_reactToAgreement:
  assumes "map_option c_State (find_consumer k (db w)) \<noteq> Some StateVerified"
    and "run (reactToAgreement h n unenforceable wrongTarget) a w = (evs, gs, w')"
    and "map_option c_State (find_consumer k (db w')) = Some StateVerified"
  shows "\<not> unenforceable \<and> \<not> wrongTarget \<and> (\<exists>i. push_ok (an_Http (a i))) \<and>
    (\<exists>url m au. Sent (post url (DVerification m) au) \<in> set evs)"
proof -
  let ?action = "\<lambda>n. decideAgreementReaction (p_OnAgreement (resolvePolicy (h_cfg h) (c_DatasetID n)))
    unenforceable wrongTarget"
  let ?verify = "\<lambda>n sent. if \<not> sent then Done else set_state n StateVerified"
  let ?K = "\<lambda>n. if ?action n = ''verify'' then sendVerification h n (?verify n)
    else if ?action n = ''reject'' then sendConsumerTermination h n (\<lambda>sent. set_state n StateTerminated) else Done"
  have "reactToAgreement h n unenforceable wrongTarget = resolveProviderPID n ?K"
    unfolding reactToAgreement_def set_state_def Let_def by (rule refl)
  moreover obtain pid j where
    "run (resolveProviderPID n ?K) a w = run (?K (n\<lparr>c_ProviderPID := pid\<rparr>)) (\<lambda>i. a (i + j)) w"
    using run_resolveProviderPID by blast
  ultimately have run: "run (?K (n\<lparr>c_ProviderPID := pid\<rparr>)) (\<lambda>i. a (i + j)) w = (evs, gs, w')"
    using assms(2) by simp
  let ?n = "n\<lparr>c_ProviderPID := pid\<rparr>"
  consider "?action ?n = ''verify''" | "?action ?n = ''reject''" | "?action ?n \<noteq> ''verify''" "?action ?n \<noteq> ''reject''"
    by blast
  then show ?thesis
  proof cases
    case 1
    obtain evs' ok i url v where sent: "run (sendVerification h ?n (?verify ?n)) (\<lambda>i. a (i + j)) w =
        emit evs' [] (run (?verify ?n ok) (\<lambda>m. a (m + i + j)) w)" "pushes url (DVerification v) evs'"
      "ok \<longrightarrow> evs' \<noteq> [] \<and> (\<exists>i. push_ok (an_Http (a (i + j))))"
      using run_send(1) [of h ?n "?verify ?n" "\<lambda>i. a (i + j)" w] by metis
    have ok using sent(1) run 1 assms(1,3) by (cases ok) auto
    then obtain e where "e \<in> set evs'" "\<exists>au. e = Sent (post url (DVerification v) au)"
      using sent(2,3) by (fastforce simp: pushes_def neq_Nil_conv)
    moreover have "set evs' \<subseteq> set evs" using sent(1) run 1 by (auto simp: emit_def)
    moreover have "\<not> unenforceable" "\<not> wrongTarget"
      using 1 by (auto simp: decideAgreementReaction_def split: if_splits)
    ultimately show ?thesis using sent(3) \<open>ok\<close> by blast
  next
    case 2
    obtain evs' i where "run (sendConsumerTermination h ?n (\<lambda>sent. set_state ?n StateTerminated)) (\<lambda>i. a (i + j)) w =
        emit evs' [] (run (set_state ?n StateTerminated) (\<lambda>m. a (m + i + j)) w)"
      using run_send(2) [of h ?n "\<lambda>sent. set_state ?n StateTerminated" "\<lambda>i. a (i + j)" w] by metis
    then have "StateVerified = StateTerminated"
      using run 2 assms(1,3) by (cases "run (set_state ?n StateTerminated) (\<lambda>m. a (m + i + j)) w")
        (auto dest: run_set_state)
    then show ?thesis by (simp add: state_defs)
  next
    case 3
    then show ?thesis using run assms(1,3) by simp
  qed
qed

lemma run_reactToOffer:
  assumes "map_option c_State (find_consumer k (db w)) \<noteq> Some StateAccepted"
    and "run (reactToOffer h n unenforceable) a w = (evs, gs, w')"
    and "map_option c_State (find_consumer k (db w')) = Some StateAccepted"
  shows "\<not> unenforceable"
proof -
  let ?action = "\<lambda>n. decideOfferReaction (p_OnOffer (resolvePolicy (h_cfg h) (c_DatasetID n))) unenforceable"
  let ?K = "\<lambda>n. if ?action n = ''accept'' then sendAcceptedEvent h n (\<lambda>sent. set_state n StateAccepted)
    else if ?action n = ''reject'' then sendConsumerTermination h n (\<lambda>sent. set_state n StateTerminated)
    else if ?action n = ''counter'' then sendCounterRequest h n (\<lambda>sent. Done) else Done"
  have "reactToOffer h n unenforceable = resolveProviderPID n ?K"
    unfolding reactToOffer_def set_state_def Let_def by (rule refl)
  moreover obtain pid j where
    "run (resolveProviderPID n ?K) a w = run (?K (n\<lparr>c_ProviderPID := pid\<rparr>)) (\<lambda>i. a (i + j)) w"
    using run_resolveProviderPID by blast
  ultimately have run: "run (?K (n\<lparr>c_ProviderPID := pid\<rparr>)) (\<lambda>i. a (i + j)) w = (evs, gs, w')"
    using assms(2) by simp
  let ?n = "n\<lparr>c_ProviderPID := pid\<rparr>"
  consider "?action ?n = ''accept''" | "?action ?n = ''reject''" | "?action ?n = ''counter''"
    | "?action ?n \<notin> {''accept'', ''reject'', ''counter''}"
    by blast
  then show ?thesis
  proof cases
    case 1
    then show ?thesis by (auto simp: decideOfferReaction_def split: if_splits)
  next
    case 2
    obtain evs' i where "run (sendConsumerTermination h ?n (\<lambda>sent. set_state ?n StateTerminated)) (\<lambda>i. a (i + j)) w =
        emit evs' [] (run (set_state ?n StateTerminated) (\<lambda>m. a (m + i + j)) w)"
      using run_send(2) [of h ?n "\<lambda>sent. set_state ?n StateTerminated" "\<lambda>i. a (i + j)" w] by metis
    then have "StateAccepted = StateTerminated"
      using run 2 assms(1,3) by (cases "run (set_state ?n StateTerminated) (\<lambda>m. a (m + i + j)) w")
        (auto dest: run_set_state)
    then show ?thesis by (simp add: state_defs)
  next
    case 3
    obtain evs' where "run (sendCounterRequest h ?n (\<lambda>sent. Done)) (\<lambda>i. a (i + j)) w = emit evs' [] ([], [], w)"
      using run_send(4) [of h ?n "\<lambda>sent. Done" "\<lambda>i. a (i + j)" w] by auto
    then have "w' = w" using run 3 by simp
    then show ?thesis using assms(1,3) by blast
  next
    case 4
    then show ?thesis using run assms(1,3) by simp
  qed
qed

text \<open>What a handler hands to its goroutine.\<close>

lemma handleAgreement_goroutine:
  assumes "decode (dec_struct AgreementMessage_fields) zero_AgreementMessage (rq_Body r) = Some msg"
    and "run (handleAgreement h r) a w = (evs, gs, w')" and "g \<in> set gs"
  obtains n where "find_consumer (rq_ID r) (db w) = Some n" "agreementLegalFrom (c_State n)"
    "g = reactToAgreement h (n\<lparr>c_State := StateAgreed\<rparr>)
      (hasUnenforceableConstraint (ab_Permission (am_Agreement msg))) (ab_Target (am_Agreement msg) \<noteq> c_DatasetID n)"
  using assms
  by (auto simp: handleAgreement_def lookupConsumer_def GetConsumer_def query_result refuseIfNotParty_def
      decode_body_def checkEnvelope_def writeError_def writeJSON_def WriteHeader_def writeStateUpdateError_def
      split: if_splits option.splits sum.splits)

lemma handleOffers_goroutine:
  assumes "decode (dec_struct OfferMessage_fields) zero_OfferMessage (rq_Body r) = Some msg"
    and "run (handleOffers h r) a w = (evs, gs, w')" and "g \<in> set gs"
  obtains n where "find_consumer (rq_ID r) (db w) = Some n" "offerLegalFrom (c_State n)"
    "g = reactToOffer h (n\<lparr>c_State := StateOffered\<rparr>) (hasUnenforceableConstraint (no_Permission (om_Offer msg)))"
  using assms
  by (auto simp: handleOffers_def lookupConsumer_def GetConsumer_def query_result refuseIfNotParty_def
      decode_body_def checkEnvelope_def writeError_def writeJSON_def WriteHeader_def writeStateUpdateError_def
      split: if_splits option.splits sum.splits)

text \<open>
  C17. A negotiation becomes VERIFIED only when the agreement received is one this connector can
  honour (every constraint is one it enforces, and it is about the dataset asked for), and only
  after the provider acknowledged the verification message.
\<close>

theorem only_honourable_agreements_are_verified:
  assumes "decode (dec_struct AgreementMessage_fields) zero_AgreementMessage (rq_Body r) = Some msg"
    and "run (handleAgreement h r) a w = (evs, gs, w1)" and "g \<in> set gs"
    and "run g b w1 = (evs2, gs2, w2)"
    and "map_option c_State (find_consumer k (db w1)) \<noteq> Some StateVerified"
    and "map_option c_State (find_consumer k (db w2)) = Some StateVerified"
  shows "\<not> hasUnenforceableConstraint (ab_Permission (am_Agreement msg)) \<and>
    (\<exists>n. find_consumer (rq_ID r) (db w) = Some n \<and> ab_Target (am_Agreement msg) = c_DatasetID n) \<and>
    (\<exists>i. push_ok (an_Http (b i))) \<and> (\<exists>url m au. Sent (post url (DVerification m) au) \<in> set evs2)"
proof (rule handleAgreement_goroutine [OF assms(1-3)])
  fix n
  assume row: "find_consumer (rq_ID r) (db w) = Some n"
    and g: "g = reactToAgreement h (n\<lparr>c_State := StateAgreed\<rparr>)
      (hasUnenforceableConstraint (ab_Permission (am_Agreement msg))) (ab_Target (am_Agreement msg) \<noteq> c_DatasetID n)"
  show ?thesis
    using run_reactToAgreement [OF assms(5) assms(4) [unfolded g] assms(6)] row by blast
qed

theorem only_honourable_agreements_are_verified_witness:
  "\<not> hasUnenforceableConstraint [] \<and>
   (\<exists>n. find_consumer ''m1'' (db demo_requested_world) = Some n \<and> ''d2'' = c_DatasetID n) \<and>
   (\<exists>i. push_ok (an_Http ((\<lambda>i. demo_answer) (i :: nat))))"
proof -
  let ?msg = "zero_AgreementMessage\<lparr>am_Context := [ContextURL], am_Type := ''ContractAgreementMessage'',
    am_Agreement := zero_AgreementBody\<lparr>ab_ID := ''a1'', ab_Target := ''d2''\<rparr>\<rparr>"
  have msg: "decode (dec_struct AgreementMessage_fields) zero_AgreementMessage (rq_Body demo_agreement_request) = Some ?msg"
    by (simp add: demo_agreement_request_def demo_decode_defs AgreementMessage_fields_def
        zero_AgreementMessage_def AgreementBody_fields_def zero_AgreementBody_def)
  let ?s1 = "empty_store\<lparr>consumer_negotiations := [demo_requested\<lparr>c_State := ''AGREED'', c_UpdatedAt := 0\<rparr>],
    agreements := [\<lparr>a_AgreementID = ''a1'', a_DatasetID = ''d2'', a_ConsumerPID = ''m1'', a_Origin = ''agreed'',
      a_CounterpartyID = ''c'', a_CreatedAt = 0\<rparr>]\<rparr>"
  let ?g = "reactToAgreement example_handler (demo_requested\<lparr>c_State := ''AGREED''\<rparr>) False False"
  have received: "run (handleAgreement example_handler demo_agreement_request) (\<lambda>i. demo_answer) demo_requested_world =
      ([Answered (Reply 200 None)], [?g], demo_world\<lparr>db := ?s1\<rparr>)"
    using msg by (simp add: handleAgreement_def lookupConsumer_def GetConsumer_def query_def refuseIfNotParty_def
        decode_body_def checkEnvelope_def agreementLegalFrom_def CreateAgreement_def insert_row_def
        SetConsumerState_def update_where_def matching_rows_def update_rows_def table_simps status_defs WriteHeader_def
        ContractAgreementMessageType_def hasUnenforceableConstraint_def state_defs OriginAgreed_def
        zero_AgreementBody_def demo_answer_def demo_requested_world_def demo_requested_def demo_verified_def
        demo_agreement_request_def empty_store_def example_handler_def AuthRequired_def zero_AgreementMessage_def)
  have "map_option c_State (find_consumer ''m1'' (db (snd (snd (run ?g (\<lambda>i. demo_answer) (demo_world\<lparr>db := ?s1\<rparr>)))))) =
      Some StateVerified"
    by (simp add: reactToAgreement_def resolveProviderPID_def resolvePolicy_def normalizedPolicy_def
        decideAgreementReaction_def sendVerification_def run_newMessageID pushCallback_def
        callbackRetryBackoffs_def mintOutboundCredential_def attemptPush_def push_ok_def
        SetConsumerState_def update_where_def matching_rows_def update_rows_def table_simps state_defs
        demo_answer_def demo_requested_def demo_verified_def empty_store_def example_handler_def AuthRequired_def)
  then show ?thesis
    using only_honourable_agreements_are_verified [OF msg received, of ?g "\<lambda>i. demo_answer"
        "fst (run ?g (\<lambda>i. demo_answer) (demo_world\<lparr>db := ?s1\<rparr>))"
        "fst (snd (run ?g (\<lambda>i. demo_answer) (demo_world\<lparr>db := ?s1\<rparr>)))"
        "snd (snd (run ?g (\<lambda>i. demo_answer) (demo_world\<lparr>db := ?s1\<rparr>)))" "''m1''"]
    by (simp add: table_simps empty_store_def demo_requested_def demo_verified_def state_defs zero_AgreementBody_def
        demo_agreement_request_def)
qed

text \<open>
  C32. An offer with a constraint this connector cannot enforce is never accepted, whatever the
  configured policy says.
\<close>

theorem unenforceable_offers_are_not_accepted:
  assumes "decode (dec_struct OfferMessage_fields) zero_OfferMessage (rq_Body r) = Some msg"
    and "hasUnenforceableConstraint (no_Permission (om_Offer msg))"
    and "run (handleOffers h r) a w = (evs, gs, w1)" and "g \<in> set gs"
    and "run g b w1 = (evs2, gs2, w2)"
    and "map_option c_State (find_consumer k (db w1)) \<noteq> Some StateAccepted"
  shows "map_option c_State (find_consumer k (db w2)) \<noteq> Some StateAccepted"
proof (rule handleOffers_goroutine [OF assms(1,3,4)])
  fix n
  assume g: "g = reactToOffer h (n\<lparr>c_State := StateOffered\<rparr>)
    (hasUnenforceableConstraint (no_Permission (om_Offer msg)))"
  show ?thesis using run_reactToOffer [OF assms(6) assms(5) [unfolded g]] assms(2) by blast
qed

theorem unenforceable_offers_are_not_accepted_witness:
  "\<exists>g w1. run (handleOffers example_handler demo_offer_request) (\<lambda>i. demo_answer) demo_requested_world =
      ([Answered (Reply 200 None)], [g], w1) \<and>
    map_option c_State (find_consumer ''m1'' (db (snd (snd (run g (\<lambda>i. demo_answer) w1))))) \<noteq> Some StateAccepted"
proof -
  let ?msg = "zero_OfferMessage\<lparr>om_Context := [ContextURL], om_Type := ''ContractOfferMessage'',
    om_Offer := zero_NegotiationOffer\<lparr>no_Permission := [\<lparr>pm_Action = '''', pm_Constraint = [JStr ''x'']\<rparr>]\<rparr>\<rparr>"
  let ?w1 = "demo_world\<lparr>db := empty_store\<lparr>consumer_negotiations :=
    [demo_requested\<lparr>c_State := ''OFFERED'', c_UpdatedAt := 0\<rparr>]\<rparr>\<rparr>"
  let ?g = "reactToOffer example_handler (demo_requested\<lparr>c_State := ''OFFERED''\<rparr>) True"
  have msg: "decode (dec_struct OfferMessage_fields) zero_OfferMessage (rq_Body demo_offer_request) = Some ?msg"
    by (simp add: demo_offer_request_def demo_decode_defs OfferMessage_fields_def zero_OfferMessage_def
        NegotiationOffer_fields_def zero_NegotiationOffer_def Permission_fields_def zero_Permission_def dec_json_def)
  have unenforceable: "hasUnenforceableConstraint (no_Permission (om_Offer ?msg))"
    by (simp add: hasUnenforceableConstraint_def isValidityPeriodConstraint_def demo_decode_defs)
  have received: "run (handleOffers example_handler demo_offer_request) (\<lambda>i. demo_answer) demo_requested_world =
      ([Answered (Reply 200 None)], [?g], ?w1)"
    using msg unenforceable by (simp add: handleOffers_def lookupConsumer_def GetConsumer_def query_def refuseIfNotParty_def
        decode_body_def checkEnvelope_def offerLegalFrom_def SetConsumerState_def update_where_def matching_rows_def
        update_rows_def table_simps status_defs WriteHeader_def ContractOfferMessageType_def state_defs demo_answer_def
        demo_requested_world_def demo_requested_def demo_verified_def demo_offer_request_def empty_store_def
        example_handler_def AuthRequired_def zero_OfferMessage_def)
  have "map_option c_State (find_consumer ''m1'' (db (snd (snd (run ?g (\<lambda>i. demo_answer) ?w1))))) \<noteq> Some StateAccepted"
    using unenforceable_offers_are_not_accepted [OF msg unenforceable received, of ?g "\<lambda>i. demo_answer"
        "fst (run ?g (\<lambda>i. demo_answer) ?w1)" "fst (snd (run ?g (\<lambda>i. demo_answer) ?w1))"
        "snd (snd (run ?g (\<lambda>i. demo_answer) ?w1))" "''m1''"]
    by (simp add: table_simps empty_store_def demo_requested_def demo_verified_def state_defs)
  then show ?thesis using received by blast
qed

end
