(* ===== verification/Wire.thy ===== *)
theory Wire
  imports Management
begin

text \<open>
  The documents as \<^verbatim>\<open>json.Marshal\<close> puts them on the wire, member by member from the
  struct tags of \<^verbatim>\<open>negotiation.go\<close>, \<^verbatim>\<open>transfer.go\<close>, \<^verbatim>\<open>catalog.go\<close>, \<^verbatim>\<open>catalog_handler.go\<close>,
  \<^verbatim>\<open>error.go\<close>, \<^verbatim>\<open>version.go\<close> and \<^verbatim>\<open>mgmt/router.go\<close>.  The locale \<open>wire_format\<close> is what one connector
  relies on of another: that the decoder of the receiver reads, from the document of the sender,
  the fields it declares.  It is interpreted on every pair of a message sent and a message
  received, so the handlers of one side can be run on what the other side sends.
\<close>

section \<open>Members\<close>

definition json_strings :: "string list \<Rightarrow> json" where
  "json_strings ss = JArr (map JStr ss)"

definition member_unless ::
  "bool \<Rightarrow> string \<Rightarrow> json \<Rightarrow> (string \<times> json) list" where
  "member_unless omitted name j = (if omitted then [] else [(name, j)])"

section \<open>Contract negotiation\<close>

definition json_of_NegotiationOffer :: "NegotiationOffer \<Rightarrow> json" where
  "json_of_NegotiationOffer m = JObj
     [(''@id'', JStr (no_ID m)), (''@type'', JStr (no_Type m)),
      (''target'', JStr (no_Target m)),
      (''permission'', JArr (map json_of_Permission (no_Permission m)))]"

definition json_of_ConsumerRequestMessage :: "ConsumerRequestMessage \<Rightarrow> json" where
  "json_of_ConsumerRequestMessage m = JObj
     [(''@context'', json_strings (crm_Context m)), (''@type'', JStr (crm_Type m)),
      (''consumerPid'', JStr (crm_ConsumerPID m)),
      (''offer'', json_of_NegotiationOffer (crm_Offer m)),
      (''callbackAddress'', JStr (crm_CallbackAddress m))]"

definition json_of_CounterRequestMessage :: "CounterRequestMessage \<Rightarrow> json" where
  "json_of_CounterRequestMessage m = JObj
     [(''@context'', json_strings (cnm_Context m)), (''@type'', JStr (cnm_Type m)),
      (''providerPid'', JStr (cnm_ProviderPID m)),
      (''consumerPid'', JStr (cnm_ConsumerPID m)),
      (''offer'', json_of_NegotiationOffer (cnm_Offer m))]"

definition json_of_OfferMessage :: "OfferMessage \<Rightarrow> json" where
  "json_of_OfferMessage m = JObj
     [(''@context'', json_strings (om_Context m)), (''@id'', JStr (om_ID m)),
      (''@type'', JStr (om_Type m)), (''providerPid'', JStr (om_ProviderPID m)),
      (''consumerPid'', JStr (om_ConsumerPID m)),
      (''offer'', json_of_NegotiationOffer (om_Offer m))]"

definition json_of_AgreementBody :: "AgreementBody \<Rightarrow> json" where
  "json_of_AgreementBody m = JObj
     [(''@id'', JStr (ab_ID m)), (''@type'', JStr (ab_Type m)),
      (''target'', JStr (ab_Target m)),
      (''permission'', JArr (map json_of_Permission (ab_Permission m))),
      (''assigner'', JStr (ab_Assigner m)), (''assignee'', JStr (ab_Assignee m)),
      (''timestamp'', JStr (ab_Timestamp m))]"

definition json_of_AgreementMessage :: "AgreementMessage \<Rightarrow> json" where
  "json_of_AgreementMessage m = JObj
     [(''@context'', json_strings (am_Context m)), (''@id'', JStr (am_ID m)),
      (''@type'', JStr (am_Type m)), (''providerPid'', JStr (am_ProviderPID m)),
      (''consumerPid'', JStr (am_ConsumerPID m)),
      (''agreement'', json_of_AgreementBody (am_Agreement m)),
      (''callbackAddress'', JStr (am_CallbackAddress m))]"

definition json_of_EventMessage :: "EventMessage \<Rightarrow> json" where
  "json_of_EventMessage m = JObj
     [(''@context'', json_strings (em_Context m)), (''@id'', JStr (em_ID m)),
      (''@type'', JStr (em_Type m)), (''providerPid'', JStr (em_ProviderPID m)),
      (''consumerPid'', JStr (em_ConsumerPID m)), (''eventType'', JStr (em_EventType m))]"

definition json_of_VerificationMessage :: "VerificationMessage \<Rightarrow> json" where
  "json_of_VerificationMessage m = JObj
     [(''@context'', json_strings (vm_Context m)), (''@id'', JStr (vm_ID m)),
      (''@type'', JStr (vm_Type m)), (''providerPid'', JStr (vm_ProviderPID m)),
      (''consumerPid'', JStr (vm_ConsumerPID m))]"

definition json_of_TerminationReason :: "TerminationReason \<Rightarrow> json" where
  "json_of_TerminationReason m = JObj
     [(''message'', JStr (xr_Message m))]"

definition json_of_TerminationMessage :: "TerminationMessage \<Rightarrow> json" where
  "json_of_TerminationMessage m = JObj
     ([(''@context'', json_strings (xm_Context m)), (''@id'', JStr (xm_ID m)),
      (''@type'', JStr (xm_Type m)), (''providerPid'', JStr (xm_ProviderPID m)),
      (''consumerPid'', JStr (xm_ConsumerPID m)), (''code'', JStr (xm_Code m))] @
      member_unless (xm_Reason m = []) ''reason'' (JArr (map json_of_TerminationReason (xm_Reason m))))"

definition json_of_NegotiationStateDocument :: "NegotiationStateDocument \<Rightarrow> json" where
  "json_of_NegotiationStateDocument m = JObj
     [(''@context'', json_strings (nd_Context m)), (''@id'', JStr (nd_ID m)),
      (''@type'', JStr (nd_Type m)), (''providerPid'', JStr (nd_ProviderPID m)),
      (''consumerPid'', JStr (nd_ConsumerPID m)), (''state'', JStr (nd_State m))]"

section \<open>Transfer process\<close>

definition json_of_TransferRequestMessage :: "TransferRequestMessage \<Rightarrow> json" where
  "json_of_TransferRequestMessage m = JObj
     [(''@context'', json_strings (tm_Context m)), (''@type'', JStr (tm_Type m)),
      (''consumerPid'', JStr (tm_ConsumerPID m)),
      (''agreementId'', JStr (tm_AgreementID m)), (''format'', JStr (tm_Format m)),
      (''callbackAddress'', JStr (tm_CallbackAddress m))]"

definition json_of_TransferProcessDoc :: "TransferProcessDoc \<Rightarrow> json" where
  "json_of_TransferProcessDoc m = JObj
     [(''@context'', json_strings (td_Context m)), (''@type'', JStr (td_Type m)),
      (''providerPid'', JStr (td_ProviderPID m)),
      (''consumerPid'', JStr (td_ConsumerPID m)), (''state'', JStr (td_State m))]"

definition json_of_DataAddress :: "DataAddress \<Rightarrow> json" where
  "json_of_DataAddress m = JObj
     [(''@type'', JStr (da_Type m)), (''endpointType'', JStr (da_EndpointType m)),
      (''endpoint'', JStr (da_Endpoint m))]"

definition json_of_TransferStartMessage :: "TransferStartMessage \<Rightarrow> json" where
  "json_of_TransferStartMessage m = JObj
     ([(''@context'', json_strings (sm_Context m)), (''@type'', JStr (sm_Type m)),
       (''providerPid'', JStr (sm_ProviderPID m)), (''consumerPid'', JStr (sm_ConsumerPID m))] @
      (case sm_DataAddress m of None \<Rightarrow> [] | Some a \<Rightarrow> [(''dataAddress'', json_of_DataAddress a)]))"

definition json_of_TransferSuspensionMessage :: "TransferSuspensionMessage \<Rightarrow> json" where
  "json_of_TransferSuspensionMessage m = JObj
     [(''@context'', json_strings (sp_Context m)), (''@type'', JStr (sp_Type m)),
      (''providerPid'', JStr (sp_ProviderPID m)),
      (''consumerPid'', JStr (sp_ConsumerPID m))]"

definition json_of_TransferTerminationMessage :: "TransferTerminationMessage \<Rightarrow> json" where
  "json_of_TransferTerminationMessage m = JObj
     [(''@context'', json_strings (xt_Context m)), (''@type'', JStr (xt_Type m)),
      (''providerPid'', JStr (xt_ProviderPID m)),
      (''consumerPid'', JStr (xt_ConsumerPID m))]"

definition json_of_TransferCompletionMessage :: "TransferCompletionMessage \<Rightarrow> json" where
  "json_of_TransferCompletionMessage m = JObj
     [(''@context'', json_strings (cm_Context m)), (''@type'', JStr (cm_Type m)),
      (''providerPid'', JStr (cm_ProviderPID m)),
      (''consumerPid'', JStr (cm_ConsumerPID m))]"

section \<open>Errors, catalog, versions and the management listener\<close>

definition json_of_ErrorResponse :: "ErrorResponse \<Rightarrow> json" where
  "json_of_ErrorResponse m = JObj
     [(''@context'', json_strings (er_Context m)), (''@type'', JStr (er_Type m)),
      (''code'', JStr (er_Code m)), (''reason'', json_strings (er_Reason m))]"

definition json_of_CatalogRequestMessage :: "CatalogRequestMessage \<Rightarrow> json" where
  "json_of_CatalogRequestMessage m = JObj
     ([(''@context'', json_strings (cq_Context m)), (''@type'', JStr (cq_Type m))] @
      (case cq_Filter m of None \<Rightarrow> [] | Some j \<Rightarrow> [(''filter'', j)]))"

definition json_of_ProtocolVersion :: "ProtocolVersion \<Rightarrow> json" where
  "json_of_ProtocolVersion m = JObj
     [(''version'', JStr (pv_Version m)), (''path'', JStr (pv_Path m)),
      (''binding'', JStr (pv_Binding m))]"

definition json_of_VersionResponse :: "VersionResponse \<Rightarrow> json" where
  "json_of_VersionResponse m = JObj
     [(''@context'', json_strings (vr_Context m)),
      (''protocolVersions'', JArr (map json_of_ProtocolVersion (vr_ProtocolVersions m)))]"

definition json_of_datasetOffer :: "datasetOffer \<Rightarrow> json" where
  "json_of_datasetOffer m = JObj
     ([(''id'', JStr (do_DatasetID m)), (''offerId'', JStr (do_OfferID m))] @
      member_unless (do_Format m = '''') ''format'' (JStr (do_Format m)))"

definition json_of_catalogLookupResponse :: "catalogLookupResponse \<Rightarrow> json" where
  "json_of_catalogLookupResponse m = JObj
     [(''participantId'', JStr (cl_ParticipantID m)),
      (''connectorAddress'', JStr (cl_ConnectorAddress m)),
      (''datasets'', JArr (map json_of_datasetOffer (cl_Datasets m)))]"

definition json_of_agreementView :: "agreementView \<Rightarrow> json" where
  "json_of_agreementView m = JObj
     [(''agreementId'', JStr (av_AgreementID m)), (''datasetId'', JStr (av_DatasetID m)),
      (''origin'', JStr (av_Origin m)), (''createdAt'', JStr (av_CreatedAt m)),
      (''counterpartyId'', JStr (av_CounterpartyID m))]"

definition json_of_transferView :: "transferView \<Rightarrow> json" where
  "json_of_transferView m = JObj
     ([(''role'', JStr (tv_Role m)), (''consumerPid'', JStr (tv_ConsumerPID m)),
      (''providerPid'', JStr (tv_ProviderPID m)),
      (''agreementId'', JStr (tv_AgreementID m)), (''state'', JStr (tv_State m)),
      (''counterpartyId'', JStr (tv_CounterpartyID m)),
      (''createdAt'', JStr (tv_CreatedAt m))] @
      member_unless (tv_ExpectedBytes m = 0) ''expectedBytes'' (JNum (FormatInt (tv_ExpectedBytes m))) @
      member_unless (tv_ReceivedBytes m = 0) ''receivedBytes'' (JNum (FormatInt (tv_ReceivedBytes m))) @
      member_unless (tv_DataPath m = '''') ''dataPath'' (JStr (tv_DataPath m)) @
      member_unless (tv_DataCompletedAt m = '''') ''dataCompletedAt'' (JStr (tv_DataCompletedAt m)) @
      member_unless (tv_DataError m = '''') ''dataError'' (JStr (tv_DataError m)))"

text \<open>
  The body of a response or request; a plain text is no JSON document, so a decoder finds none.
\<close>

fun wire :: "document \<Rightarrow> json option" where
  "wire (DState m) = Some (json_of_NegotiationStateDocument m)"
| "wire (DOffer m) = Some (json_of_OfferMessage m)"
| "wire (DAgreement m) = Some (json_of_AgreementMessage m)"
| "wire (DEvent m) = Some (json_of_EventMessage m)"
| "wire (DTermination m) = Some (json_of_TerminationMessage m)"
| "wire (DRequest m) = Some (json_of_ConsumerRequestMessage m)"
| "wire (DCounter m) = Some (json_of_CounterRequestMessage m)"
| "wire (DVerification m) = Some (json_of_VerificationMessage m)"
| "wire (DTransferRequest m) = Some (json_of_TransferRequestMessage m)"
| "wire (DTransferProcess m) = Some (json_of_TransferProcessDoc m)"
| "wire (DTransferStart m) = Some (json_of_TransferStartMessage m)"
| "wire (DTransferSuspension m) = Some (json_of_TransferSuspensionMessage m)"
| "wire (DTransferTermination m) = Some (json_of_TransferTerminationMessage m)"
| "wire (DTransferCompletion m) = Some (json_of_TransferCompletionMessage m)"
| "wire (DError m) = Some (json_of_ErrorResponse m)"
| "wire (DCatalogRequest m) = Some (json_of_CatalogRequestMessage m)"
| "wire (DCatalog m) = Some (json_of_Catalog m)"
| "wire (DDataset m) = Some (json_of_DatasetNode m)"
| "wire (DVersion m) = Some (json_of_VersionResponse m)"
| "wire (DCatalogLookup m) = Some (json_of_catalogLookupResponse m)"
| "wire (DAgreements ms) = Some (JObj [(''agreements'', JArr (map json_of_agreementView ms))])"
| "wire (DTransfers ms) = Some (JObj [(''transfers'', JArr (map json_of_transferView ms))])"
| "wire (DHealth s) = Some (JObj [(''status'', JStr s)])"
| "wire (DText s) = None"

section \<open>What the other side reads\<close>

locale wire_format =
  fixes fields :: "'b json_field list"
    and zero :: 'b
    and enc :: "'a \<Rightarrow> json"
    and view :: "'a \<Rightarrow> 'b"
  assumes read_back: "dec_struct fields (enc m) zero = Some (view m)"
begin

lemma decode_sent: "body = Some (enc m) \<Longrightarrow> decode (dec_struct fields) zero body = Some (view m)"
  by (simp add: decode_def read_back)

lemma decode_body_sent: "rq_Body r = Some (enc m) \<Longrightarrow> decode_body ty rs fields zero r k = k (view m)"
  by (simp add: decode_body_def decode_sent)

lemma reply_sent:
  "hr_Status resp < 300 \<Longrightarrow> hr_Body resp = Some (enc m) \<Longrightarrow> pid (view m) \<noteq> '''' \<Longrightarrow>
     providerPID_of_reply pid fields zero (HttpOk resp) = Some (pid (view m))"
  by (simp add: providerPID_of_reply_def decode_sent)

lemma list_read_back: "dec_list (dec_struct fields) zero (JArr (map enc ms)) old = Some (map view ms)"
  unfolding dec_list_def by (induction ms) (simp_all add: read_back)

end

lemma dec_struct_object: "dec_struct flds (JObj ms) x = dec_members flds ms x"
  by (simp add: dec_struct_def)

lemmas decoder_simps = dec_struct_object lookup_field_def field_of_def dec_string_def equal_fold_def
  ascii_lower_def member_unless_def

lemma dec_json_strings: "dec_list dec_string '''' (json_strings ss) old = Some ss"
  by (simp add: dec_list_def json_strings_def dec_elems_strings)


text \<open>The nested documents, then every message of one side with what the other declares of it.\<close>

interpretation permission_wire: wire_format Permission_fields zero_Permission
  json_of_Permission "\<lambda>p. p"
proof (unfold_locales, goal_cases)
  case (1 p)
  have "dec_elems (\<lambda>x. dec_json x JNull) cs = Some cs" for cs
    by (induction cs) (simp_all add: dec_json_def)
  then show ?case
    by (simp add: decoder_simps json_of_Permission_def Permission_fields_def zero_Permission_def dec_list_def)
qed

interpretation offer_ref_wire: wire_format OfferRef_fields zero_OfferRef json_of_NegotiationOffer
  "\<lambda>x. \<lparr>or_ID = no_ID x, or_Target = no_Target x\<rparr>"
  by unfold_locales (simp add: decoder_simps
      json_of_NegotiationOffer_def OfferRef_fields_def zero_OfferRef_def)

interpretation offer_wire: wire_format NegotiationOffer_fields zero_NegotiationOffer
  json_of_NegotiationOffer "\<lambda>x. x"
  by unfold_locales (simp add: decoder_simps
      json_of_NegotiationOffer_def NegotiationOffer_fields_def
      zero_NegotiationOffer_def permission_wire.list_read_back)

interpretation agreement_body_wire: wire_format AgreementBody_fields zero_AgreementBody
  json_of_AgreementBody
  "\<lambda>m. m"
  by unfold_locales (simp add: decoder_simps
      json_of_AgreementBody_def AgreementBody_fields_def zero_AgreementBody_def
      dec_json_strings permission_wire.list_read_back)

interpretation data_address_wire: wire_format DataAddress_fields zero_DataAddress
  json_of_DataAddress
  "\<lambda>m. m"
  by unfold_locales (simp add: decoder_simps
      json_of_DataAddress_def DataAddress_fields_def zero_DataAddress_def
      dec_json_strings)

interpretation request_wire: wire_format RequestMessage_fields zero_RequestMessage
  json_of_ConsumerRequestMessage
  "\<lambda>m. \<lparr>rm_Context = crm_Context m, rm_Type = crm_Type m, rm_ConsumerPID = crm_ConsumerPID m,
     rm_Offer = \<lparr>or_ID = no_ID (crm_Offer m), or_Target = no_Target (crm_Offer m)\<rparr>,
     rm_CallbackAddress = crm_CallbackAddress m\<rparr>"
  by unfold_locales (simp add: decoder_simps
      json_of_ConsumerRequestMessage_def RequestMessage_fields_def zero_RequestMessage_def
      dec_json_strings offer_ref_wire.read_back)

interpretation counter_wire: wire_format RequestMessage_fields zero_RequestMessage
  json_of_CounterRequestMessage
  "\<lambda>m. \<lparr>rm_Context = cnm_Context m, rm_Type = cnm_Type m, rm_ConsumerPID = cnm_ConsumerPID m,
     rm_Offer = \<lparr>or_ID = no_ID (cnm_Offer m), or_Target = no_Target (cnm_Offer m)\<rparr>,
     rm_CallbackAddress = ''''\<rparr>"
  by unfold_locales (simp add: decoder_simps
      json_of_CounterRequestMessage_def RequestMessage_fields_def zero_RequestMessage_def
      dec_json_strings offer_ref_wire.read_back)

interpretation state_wire: wire_format NegotiationStateDocument_fields zero_NegotiationStateDocument
  json_of_NegotiationStateDocument
  "\<lambda>m. m"
  by unfold_locales (simp add: decoder_simps
      json_of_NegotiationStateDocument_def NegotiationStateDocument_fields_def zero_NegotiationStateDocument_def
      dec_json_strings)

interpretation offer_message_wire: wire_format OfferMessage_fields zero_OfferMessage
  json_of_OfferMessage
  "\<lambda>m. m"
  by unfold_locales (simp add: decoder_simps
      json_of_OfferMessage_def OfferMessage_fields_def zero_OfferMessage_def
      dec_json_strings offer_wire.read_back)

interpretation agreement_wire: wire_format AgreementMessage_fields zero_AgreementMessage
  json_of_AgreementMessage
  "\<lambda>m. m"
  by unfold_locales (simp add: decoder_simps
      json_of_AgreementMessage_def AgreementMessage_fields_def zero_AgreementMessage_def
      dec_json_strings agreement_body_wire.read_back)

interpretation event_wire: wire_format EventBody_fields zero_EventBody json_of_EventMessage
  "\<lambda>m. \<lparr>eb_Context = em_Context m, eb_Type = em_Type m, eb_EventType = em_EventType m\<rparr>"
  by unfold_locales (simp add: decoder_simps
      json_of_EventMessage_def EventBody_fields_def zero_EventBody_def
      dec_json_strings)

interpretation verification_wire: wire_format envelope_fields zero_envelope
  json_of_VerificationMessage
  "\<lambda>m. \<lparr>ev_Context = vm_Context m, ev_Type = vm_Type m\<rparr>"
  by unfold_locales (simp add: decoder_simps
      json_of_VerificationMessage_def envelope_fields_def zero_envelope_def
      dec_json_strings)

interpretation termination_wire: wire_format envelope_fields zero_envelope
  json_of_TerminationMessage
  "\<lambda>m. \<lparr>ev_Context = xm_Context m, ev_Type = xm_Type m\<rparr>"
  by unfold_locales (simp add: decoder_simps
      json_of_TerminationMessage_def envelope_fields_def zero_envelope_def
      dec_json_strings)

interpretation transfer_request_wire: wire_format TransferRequestMessage_fields zero_TransferRequestMessage
  json_of_TransferRequestMessage
  "\<lambda>m. m"
  by unfold_locales (simp add: decoder_simps
      json_of_TransferRequestMessage_def TransferRequestMessage_fields_def zero_TransferRequestMessage_def
      dec_json_strings)

interpretation transfer_process_wire: wire_format TransferProcessDoc_fields zero_TransferProcessDoc
  json_of_TransferProcessDoc
  "\<lambda>m. m"
  by unfold_locales (simp add: decoder_simps
      json_of_TransferProcessDoc_def TransferProcessDoc_fields_def zero_TransferProcessDoc_def
      dec_json_strings)

lemma dec_DataAddress_pointer:
  "dec_pointer (dec_struct DataAddress_fields) zero_DataAddress (json_of_DataAddress a) None = Some (Some a)"
  using data_address_wire.read_back [of a] by (simp add: dec_pointer_def json_of_DataAddress_def)

interpretation transfer_start_wire: wire_format transferEnvelope_fields zero_transferEnvelope
  json_of_TransferStartMessage
  "\<lambda>m. \<lparr>te_Context = sm_Context m, te_Type = sm_Type m, te_DataAddress = sm_DataAddress m\<rparr>"
  by unfold_locales (simp add: decoder_simps
      json_of_TransferStartMessage_def transferEnvelope_fields_def zero_transferEnvelope_def
      dec_json_strings dec_DataAddress_pointer split: option.split)

interpretation suspension_wire: wire_format transferEnvelope_fields zero_transferEnvelope
  json_of_TransferSuspensionMessage
  "\<lambda>m. \<lparr>te_Context = sp_Context m, te_Type = sp_Type m, te_DataAddress = None\<rparr>"
  by unfold_locales (simp add: decoder_simps
      json_of_TransferSuspensionMessage_def transferEnvelope_fields_def zero_transferEnvelope_def
      dec_json_strings)

interpretation transfer_termination_wire: wire_format transferEnvelope_fields zero_transferEnvelope
  json_of_TransferTerminationMessage
  "\<lambda>m. \<lparr>te_Context = xt_Context m, te_Type = xt_Type m, te_DataAddress = None\<rparr>"
  by unfold_locales (simp add: decoder_simps
      json_of_TransferTerminationMessage_def transferEnvelope_fields_def zero_transferEnvelope_def
      dec_json_strings)

interpretation completion_wire: wire_format transferEnvelope_fields zero_transferEnvelope
  json_of_TransferCompletionMessage
  "\<lambda>m. \<lparr>te_Context = cm_Context m, te_Type = cm_Type m, te_DataAddress = None\<rparr>"
  by unfold_locales (simp add: decoder_simps
      json_of_TransferCompletionMessage_def transferEnvelope_fields_def zero_transferEnvelope_def
      dec_json_strings)

interpretation catalog_request_wire: wire_format CatalogRequestMessage_fields zero_CatalogRequestMessage
  json_of_CatalogRequestMessage
  "\<lambda>m. m"
  by unfold_locales (simp add: decoder_simps
      json_of_CatalogRequestMessage_def CatalogRequestMessage_fields_def zero_CatalogRequestMessage_def
      dec_json_strings dec_raw_def split: option.split)

text \<open>
  C24. Every message one connector sends is read back by the decoder of the handler it is sent to, or
  of the client that waits for it: the receiver gets each field it declares as the sender set it, and
  of a counter-request no callback address.
\<close>

theorem messages_are_read_back:
  "decode (dec_struct RequestMessage_fields) zero_RequestMessage (wire (DRequest request)) =
     Some \<lparr>rm_Context = crm_Context request, rm_Type = crm_Type request, rm_ConsumerPID = crm_ConsumerPID request,
       rm_Offer = \<lparr>or_ID = no_ID (crm_Offer request), or_Target = no_Target (crm_Offer request)\<rparr>,
       rm_CallbackAddress = crm_CallbackAddress request\<rparr> \<and>
   decode (dec_struct RequestMessage_fields) zero_RequestMessage (wire (DCounter counter)) =
     Some \<lparr>rm_Context = cnm_Context counter, rm_Type = cnm_Type counter, rm_ConsumerPID = cnm_ConsumerPID counter,
       rm_Offer = \<lparr>or_ID = no_ID (cnm_Offer counter), or_Target = no_Target (cnm_Offer counter)\<rparr>,
       rm_CallbackAddress = ''''\<rparr> \<and>
   decode (dec_struct NegotiationStateDocument_fields) zero_NegotiationStateDocument (wire (DState state)) = Some state \<and>
   decode (dec_struct OfferMessage_fields) zero_OfferMessage (wire (DOffer offer)) = Some offer \<and>
   decode (dec_struct AgreementMessage_fields) zero_AgreementMessage (wire (DAgreement agreement)) = Some agreement \<and>
   decode (dec_struct EventBody_fields) zero_EventBody (wire (DEvent event)) =
     Some \<lparr>eb_Context = em_Context event, eb_Type = em_Type event, eb_EventType = em_EventType event\<rparr> \<and>
   decode (dec_struct envelope_fields) zero_envelope (wire (DVerification verification)) =
     Some \<lparr>ev_Context = vm_Context verification, ev_Type = vm_Type verification\<rparr> \<and>
   decode (dec_struct envelope_fields) zero_envelope (wire (DTermination termination)) =
     Some \<lparr>ev_Context = xm_Context termination, ev_Type = xm_Type termination\<rparr> \<and>
   decode (dec_struct TransferRequestMessage_fields) zero_TransferRequestMessage
     (wire (DTransferRequest transfer)) = Some transfer \<and>
   decode (dec_struct TransferProcessDoc_fields) zero_TransferProcessDoc (wire (DTransferProcess doc)) = Some doc \<and>
   decode (dec_struct transferEnvelope_fields) zero_transferEnvelope (wire (DTransferStart start)) =
     Some \<lparr>te_Context = sm_Context start, te_Type = sm_Type start, te_DataAddress = sm_DataAddress start\<rparr> \<and>
   decode (dec_struct transferEnvelope_fields) zero_transferEnvelope (wire (DTransferSuspension suspension)) =
     Some \<lparr>te_Context = sp_Context suspension, te_Type = sp_Type suspension, te_DataAddress = None\<rparr> \<and>
   decode (dec_struct transferEnvelope_fields) zero_transferEnvelope (wire (DTransferTermination stop)) =
     Some \<lparr>te_Context = xt_Context stop, te_Type = xt_Type stop, te_DataAddress = None\<rparr> \<and>
   decode (dec_struct transferEnvelope_fields) zero_transferEnvelope (wire (DTransferCompletion completion)) =
     Some \<lparr>te_Context = cm_Context completion, te_Type = cm_Type completion, te_DataAddress = None\<rparr> \<and>
   decode (dec_struct CatalogRequestMessage_fields) zero_CatalogRequestMessage (wire (DCatalogRequest search)) = Some search"
  by (simp only: wire.simps request_wire.decode_sent [OF refl] counter_wire.decode_sent [OF refl]
      state_wire.decode_sent [OF refl] offer_message_wire.decode_sent [OF refl] agreement_wire.decode_sent [OF refl]
      event_wire.decode_sent [OF refl] verification_wire.decode_sent [OF refl] termination_wire.decode_sent [OF refl]
      transfer_request_wire.decode_sent [OF refl] transfer_process_wire.decode_sent [OF refl]
      transfer_start_wire.decode_sent [OF refl] suspension_wire.decode_sent [OF refl]
      transfer_termination_wire.decode_sent [OF refl] completion_wire.decode_sent [OF refl]
      catalog_request_wire.decode_sent [OF refl] simp_thms)

section \<open>What the client gets of a response\<close>

definition delivered :: "response \<Rightarrow> http_result" where
  "delivered rsp = (case rsp of
     Stream st cr n bs \<Rightarrow> HttpOk \<lparr>hr_Status = st, hr_Body = None, hr_ContentRange = cr,
       hr_ContentLength = n, hr_Data = bs, hr_DataEnd = None\<rparr>
   | Reply st d \<Rightarrow> HttpOk \<lparr>hr_Status = st, hr_Body = Option.bind d wire, hr_ContentRange = '''',
       hr_ContentLength = - 1, hr_Data = [], hr_DataEnd = None\<rparr>
   | ReplyHeaders hs st d \<Rightarrow> HttpOk \<lparr>hr_Status = st, hr_Body = Option.bind d wire, hr_ContentRange = '''',
       hr_ContentLength = - 1, hr_Data = [], hr_DataEnd = None\<rparr>)"

lemma push_ok_delivered [simp]: "push_ok (delivered (Reply st d)) \<longleftrightarrow> st < 300"
  by (simp add: push_ok_def delivered_def)

end
