(* ===== verification/TransferRuns.thy ===== *)
theory TransferRuns
  imports NegotiationRuns Wire
begin

text \<open>
  What the transfer handlers, the data endpoint and a pull do when each runs alone: who is served
  which bytes (\<open>may_serve\<close> is the contract of the data endpoint), that a download completes from
  both sides, how far a configured sequence drives a transfer, and that strangers and messages out
  of order are refused.
\<close>

section \<open>Who is served what\<close>

text \<open>
  The contract of the data endpoint: the transfer is started and belongs to the caller, its
  agreement is one this connector is the provider of, the dataset of that agreement is configured
  with a file of this content, and its window is open.
\<close>

definition may_serve :: "handler \<Rightarrow> request \<Rightarrow> world \<Rightarrow> Dataset \<Rightarrow> 8 word list \<Rightarrow> instant \<Rightarrow> bool" where
  "may_serve h r w ds content now \<longleftrightarrow>
     (case find_transfer (rq_ID r) (db w) of
        None \<Rightarrow> False
      | Some t \<Rightarrow> t_State t = TransferStarted \<and>
          (AuthRequired (h_cfg h) \<longrightarrow> rq_Issuer r = t_CounterpartyID t) \<and>
          (case find_agreement (t_AgreementID t) (db w) of
             None \<Rightarrow> False
           | Some a \<Rightarrow> servableAsProvider a \<and>
               findConfiguredDataset (h_cfg h) (a_DatasetID a) = Some ds)) \<and>
     d_SourceFile ds \<noteq> '''' \<and> files w (d_SourceFile ds) = Some content \<and> isValid ds now"

lemma may_serveI:
  assumes "find_transfer (rq_ID r) (db w) = Some t" and "t_State t = TransferStarted"
    and "AuthRequired (h_cfg h) \<longrightarrow> rq_Issuer r = t_CounterpartyID t"
    and "find_agreement (t_AgreementID t) (db w) = Some ag" and "servableAsProvider ag"
    and "findConfiguredDataset (h_cfg h) (a_DatasetID ag) = Some ds" and "d_SourceFile ds \<noteq> ''''"
    and "files w (d_SourceFile ds) = Some content" and "\<And>u. d_ValidityUntil ds = Some u \<Longrightarrow> now < u"
  shows "may_serve h r w ds content now"
  using assms by (auto simp: may_serve_def isValid_def split: option.split)

lemma run_sys [simp]: "run (sys u k) a w = run (k (an_Io (a 0) = IoOk)) (\<lambda>i. a (Suc i))
    (if an_Io (a 0) = IoFail then w else u w)"
  by (simp add: sys_def)

lemma run_serve_file:
  "Answered (Stream st cr n bs) \<in> set (fst (run (serve_file ds r content) a w)) \<Longrightarrow>
     \<exists>m. bs = drop m content \<or> bs = take m content"
  by (auto simp: serve_file_def Let_def WriteHeader_def split: option.splits if_splits
      intro: exI [of _ "length content"])

text \<open>
  C6. Bytes are served only under the contract, and only bytes of the file: a suffix of it, or,
  where the configuration simulates an interruption, a prefix.
\<close>

theorem bytes_are_served_under_contract:
  assumes "Answered (Stream st cr n bs) \<in> set (fst (run (handleData h r) a w))"
  shows "\<exists>ds content i. may_serve h r w ds content (an_Now (a i)) \<and>
    (\<exists>m. bs = drop m content \<or> bs = take m content)"
  using assms
  by (auto simp: handleData_def datasetFor_def GetTransfer_def GetAgreement_def query_result
      writeError_def writeJSON_def WriteHeader_def Let_def
      dest!: run_serve_file split: option.splits sum.splits if_splits) (fastforce intro: may_serveI)+

lemma run_handleData:
  assumes "\<And>i. an_Io (a i) = IoOk" and "\<And>i. may_serve h r w ds content (an_Now (a i))"
  shows "\<exists>j. run (handleData h r) a w = run (serve_file ds r content) (\<lambda>i. a (i + j)) w"
proof -
  obtain t ag where row: "find_transfer (rq_ID r) (db w) = Some t" "t_State t = TransferStarted"
    "\<not> (AuthRequired (h_cfg h) \<and> rq_Issuer r \<noteq> t_CounterpartyID t)"
    "find_agreement (t_AgreementID t) (db w) = Some ag" "servableAsProvider ag"
    "findConfiguredDataset (h_cfg h) (a_DatasetID ag) = Some ds" "d_SourceFile ds \<noteq> ''''"
    "files w (d_SourceFile ds) = Some content"
    using assms(2) [of 0] by (auto simp: may_serve_def split: option.splits)
  have valid: "isValid ds (an_Now (a i))" for i using assms(2) [of i] by (simp add: may_serve_def)
  show ?thesis
  proof (cases "d_ValidityUntil ds")
    case None
    then show ?thesis using row assms(1)
      by (intro exI [of _ "Suc (Suc (Suc (Suc 0)))"])
        (cases "AuthRequired (h_cfg h)"; simp add: handleData_def datasetFor_def GetTransfer_def
          GetAgreement_def query_result)
  next
    case (Some u)
    then have "an_Now (a i) < u" for i using valid by (simp add: isValid_def)
    then show ?thesis using row assms(1) Some
      by (intro exI [of _ "Suc (Suc (Suc (Suc (Suc 0))))"])
        (cases "AuthRequired (h_cfg h)"; simp add: handleData_def datasetFor_def GetTransfer_def
          GetAgreement_def query_result)
  qed
qed

lemma sint_length: "length xs < 2 ^ 63 \<Longrightarrow> sint (word_of_nat (length xs) :: int64) = int (length xs)"
  using sint64_of_int [of "int (length xs)"] by simp

lemma run_handleData_resumed:
  assumes "\<And>i. an_Io (a i) = IoOk" and "\<And>i. may_serve h r w ds content (an_Now (a i))"
    and "rq_Range r = rangeHeader start" and "0 \<le> sint start" and "sint start < int (length content)"
    and "length content < 2 ^ 63"
  shows "run (handleData h r) a w = ([Answered (Stream 206
      (contentRange start (word_of_nat (length content))) (word_of_nat (length content) - start)
      (drop (nat (sint start)) content))], [], w)"
proof -
  have "\<not> (word_of_nat (length content) :: int64) \<le>s start"
    using assms(5) sint_length [OF assms(6)] by (simp add: word_sle_eq)
  then show ?thesis
    using run_handleData [OF assms(1,2)] assms(1) parseRangeStart_rangeHeader [OF assms(4)] assms(3)
    by (auto simp: serve_file_def Let_def)
qed

section \<open>A download, from both sides\<close>

lemma run_mint_ok:
  assumes "\<And>check i. h_guard h = Some check \<Longrightarrow> check (an_Now (a i))"
  shows "\<exists>au j. run (mintOutboundCredential h aud k) a w = run (k (au, True)) (\<lambda>i. a (i + j)) w"
proof -
  have token: "\<exists>au j. run (if aud = '''' then k ('''', True) else Now (\<lambda>now. case h_sign h aud now of
      None \<Rightarrow> k ('''', True) | Some tok \<Rightarrow> k (''Bearer '' @ tok, True))) b w =
    run (k (au, True)) (\<lambda>i. b (i + j)) w" for b
  proof (cases "aud = ''''")
    case True
    then show ?thesis by (intro exI [of _ "''''"] exI [of _ 0]) simp
  next
    case False
    then show ?thesis
      by (intro exI [of _ "case h_sign h aud (an_Now (b 0)) of None \<Rightarrow> '''' | Some tok \<Rightarrow> ''Bearer '' @ tok"]
          exI [of _ "Suc 0"]) (simp split: option.split)
  qed
  show ?thesis
  proof (cases "AuthRequired (h_cfg h)")
    case False
    then show ?thesis
      by (intro exI [of _ "''''"] exI [of _ 0]) (simp add: mintOutboundCredential_def)
  next
    case True
    show ?thesis
    proof (cases "h_guard h")
      case None
      then show ?thesis using token [of a] True by (simp add: mintOutboundCredential_def usable_def)
    next
      case (Some check)
      obtain au j where "run (if aud = '''' then k ('''', True) else Now (\<lambda>now. case h_sign h aud now of
          None \<Rightarrow> k ('''', True) | Some tok \<Rightarrow> k (''Bearer '' @ tok, True))) (\<lambda>i. a (Suc i)) w =
        run (k (au, True)) (\<lambda>i. a (Suc (i + j))) w"
        using token [of "\<lambda>i. a (Suc i)"] by blast
      then show ?thesis using Some True assms [OF Some]
        by (intro exI [of _ au] exI [of _ "Suc j"]) (simp add: mintOutboundCredential_def usable_def)
    qed
  qed
qed

lemma partial_not_final: "partialPath cfg pid \<noteq> downloadPath cfg pid"
proof -
  have "length (partialPath cfg pid) \<noteq> length (downloadPath cfg pid)"
    by (simp add: partialPath_def downloadPath_def)
  then show ?thesis by metis
qed

lemma set_file_placed:
  "p \<noteq> q \<Longrightarrow> set_file p None (set_file q c (set_file p x w)) = set_file p None (set_file q c w)"
  by (simp add: set_file_def fun_upd_twist)

lemma run_pull_copy:
  assumes io: "\<And>i. an_Io (a i) = IoOk"
    and reply: "hr_Data resp = rest" "hr_DataEnd resp = None"
    and partial: "old \<noteq> [] \<Longrightarrow> files w (partialPath (h_cfg h) pid) = Some old"
    and fits: "int (length (old @ rest)) \<le> sint (MaxDownloadBytes (h_cfg h))"
      "sint (MaxDownloadBytes (h_cfg h)) < 2 ^ 63 - 1"
    and expected: "0 <s expected \<Longrightarrow> expected = word_of_nat (length (old @ rest))"
  shows "run (pull_copy h pid (word_of_nat (length old)) expected resp o' finish) a w =
    run (finish (succeed (o'\<lparr>po_received := word_of_nat (length (old @ rest))\<rparr>) (downloadPath (h_cfg h) pid)
        (an_Now (a 5)))) (\<lambda>i. a (i + 6))
      (set_file (partialPath (h_cfg h) pid) None
        (set_file (downloadPath (h_cfg h) pid) (Some (old @ rest)) w))"
proof -
  let ?M = "MaxDownloadBytes (h_cfg h)" and ?e = "word_of_nat (length old) :: int64"
  let ?p = "partialPath (h_cfg h) pid" and ?f = "downloadPath (h_cfg h) pid"
  have len: "sint ?e = int (length old)" "sint (word_of_nat (length rest) :: int64) = int (length rest)"
    using fits by (auto intro!: sint_length)
  have left: "sint (?M - ?e) = sint ?M - int (length old)"
    using fits len(1) by (subst sint64_diff) auto
  have "sint (?M - ?e + 1) = sint ?M - int (length old) + 1"
    using sint64_of_int [of "sint (?M - ?e) + 1"] left fits by simp
  then have copied: "copy_limited (?M - ?e + 1) resp = (rest, None)"
    using fits reply by (auto simp: copy_limited_def Let_def nat_le_iff)
  have small: "\<not> ?M - ?e <s word_of_nat (length rest)"
    using left len(2) fits by (simp add: word_sless_alt)
  have resuming: "0 <s ?e \<longleftrightarrow> old \<noteq> []" using len(1) by (simp add: word_sless_alt)
  have six: "a 5 = a (Suc (Suc (Suc (Suc (Suc 0)))))" "(\<lambda>i. a (i + 6)) = (\<lambda>i. a (Suc (Suc (Suc (Suc (Suc (Suc i)))))))"
    by (simp_all add: eval_nat_numeral)
  have "append_file ?p rest (if old \<noteq> [] then append_file ?p [] w else set_file ?p (Some []) w) =
      set_file ?p (Some (old @ rest)) w"
    using partial by (simp add: append_file_def set_file_def)
  then show ?thesis
    unfolding six using io copied small expected partial_not_final [of "h_cfg h" pid]
    by (simp add: pull_copy_def pull_place_def Let_def resuming set_file_placed)
      (auto simp: set_file_def)
qed

text \<open>The range a consumer asks for when it has the first bytes of a file.\<close>

definition rangeOf :: "'a list \<Rightarrow> string" where
  "rangeOf old = (if old = [] then '''' else rangeHeader (word_of_nat (length old)))"

lemma serve_rest:
  assumes "\<And>i. an_Io (a i) = IoOk" and "rq_Range r = rangeOf old" and "rest \<noteq> []"
    and "d_SimulateInterruptAfterBytes ds = 0" and "length (old @ rest) < 2 ^ 63"
  shows "fst (run (serve_file ds r (old @ rest)) a w) =
    (let n = word_of_nat (length (old @ rest)); e = word_of_nat (length old) in
     [Answered (if old = [] then Stream 200 '''' n rest else Stream 206 (contentRange e n) (n - e) rest)])"
proof (cases "old = []")
  case True
  then show ?thesis using assms by (simp add: serve_file_def rangeOf_def parseRangeStart_def Let_def)
next
  case False
  have e: "sint (word_of_nat (length old) :: int64) = int (length old)"
    using assms(5) by (intro sint_length) simp
  moreover have "\<not> (word_of_nat (length (old @ rest)) :: int64) \<le>s word_of_nat (length old)"
    using e sint_length [OF assms(5)] assms(3) by (simp add: word_sle_eq)
  ultimately show ?thesis
    using False assms parseRangeStart_rangeHeader [of "word_of_nat (length old)"]
    by (simp add: serve_file_def rangeOf_def Let_def)
qed

lemma run_pull_response:
  assumes io: "\<And>i. an_Io (a i) = IoOk"
    and reply: "delivered (let n = word_of_nat (length (old @ rest)); e = word_of_nat (length old) in
      if old = [] then Stream 200 '''' n rest else Stream 206 (contentRange e n) (n - e) rest) = HttpOk resp"
    and partial: "old \<noteq> [] \<Longrightarrow> files w (partialPath (h_cfg h) (ct_ConsumerPID t)) = Some old"
    and fits: "int (length (old @ rest)) \<le> sint (MaxDownloadBytes (h_cfg h))"
      "sint (MaxDownloadBytes (h_cfg h)) < 2 ^ 63 - 1"
    and recorded: "ct_ExpectedBytes t \<in> {0, word_of_nat (length (old @ rest))}"
  shows "\<exists>at j s. (s = db w \<or> s = snd (SetConsumerTransferExpectedBytes (ct_ConsumerPID t)
        (word_of_nat (length (old @ rest))) IoOk (db w))) \<and>
    run (pull_response h t (word_of_nat (length old)) resp o' finish) a w =
    run (finish (succeed (o'\<lparr>po_received := word_of_nat (length (old @ rest))\<rparr>)
        (downloadPath (h_cfg h) (ct_ConsumerPID t)) at)) (\<lambda>i. a (i + j))
      (set_file (partialPath (h_cfg h) (ct_ConsumerPID t)) None
        (set_file (downloadPath (h_cfg h) (ct_ConsumerPID t)) (Some (old @ rest)) (w\<lparr>db := s\<rparr>)))"
proof -
  let ?n = "word_of_nat (length (old @ rest)) :: int64" and ?e = "word_of_nat (length old) :: int64"
  have "length (old @ rest) < 2 ^ 63" using fits by simp
  then have n: "sint ?n = int (length (old @ rest))" by (rule sint_length)
  have e: "sint ?e = int (length old)" by (rule sint_length) (use fits in simp)
  have resuming: "0 <s ?e \<longleftrightarrow> old \<noteq> []" using e by (simp add: word_sless_alt)
  have stated: "parseContentRange (contentRange ?e ?n) = (Some ?e, Some ?n)"
    using n e by (intro parseContentRange_contentRange) auto
  have data: "hr_Data resp = rest" "hr_DataEnd resp = None"
    and shape: "if old = [] then hr_Status resp = 200 \<and> hr_ContentLength resp = ?n
      else hr_Status resp = 206 \<and> hr_ContentRange resp = contentRange ?e ?n"
    using reply by (auto simp: delivered_def Let_def split: if_splits)
  have nonneg: "0 \<le>s ?n" using n by (simp add: word_sle_eq)
  have response: "pull_response h t ?e resp o' finish =
      (if ?n \<noteq> ct_ExpectedBytes t then
         call (SetConsumerTransferExpectedBytes (ct_ConsumerPID t) ?n)
           (\<lambda>_. pull_copy h (ct_ConsumerPID t) ?e ?n resp o' finish)
       else pull_copy h (ct_ConsumerPID t) ?e ?n resp o' finish)"
    using resuming stated shape recorded nonneg
    by (cases "old = []") (auto simp: pull_response_def Let_def)
  show ?thesis
  proof (cases "?n = ct_ExpectedBytes t")
    case True
    then show ?thesis unfolding response
      using run_pull_copy [OF io data partial fits, where expected = ?n and o' = o' and finish = finish]
      by (intro exI [of _ "an_Now (a 5)"] exI [of _ 6] exI [of _ "db w"]) simp
  next
    case False
    let ?s = "snd (SetConsumerTransferExpectedBytes (ct_ConsumerPID t) ?n IoOk (db w))"
    have "run (pull_copy h (ct_ConsumerPID t) ?e ?n resp o' finish) (\<lambda>i. a (Suc i)) (w\<lparr>db := ?s\<rparr>) =
      run (finish (succeed (o'\<lparr>po_received := ?n\<rparr>) (downloadPath (h_cfg h) (ct_ConsumerPID t)) (an_Now (a 6))))
        (\<lambda>i. a (i + 7)) (set_file (partialPath (h_cfg h) (ct_ConsumerPID t)) None
        (set_file (downloadPath (h_cfg h) (ct_ConsumerPID t)) (Some (old @ rest)) (w\<lparr>db := ?s\<rparr>)))"
      using run_pull_copy [OF _ data _ fits, where a = "\<lambda>i. a (Suc i)" and w = "w\<lparr>db := ?s\<rparr>" and expected = ?n
          and o' = o' and finish = finish and pid = "ct_ConsumerPID t"] io partial
      by (simp add: eval_nat_numeral)
    then show ?thesis unfolding response using False io
      by (intro exI [of _ "an_Now (a 6)"] exI [of _ 7] exI [of _ ?s]) simp
  qed
qed

lemma run_pull_finish:
  assumes "\<And>i. an_Io (a i) = IoOk" and "find_consumer_transfer pid s = Some u"
    and "s' = s \<or> s' = snd (SetConsumerTransferExpectedBytes pid x IoOk s)" and "db w = s'"
  shows "\<exists>w' u'. run (pull_finish pid o') a w = ([], [], w') \<and> files w' = files w \<and>
    pulling w' = removeAll pid (pulling w) \<and> find_consumer_transfer pid (db w') = Some u' \<and>
    ct_ReceivedBytes u' = po_received o' \<and> ct_DataPath u' = po_path o' \<and>
    ct_DataCompletedAt u' = po_completed o' \<and> ct_DataError u' = po_failure o'"
  using assms by (auto simp: pull_finish_def RecordConsumerTransferOutcome_def
      SetConsumerTransferExpectedBytes_def select_row_update)

lemma run_pull_request:
  assumes io: "\<And>i. an_Io (a i) = IoOk" and reply: "\<And>i. an_Http (a i) = HttpOk resp"
    and roster: "\<And>check i. h_guard h = Some check \<Longrightarrow> check (an_Now (a i))"
  shows "\<exists>au j. run (pull_request h t endpoint existing o' finish) a w =
    emit [Sent \<lparr>hq_Method = ''GET'', hq_URL = endpoint, hq_Body = None, hq_Authorization = au,
      hq_Range = (if 0 <s existing then rangeHeader existing else '''')\<rparr>] []
    (run (pull_response h t existing resp o' finish) (\<lambda>i. a (i + j)) w)"
proof -
  let ?k = "\<lambda>(authorization, maySend). if \<not> maySend then finish (fail o' errRosterExpired)
    else Http \<lparr>hq_Method = ''GET'', hq_URL = endpoint, hq_Body = None, hq_Authorization = authorization,
        hq_Range = (if 0 <s existing then rangeHeader existing else '''')\<rparr>
      (\<lambda>res. case res of HttpFailed c \<Rightarrow> finish (fail o' (pull_failure c))
         | HttpOk resp \<Rightarrow> pull_response h t existing resp o' finish)"
  obtain au j where mint: "run (mintOutboundCredential h (ct_CounterpartyID t) ?k) (\<lambda>i. a (Suc (Suc i))) w =
      run (?k (au, True)) (\<lambda>i. a (Suc (Suc (i + j)))) w"
    using run_mint_ok [of h "\<lambda>i. a (Suc (Suc i))" "ct_CounterpartyID t" ?k w] roster by auto
  show ?thesis
    by (intro exI [of _ au] exI [of _ "Suc (Suc (Suc j))"])
      (simp add: pull_request_def io mint reply)
qed

text \<open>The provider's half of a download, and the consumer's.\<close>

lemma handleData_rest:
  assumes "\<And>i. an_Io (ap i) = IoOk" "\<And>i. may_serve hp rp wp ds (old @ rest) (an_Now (ap i))"
    and "d_SimulateInterruptAfterBytes ds = 0" "rq_Range rp = rangeOf old" "rest \<noteq> []"
    and "length (old @ rest) < 2 ^ 63" and "fst (run (handleData hp rp) ap wp) = [Answered rsp]"
  shows "rsp = (let n = word_of_nat (length (old @ rest)); e = word_of_nat (length old) in
    if old = [] then Stream 200 '''' n rest else Stream 206 (contentRange e n) (n - e) rest)"
proof -
  obtain j where "run (handleData hp rp) ap wp = run (serve_file ds rp (old @ rest)) (\<lambda>i. ap (i + j)) wp"
    using run_handleData [of ap hp rp wp ds, OF assms(1,2)] by blast
  then show ?thesis
    using serve_rest [where a = "\<lambda>i. ap (i + j)" and w = wp, OF _ assms(4,5,3)] assms(1,6,7)
    by (simp add: Let_def)
qed

lemma run_pull_rest:
  assumes consumer: "\<And>i. an_Io (ac i) = IoOk \<and> an_Allow (ac i) \<and> an_Http (ac i) = delivered
        (let n = word_of_nat (length (old @ rest)); e = word_of_nat (length old) in
         if old = [] then Stream 200 '''' n rest else Stream 206 (contentRange e n) (n - e) rest)"
      "\<And>check i. h_guard hc = Some check \<Longrightarrow> check (an_Now (ac i))"
      "files wc (partialPath (h_cfg hc) (ct_ConsumerPID t)) = (if old = [] then None else Some old)"
      "ct_ConsumerPID t \<notin> set (pulling wc)" "find_consumer_transfer (ct_ConsumerPID t) (db wc) = Some u"
      "ct_ExpectedBytes t \<in> {0, word_of_nat (length (old @ rest))}" "da_Endpoint addr \<noteq> ''''"
    and sizes: "int (length (old @ rest)) \<le> sint (MaxDownloadBytes (h_cfg hc))"
      "sint (MaxDownloadBytes (h_cfg hc)) < 2 ^ 63 - 1"
  shows "\<exists>au w' u'. run (pullTransferData hc t (Some addr)) ac wc =
      ([Sent \<lparr>hq_Method = ''GET'', hq_URL = da_Endpoint addr, hq_Body = None, hq_Authorization = au,
         hq_Range = rangeOf old\<rparr>], [], w') \<and>
    files w' (downloadPath (h_cfg hc) (ct_ConsumerPID t)) = Some (old @ rest) \<and>
    files w' (partialPath (h_cfg hc) (ct_ConsumerPID t)) = None \<and>
    ct_ConsumerPID t \<notin> set (pulling w') \<and>
    find_consumer_transfer (ct_ConsumerPID t) (db w') = Some u' \<and>
    ct_ReceivedBytes u' = word_of_nat (length (old @ rest)) \<and>
    ct_DataPath u' = downloadPath (h_cfg hc) (ct_ConsumerPID t) \<and>
    ct_DataCompletedAt u' \<noteq> None \<and> ct_DataError u' = ''''"
proof -
  let ?pid = "ct_ConsumerPID t" and ?e = "word_of_nat (length old) :: int64"
  let ?n = "word_of_nat (length (old @ rest)) :: int64"
  let ?rsp = "let n = ?n; e = ?e in
    if old = [] then Stream 200 '''' n rest else Stream 206 (contentRange e n) (n - e) rest"
  obtain resp where resp: "delivered ?rsp = HttpOk resp"
    by (cases "old = []") (simp_all add: delivered_def Let_def)
  have size: "file_size (partialPath (h_cfg hc) ?pid) w = ?e" if "files w = files wc" for w
    using consumer(3) that by (simp add: file_size_def)
  have range: "(if 0 <s ?e then rangeHeader ?e else '''') = rangeOf old"
    using sint_length [of old] sizes by (auto simp: rangeOf_def word_sless_alt)
  have "old \<noteq> [] \<Longrightarrow> files (wc\<lparr>pulling := ?pid # pulling wc\<rparr>) (partialPath (h_cfg hc) ?pid) = Some old"
    using consumer(3) by simp
  note response = run_pull_response [OF _ resp this sizes consumer(6)]
  let ?w = "wc\<lparr>pulling := ?pid # pulling wc\<rparr>"
  let ?o = "\<lparr>po_received = ?e, po_path = '''', po_completed = None,
    po_failure = ''the pull ended without recording a reason''\<rparr>"
  let ?w1 = "\<lambda>s. set_file (partialPath (h_cfg hc) ?pid) None
    (set_file (downloadPath (h_cfg hc) ?pid) (Some (old @ rest)) (?w\<lparr>db := s\<rparr>))"
  let ?finish = "pull_finish ?pid"
  have http: "an_Http (ac i) = HttpOk resp" for i using consumer(1) resp by simp
  have "\<exists>au j. run (pull_request hc t (da_Endpoint addr) ?e ?o ?finish) (\<lambda>i. ac (Suc (Suc (Suc i)))) ?w =
      emit [Sent \<lparr>hq_Method = ''GET'', hq_URL = da_Endpoint addr, hq_Body = None, hq_Authorization = au,
        hq_Range = (if 0 <s ?e then rangeHeader ?e else '''')\<rparr>] []
        (run (pull_response hc t ?e resp ?o ?finish) (\<lambda>i. ac (Suc (Suc (Suc (i + j))))) ?w)"
    by (rule run_pull_request) (use consumer(1,2) http in auto)
  then obtain au j where request: "run (pull_request hc t (da_Endpoint addr) ?e ?o ?finish) (\<lambda>i. ac (Suc (Suc (Suc i)))) ?w =
      emit [Sent \<lparr>hq_Method = ''GET'', hq_URL = da_Endpoint addr, hq_Body = None, hq_Authorization = au,
        hq_Range = rangeOf old\<rparr>] [] (run (pull_response hc t ?e resp ?o ?finish) (\<lambda>i. ac (Suc (Suc (Suc (i + j))))) ?w)"
    unfolding range by blast
  obtain at j' s where s: "s = db ?w \<or> s = snd (SetConsumerTransferExpectedBytes ?pid ?n IoOk (db ?w))"
    and answer: "run (pull_response hc t ?e resp ?o ?finish) (\<lambda>i. ac (Suc (Suc (Suc (i + j))))) ?w =
      run (?finish (succeed (?o\<lparr>po_received := ?n\<rparr>) (downloadPath (h_cfg hc) ?pid) at))
        (\<lambda>i. ac (Suc (Suc (Suc (i + j' + j))))) (?w1 s)"
    using response [of "\<lambda>i. ac (Suc (Suc (Suc (i + j))))" ?o ?finish] consumer(1) by auto
  obtain w' u' where finished: "run (?finish (succeed (?o\<lparr>po_received := ?n\<rparr>) (downloadPath (h_cfg hc) ?pid) at))
        (\<lambda>i. ac (Suc (Suc (Suc (i + j' + j))))) (?w1 s) = ([], [], w')"
    "files w' = files (?w1 s)" "pulling w' = removeAll ?pid (pulling (?w1 s))"
    "find_consumer_transfer ?pid (db w') = Some u'" "ct_ReceivedBytes u' = ?n"
    "ct_DataPath u' = downloadPath (h_cfg hc) ?pid" "ct_DataCompletedAt u' = Some at" "ct_DataError u' = ''''"
    using run_pull_finish [of "\<lambda>i. ac (Suc (Suc (Suc (i + j' + j))))" ?pid "db ?w" u s ?n "?w1 s"
        "succeed (?o\<lparr>po_received := ?n\<rparr>) (downloadPath (h_cfg hc) ?pid) at"] s consumer(1,5)
    by (auto simp: succeed_def)
  have "run (pullTransferData hc t (Some addr)) ac wc =
      ([Sent \<lparr>hq_Method = ''GET'', hq_URL = da_Endpoint addr, hq_Body = None, hq_Authorization = au,
         hq_Range = rangeOf old\<rparr>], [], w')"
    using consumer(1,4,7) request answer finished(1) size
    by (simp add: pullTransferData_def pull_body_def Let_def)
  then show ?thesis
    using finished partial_not_final [of "h_cfg hc" ?pid]
    by (intro exI [of _ au] exI [of _ w'] exI [of _ u']) (simp add: set_file_def)
qed

text \<open>
  C10. A download completes, whether it starts afresh or resumes: when the provider serves the pull
  under its contract and the consumer already has the first bytes of the file, the consumer ends
  with the whole file under its final name and no partial file, its row says so, and the pull is
  over.
\<close>

theorem downloads_complete:
  assumes provider: "\<And>i. an_Io (ap i) = IoOk" "\<And>i. may_serve hp rp wp ds (old @ rest) (an_Now (ap i))"
      "d_SimulateInterruptAfterBytes ds = 0" "rq_Range rp = rangeOf old"
      "fst (run (handleData hp rp) ap wp) = [Answered rsp]"
    and consumer: "\<And>i. an_Io (ac i) = IoOk \<and> an_Allow (ac i) \<and> an_Http (ac i) = delivered rsp"
      "\<And>check i. h_guard hc = Some check \<Longrightarrow> check (an_Now (ac i))"
      "files wc (partialPath (h_cfg hc) (ct_ConsumerPID t)) = (if old = [] then None else Some old)"
      "ct_ConsumerPID t \<notin> set (pulling wc)" "find_consumer_transfer (ct_ConsumerPID t) (db wc) = Some u"
      "ct_ExpectedBytes t \<in> {0, word_of_nat (length (old @ rest))}" "da_Endpoint addr \<noteq> ''''"
    and sizes: "rest \<noteq> []" "int (length (old @ rest)) \<le> sint (MaxDownloadBytes (h_cfg hc))"
      "sint (MaxDownloadBytes (h_cfg hc)) < 2 ^ 63 - 1"
  shows "\<exists>au w' u'. run (pullTransferData hc t (Some addr)) ac wc =
      ([Sent \<lparr>hq_Method = ''GET'', hq_URL = da_Endpoint addr, hq_Body = None, hq_Authorization = au,
         hq_Range = rq_Range rp\<rparr>], [], w') \<and>
    files w' (downloadPath (h_cfg hc) (ct_ConsumerPID t)) = Some (old @ rest) \<and>
    files w' (partialPath (h_cfg hc) (ct_ConsumerPID t)) = None \<and>
    ct_ConsumerPID t \<notin> set (pulling w') \<and>
    find_consumer_transfer (ct_ConsumerPID t) (db w') = Some u' \<and>
    ct_ReceivedBytes u' = word_of_nat (length (old @ rest)) \<and>
    ct_DataPath u' = downloadPath (h_cfg hc) (ct_ConsumerPID t) \<and>
    ct_DataCompletedAt u' \<noteq> None \<and> ct_DataError u' = ''''"
proof -
  have "length (old @ rest) < 2 ^ 63" using sizes by simp
  note rsp = handleData_rest [OF provider(1,2,3,4) sizes(1) this provider(5)]
  show ?thesis
    unfolding provider(4) by (rule run_pull_rest) (use consumer [unfolded rsp] sizes(2,3) in blast)+
qed

section \<open>The example\<close>

definition demo_data_request :: request where
  "demo_data_request = demo_request\<lparr>rq_ID := ''t0'', rq_Issuer := ''c'', rq_Range := rangeHeader 1\<rparr>"

lemma demo_may_serve:
  "may_serve (newHandler demo_connector) demo_data_request demo_world demo_dataset [1, 2, 3] now"
  using demo_rows(2,3)
  by (simp add: may_serve_def demo_data_request_def demo_transfer_def demo_agreement_def demo_handler
      transfer_state_defs servableAsProvider_def OriginAgreed_def findConfiguredDataset_def demo_cfg_def
      demo_dataset_def isValid_def demo_world_def)

lemma demo_io: "an_Io demo_answer = IoOk" "an_Allow demo_answer" "an_Now demo_answer = 0"
  by (simp_all add: demo_answer_def)

lemma demo_stream:
  "run (handleData (newHandler demo_connector) demo_data_request) (\<lambda>i. demo_answer) demo_world =
     ([Answered (Stream 206 (contentRange 1 3) 2 [2, 3])], [], demo_world)"
  using run_handleData_resumed [of "\<lambda>i. demo_answer", OF _ demo_may_serve, of 1] demo_io
  by (simp add: demo_data_request_def)

theorem bytes_are_served_under_contract_witness:
  "\<exists>ds content i. may_serve (newHandler demo_connector) demo_data_request demo_world ds content
     (an_Now ((\<lambda>i. demo_answer) (i :: nat))) \<and> (\<exists>m. [2, 3] = drop m content \<or> [2, 3] = take m content)"
  by (rule bytes_are_served_under_contract [where st = 206 and cr = "contentRange 1 3" and n = 2])
    (simp add: demo_stream)

theorem downloads_complete_witness:
  "\<exists>au w' u'. run (pullTransferData (newHandler demo_connector) demo_pull
       (Some \<lparr>da_Type = '''', da_EndpointType = '''', da_Endpoint = ''http://c/data''\<rparr>))
       (\<lambda>i. demo_answer\<lparr>an_Http := delivered (Stream 206 (contentRange 1 3) 2 [2, 3])\<rparr>)
       (demo_world\<lparr>files := [partialPath demo_cfg ''x0'' \<mapsto> [1]]\<rparr>) =
      ([Sent \<lparr>hq_Method = ''GET'', hq_URL = ''http://c/data'', hq_Body = None, hq_Authorization = au,
         hq_Range = rangeHeader 1\<rparr>], [], w') \<and>
    files w' (downloadPath demo_cfg ''x0'') = Some [1, 2, 3] \<and>
    files w' (partialPath demo_cfg ''x0'') = None \<and> ''x0'' \<notin> set (pulling w') \<and>
    find_consumer_transfer ''x0'' (db w') = Some u' \<and> ct_ReceivedBytes u' = 3 \<and>
    ct_DataPath u' = downloadPath demo_cfg ''x0'' \<and> ct_DataCompletedAt u' \<noteq> None \<and> ct_DataError u' = ''''"
  using downloads_complete [where ap = "\<lambda>i. demo_answer" and hp = "newHandler demo_connector"
      and rp = demo_data_request and wp = demo_world and ds = demo_dataset and old = "[1]" and rest = "[2, 3]"
      and ac = "\<lambda>i. demo_answer\<lparr>an_Http := delivered (Stream 206 (contentRange 1 3) 2 [2, 3])\<rparr>"
      and rsp = "Stream 206 (contentRange 1 3) 2 [2, 3]" and t = demo_pull
      and wc = "demo_world\<lparr>files := [partialPath demo_cfg ''x0'' \<mapsto> [1]]\<rparr>" and hc = "newHandler demo_connector"
      and addr = "\<lparr>da_Type = '''', da_EndpointType = '''', da_Endpoint = ''http://c/data''\<rparr>" and u = demo_pull]
    demo_may_serve demo_io demo_stream demo_rows(4)
  by (simp add: demo_handler demo_dataset_def demo_data_request_def rangeOf_def demo_pull_def demo_world_def
      demo_cfg_def)

definition demo_opened_world :: world where
  "demo_opened_world = demo_world\<lparr>db := empty_store\<lparr>agreements := [demo_agreement],
     transfer_processes := [demo_transfer\<lparr>t_State := ''REQUESTED''\<rparr>]\<rparr>\<rparr>"

section \<open>Moving a transfer\<close>

text \<open>
  The copy under a rolling deadline ends as soon as a read reports the end of the file or an
  error; what it sent is a prefix of the bytes read, and all of them when it ended without one.
\<close>

lemma rolling_copy_ends:
  assumes "\<exists>c \<in> set cs. cr_End c \<noteq> More"
  shows "\<exists>out err n. copyUnderRollingDeadline sent cs = Some (out, err) \<and>
    out = sent @ take n (concat (map cr_Bytes cs)) \<and>
    (err = None \<longrightarrow> (\<exists>m < length cs. cr_End (cs ! m) = EOF \<and>
       out = sent @ concat (map cr_Bytes (take (Suc m) cs))))"
  using assms
proof (induction cs arbitrary: sent)
  case (Cons c cs)
  let ?sent = "sent @ take (cr_Written c) (cr_Bytes c)" and ?n = "length (cr_Bytes c)"
  have stop: ?case if "copyUnderRollingDeadline sent (c # cs) = Some (sent @ take m (cr_Bytes c), err)"
    and "err = None \<Longrightarrow> cr_End c = EOF \<and> ?n \<le> m" for m err
    using that by (intro exI [of _ "sent @ take m (cr_Bytes c)"] exI [of _ err] exI [of _ "min m ?n"])
      (auto simp: min_def intro: exI [of _ 0])
  show ?case
  proof (cases "\<not> cr_Deadline c \<or> 0 < ?n \<and> (cr_WriteFailed c \<or> cr_Written c < ?n) \<or> cr_End c \<noteq> More")
    case True
    then show ?thesis
      using stop [of 0 "Some DeadlineError"] stop [of "cr_Written c" "Some WriteError"]
        stop [of "cr_Written c" "Some ShortWrite"] stop [of "cr_Written c" "Some ReadError"]
        stop [of "cr_Written c" None]
      by (cases "cr_End c") (auto simp: Let_def split: if_splits)
  next
    case False
    then have "take (cr_Written c) (cr_Bytes c) = cr_Bytes c" by auto
    with False have next': "copyUnderRollingDeadline sent (c # cs) = copyUnderRollingDeadline (sent @ cr_Bytes c) cs"
      by (auto simp: Let_def)
    have "\<exists>c \<in> set cs. cr_End c \<noteq> More" using Cons.prems False by auto
    from Cons.IH [OF this, of "sent @ cr_Bytes c"] obtain out err n where
      "copyUnderRollingDeadline (sent @ cr_Bytes c) cs = Some (out, err)"
      "out = (sent @ cr_Bytes c) @ take n (concat (map cr_Bytes cs))"
      and whole: "err = None \<longrightarrow> (\<exists>m < length cs. cr_End (cs ! m) = EOF \<and>
         out = (sent @ cr_Bytes c) @ concat (map cr_Bytes (take (Suc m) cs)))"
      by blast
    moreover have "\<exists>m < length (c # cs). cr_End ((c # cs) ! m) = EOF \<and>
        out = sent @ concat (map cr_Bytes (take (Suc m) (c # cs)))" if "err = None"
    proof -
      from whole that obtain m where "m < length cs" "cr_End (cs ! m) = EOF"
        "out = (sent @ cr_Bytes c) @ concat (map cr_Bytes (take (Suc m) cs))" by blast
      then show ?thesis by (intro exI [of _ "Suc m"]) simp
    qed
    ultimately show ?thesis
      unfolding next' by (intro exI [of _ out] exI [of _ err] exI [of _ "?n + n"]) simp
  qed
qed simp

text \<open>Where a configured sequence leads: along the edges of the state machine, as far as it is legal.\<close>

primrec last_legal :: "string \<Rightarrow> string list \<Rightarrow> string" where
  "last_legal st [] = st"
| "last_legal st (s # ss) = (if transfer_edge st s then last_legal s ss else st)"

lemma run_transferStepMessage:
  "\<exists>m j. run (transferStepMessage h t to k) a w = run (k m) (\<lambda>i. a (i + j)) w \<and>
     (case m of None \<Rightarrow> \<forall>st. \<not> transfer_edge st to
      | Some (path, msg, legalFrom) \<Rightarrow> \<forall>st. legalFrom st \<longleftrightarrow> transfer_edge st to)"
proof (cases "to = TransferStarted")
  case True
  have "\<exists>b j. run (hasSourceFor h (t_AgreementID t) f) a w = run (f b) (\<lambda>i. a (i + j)) w" for f
    by (cases "fst (GetAgreement (t_AgreementID t) (an_Io (a 0)) (db w))")
      (auto simp: hasSourceFor_def GetAgreement_def intro!: exI [of _ "Suc 0"] split: option.split)
  then obtain b j where "run (transferStepMessage h t to k) a w = run (k (Some (transferPath ''/start'',
      DTransferStart (if b then buildTransferStartMessageWithData t (PublicURL (h_cfg h))
        else buildTransferStartMessage t), startLegalFrom))) (\<lambda>i. a (i + j)) w"
    using True unfolding transferStepMessage_def by fastforce
  moreover have "startLegalFrom st \<longleftrightarrow> transfer_edge st to" for st
    using True by (auto simp: legal_defs transfer_edge_def transfer_edges_def transfer_state_defs)
  ultimately show ?thesis by fastforce
next
  case False
  let ?m = "if to = TransferSuspended then Some (transferPath ''/suspension'',
      DTransferSuspension (buildTransferSuspensionMessage t), suspensionLegalFrom)
    else if to = TransferCompleted then Some (transferPath ''/completion'',
      DTransferCompletion (buildTransferCompletionMessage t), completionLegalFrom)
    else if to = TransferTerminated then Some (transferPath ''/termination'',
      DTransferTermination (buildTransferTerminationMessage t), terminationLegalFrom)
    else None"
  have "run (transferStepMessage h t to k) a w = run (k ?m) (\<lambda>i. a (i + 0)) w"
    using False by (simp add: transferStepMessage_def)
  moreover have "case ?m of None \<Rightarrow> \<forall>st. \<not> transfer_edge st to
      | Some (path, msg, legalFrom) \<Rightarrow> \<forall>st. legalFrom st \<longleftrightarrow> transfer_edge st to"
    using False by (auto simp: legal_defs transfer_edge_def transfer_edges_def transfer_state_defs)
  ultimately show ?thesis by blast
qed

lemma run_pushTransferStep:
  assumes "\<And>i. an_Io (a i) = IoOk" and "\<And>i. an_Allow (a i)" and "store_wf (db w)"
    and "find_transfer (t_ProviderPID t) (db w) = Some t0" and "t_State t0 = t_State t"
  shows "\<exists>evs j w'. run (pushTransferStep h t to k) a w =
      emit evs [] (run (k (transfer_edge (t_State t) to)) (\<lambda>i. a (i + j)) w') \<and> store_wf (db w') \<and>
    (\<exists>t1. find_transfer (t_ProviderPID t) (db w') = Some t1 \<and>
       t_State t1 = (if transfer_edge (t_State t) to then to else t_State t))"
proof -
  let ?K = "\<lambda>message. case message of None \<Rightarrow> k False
    | Some m \<Rightarrow> (case m of (path, msg, legalFrom) \<Rightarrow>
       if \<not> legalFrom (t_State t) then k False
       else (let callbackURL = t_CallbackAddress t @ path (t_ConsumerPID t) in
         AllowURL callbackURL (\<lambda>allowed.
           if \<not> allowed then k False
           else pushCallback h callbackURL msg (t_CounterpartyID t) (\<lambda>pushed. Now (\<lambda>now.
             call (SetTransferState (t_ProviderPID t) (t_State t) to now) (\<lambda>res.
               case res of Inl e \<Rightarrow> k False | Inr u \<Rightarrow> k True))))))"
  obtain m j where m: "run (pushTransferStep h t to k) a w = run (?K m) (\<lambda>i. a (i + j)) w"
    "case m of None \<Rightarrow> \<forall>st. \<not> transfer_edge st to
      | Some (path, msg, legalFrom) \<Rightarrow> \<forall>st. legalFrom st \<longleftrightarrow> transfer_edge st to"
    using run_transferStepMessage [of h t to ?K a w] unfolding pushTransferStep_def by blast
  show ?thesis
  proof (cases "transfer_edge (t_State t) to")
    case False
    then have "run (?K m) (\<lambda>i. a (i + j)) w = emit [] [] (run (k False) (\<lambda>i. a (i + j)) w)"
      using m(2) by (auto split: option.splits)
    then show ?thesis using m(1) False assms(3,4,5)
      by (intro exI [of _ "[]"] exI [of _ j] exI [of _ w]) simp
  next
    case True
    then obtain path msg legalFrom where some: "m = Some (path, msg, legalFrom)" "legalFrom (t_State t)"
      using m(2) by (auto split: option.splits)
    let ?url = "t_CallbackAddress t @ path (t_ConsumerPID t)"
    let ?set = "Now (\<lambda>now. call (SetTransferState (t_ProviderPID t) (t_State t) to now) (\<lambda>res.
               case res of Inl e \<Rightarrow> k False | Inr u \<Rightarrow> k True))"
    let ?w = "\<lambda>t'. w\<lparr>db := snd (SetTransferState (t_ProviderPID t) (t_State t) to t' IoOk (db w))\<rparr>"
    have "run (?K m) (\<lambda>i. a (i + j)) w =
        run (pushCallback h ?url msg (t_CounterpartyID t) (\<lambda>pushed. ?set)) (\<lambda>i. a (Suc (i + j))) w"
      using some assms(2) by (simp add: Let_def)
    moreover obtain evs ok l where "run (pushCallback h ?url msg (t_CounterpartyID t) (\<lambda>pushed. ?set))
        (\<lambda>i. a (Suc (i + j))) w = emit evs [] (run ?set (\<lambda>i. a (Suc (i + l + j))) w)"
      using run_pushCallback [of h ?url msg "t_CounterpartyID t" "\<lambda>pushed. ?set" "\<lambda>i. a (Suc (i + j))" w] by blast
    moreover have "run ?set (\<lambda>i. a (Suc (i + l + j))) w = run (k True) (\<lambda>i. a (i + Suc (Suc (Suc (l + j)))))
        (?w (an_Now (a (Suc (l + j)))))"
      using tra.cas_hit [OF assms(3-5), of to] assms(1) by (simp add: add_ac)
    ultimately have "run (?K m) (\<lambda>i. a (i + j)) w = emit evs [] (run (k True) (\<lambda>i. a (i + Suc (Suc (Suc (l + j)))))
        (?w (an_Now (a (Suc (l + j))))))"
      by (simp only:)
    then show ?thesis
      using m(1) True tra.cas_invar [OF assms(3)] tra.cas_lookup [OF assms(3-5), of IoOk "t_ProviderPID t" to]
      by (intro exI [of _ evs] exI [of _ "Suc (Suc (Suc (l + j)))"]
          exI [of _ "w\<lparr>db := snd (SetTransferState (t_ProviderPID t) (t_State t) to (an_Now (a (Suc (l + j)))) IoOk (db w))\<rparr>"])
        simp
  qed
qed

lemma run_drive_transfer_steps:
  assumes "\<And>i. an_Io (a i) = IoOk" and "\<And>i. an_Allow (a i)" and "store_wf (db w)"
    and "find_transfer (t_ProviderPID t) (db w) = Some t0" and "t_State t0 = t_State t"
  shows "\<exists>evs w' t1. run (drive_transfer_steps h sts t) a w = (evs, [], w') \<and>
    find_transfer (t_ProviderPID t) (db w') = Some t1 \<and> t_State t1 = last_legal (t_State t) sts"
  using assms
proof (induction sts arbitrary: a w t t0)
  case (Cons st sts)
  let ?k = "\<lambda>ok. if ok then drive_transfer_steps h sts (t\<lparr>t_State := st\<rparr>) else Done"
  obtain evs j w1 t1 where step: "run (pushTransferStep h t st ?k) a w =
      emit evs [] (run (?k (transfer_edge (t_State t) st)) (\<lambda>i. a (i + j)) w1)" "store_wf (db w1)"
    "find_transfer (t_ProviderPID t) (db w1) = Some t1"
    "t_State t1 = (if transfer_edge (t_State t) st then st else t_State t)"
    using run_pushTransferStep [of a, OF Cons.prems, of h st ?k] by blast
  show ?case
  proof (cases "transfer_edge (t_State t) st")
    case False
    then show ?thesis using step by simp
  next
    case True
    then obtain evs' w' t' where "run (drive_transfer_steps h sts (t\<lparr>t_State := st\<rparr>)) (\<lambda>i. a (i + j)) w1 = (evs', [], w')"
      "find_transfer (t_ProviderPID t) (db w') = Some t'" "t_State t' = last_legal st sts"
      using Cons.IH [of "\<lambda>i. a (i + j)" w1 "t\<lparr>t_State := st\<rparr>" t1] Cons.prems(1,2) step(2-4) by auto
    then show ?thesis using True step(1) by simp
  qed
qed simp

text \<open>
  C26. The connector drives a new transfer exactly as far as its configured sequence is legal: it
  ends in the last state of the longest prefix of the sequence that follows the edges of the state
  machine, whatever becomes of the messages it pushes.
\<close>

theorem transfers_follow_their_sequence:
  assumes "\<And>i. an_Io (a i) = IoOk" and "\<And>i. an_Allow (a i)" and "store_wf (db w)"
    and "find_transfer (t_ProviderPID t) (db w) = Some t"
    and "find_agreement (t_AgreementID t) (db w) = Some ag" and "servableAsProvider ag"
  shows "\<exists>evs w' t1. run (driveTransfer h t) a w = (evs, [], w') \<and>
    find_transfer (t_ProviderPID t) (db w') = Some t1 \<and>
    t_State t1 = last_legal (t_State t) (resolveTransferSequence (h_cfg h) (t_AgreementID t) (a_DatasetID ag))"
  using run_drive_transfer_steps [of "\<lambda>i. a (Suc i)" w t t h
      "resolveTransferSequence (h_cfg h) (t_AgreementID t) (a_DatasetID ag)"] assms
  by (simp add: driveTransfer_def GetAgreement_def query_def)

theorem transfers_follow_their_sequence_witness:
  "\<exists>evs w' t1. run (driveTransfer example_handler (demo_transfer\<lparr>t_State := ''REQUESTED''\<rparr>)) (\<lambda>i. demo_answer)
      demo_opened_world = (evs, [], w') \<and> find_transfer ''t0'' (db w') = Some t1 \<and>
    t_State t1 = last_legal ''REQUESTED'' [TransferStarted]"
  using transfers_follow_their_sequence [of "\<lambda>i. demo_answer" demo_opened_world
      "demo_transfer\<lparr>t_State := ''REQUESTED''\<rparr>" demo_agreement example_handler]
  by (simp add: demo_answer_def demo_opened_world_def demo_transfer_def demo_agreement_def empty_store_def
      table_simps store_wf_def servableAsProvider_def OriginAgreed_def resolveTransferSequence_def example_handler_def)




end
