(* ===== verification/Dialogue.thy ===== *)
theory Dialogue
  imports TransferRuns "HOL-Library.Multiset"
begin

text \<open>
  Two connectors that talk to each other.  \<open>talk\<close> runs a goroutine of one of them, and each request
  it sends runs the router of the other to its end; \<open>dialogue\<close> lets the pending goroutines of both
  take their turns.  Either way each side only does what its own \<open>run\<close> does.  \<open>always\<close> and
  \<open>always_talk\<close> are the weakest preconditions of the two over all answers of a quiet environment: the
  statements succeed, the addresses are allowed, the clocks stay within a window and the identifiers
  drawn are new.
\<close>

section \<open>A request reaches the other side\<close>

definition arriving :: "HttpRequest \<Rightarrow> request" where
  "arriving q = \<lparr>rq_ID = '''', rq_Issuer = '''', rq_Body = Option.bind (hq_Body q) wire,
     rq_Authorization = hq_Authorization q, rq_ProviderID = '''', rq_Range = hq_Range q\<rparr>"

text \<open>The path of a URL under the public address of a connector, in its segments.\<close>

definition path_at :: "connector \<Rightarrow> string \<Rightarrow> string list option" where
  "path_at c url =
     (let base = PublicURL (cn_cfg c) @ ''/'' in
      if HasPrefix url base then Some (split_on (CHR ''/'') (drop (length base) url)) else None)"

text \<open>
  The goroutines started on this side and on the other, and the worlds of both; a request to an
  address that is not the other's fails.  Every request is answered once, so the first response is
  the response.
\<close>

primrec talk :: "prog \<Rightarrow> connector \<Rightarrow> (nat \<Rightarrow> answer) \<Rightarrow> (nat \<Rightarrow> nat \<Rightarrow> answer) \<Rightarrow> world \<Rightarrow> world \<Rightarrow>
    prog list \<times> prog list \<times> world \<times> world" where
  "talk Done Y a b w v = ([], [], w, v)"
| "talk (Respond r p) Y a b w v = talk p Y a b w v"
| "talk (Go q p) Y a b w v = (case talk p Y a b w v of (xs, ys, w', v') \<Rightarrow> (q # xs, ys, w', v'))"
| "talk (Sleep d p) Y a b w v = talk p Y a b w v"
| "talk (Now f) Y a b w v = talk (f (an_Now (a 0))) Y (\<lambda>i. a (Suc i)) b w v"
| "talk (Uuid f) Y a b w v = talk (f (an_Uuid (a 0))) Y (\<lambda>i. a (Suc i)) b w v"
| "talk (AllowURL u f) Y a b w v = talk (f (an_Allow (a 0))) Y (\<lambda>i. a (Suc i)) b w v"
| "talk (Http q f) Y a b w v = (case path_at Y (hq_URL q) of
     None \<Rightarrow> talk (f (HttpFailed CauseOther)) Y (\<lambda>i. a (Suc i)) b w v
   | Some path \<Rightarrow>
       (case run (protocol_router Y (hq_Method q) path (arriving q)) (b 0) v of (evs, new, v') \<Rightarrow>
        (case talk (f (delivered (hd (answered evs)))) Y (\<lambda>i. a (Suc i)) (\<lambda>k. b (Suc k)) w v' of
           (xs, ys, w', v'') \<Rightarrow> (xs, new @ ys, w', v''))))"
| "talk (Act u k) Y a b w v =
     talk (k (an_Io (a 0)) w) Y (\<lambda>i. a (Suc i)) b (u (an_Io (a 0)) w) v"

text \<open>
  The pending goroutines of two connectors, \<open>n\<close> of them run: this side's first, in order, then the
  other's.
\<close>

primrec dialogue :: "nat \<Rightarrow> connector \<Rightarrow> connector \<Rightarrow> (nat \<Rightarrow> nat \<Rightarrow> answer) \<Rightarrow>
    (nat \<Rightarrow> nat \<Rightarrow> nat \<Rightarrow> answer) \<Rightarrow> world \<times> prog list \<Rightarrow> world \<times> prog list \<Rightarrow>
    (world \<times> prog list) \<times> (world \<times> prog list)" where
  "dialogue 0 X Y a b x y = (x, y)"
| "dialogue (Suc n) X Y a b x y = (case (x, y) of
     ((w, p # ps), (v, qs)) \<Rightarrow> (case talk p Y (a 0) (b 0) w v of (mine, theirs, w', v') \<Rightarrow>
       dialogue n X Y (\<lambda>k. a (Suc k)) (\<lambda>k. b (Suc k)) (w', ps @ mine) (v', qs @ theirs))
   | ((w, []), (v, q # qs)) \<Rightarrow> (case talk q X (a 0) (b 0) v w of (mine, theirs, v', w') \<Rightarrow>
       dialogue n X Y (\<lambda>k. a (Suc k)) (\<lambda>k. b (Suc k)) (w', theirs) (v', qs @ mine))
   | ((w, []), (v, [])) \<Rightarrow> (x, y))"

section \<open>Each side only does what it does alone\<close>

lemma talk_is_run: "talk p Y a b w v = (xs, ys, w', v') \<Longrightarrow> \<exists>a' evs. run p a' w = (evs, xs, w')"
proof (induction p arbitrary: a b w v xs ys w' v')
  case (Respond r p)
  then obtain a' evs where "run p a' w = (evs, xs, w')" by fastforce
  then show ?case by (intro exI [of _ a'] exI [of _ "Answered r # evs"]) (simp add: emit_def)
next
  case (Go q p)
  then obtain zs where "talk p Y a b w v = (zs, ys, w', v')" "xs = q # zs" by (auto split: prod.splits)
  moreover from this Go.IH(2) obtain a' evs where "run p a' w = (evs, zs, w')" by blast
  ultimately show ?case by (intro exI [of _ a'] exI [of _ evs]) (simp add: emit_def)
next
  case (Now f)
  then obtain a' evs where "run (f (an_Now (a 0))) a' w = (evs, xs, w')" by fastforce
  then show ?case by (intro exI [of _ "case_nat (a 0) a'"] exI [of _ evs]) simp
next
  case (Uuid f)
  then obtain a' evs where "run (f (an_Uuid (a 0))) a' w = (evs, xs, w')" by fastforce
  then show ?case by (intro exI [of _ "case_nat (a 0) a'"] exI [of _ evs]) simp
next
  case (AllowURL u f)
  then obtain a' evs where "run (f (an_Allow (a 0))) a' w = (evs, xs, w')" by fastforce
  then show ?case by (intro exI [of _ "case_nat (a 0) a'"] exI [of _ evs]) simp
next
  case (Http q f)
  then obtain r a' evs where "run (f r) a' w = (evs, xs, w')"
    by (fastforce split: option.splits prod.splits)
  then show ?case
    by (intro exI [of _ "case_nat ((a 0)\<lparr>an_Http := r\<rparr>) a'"] exI [of _ "Sent q # evs"]) (simp add: emit_def)
next
  case (Act u k)
  then obtain a' evs where "run (k (an_Io (a 0)) w) a' (u (an_Io (a 0)) w) = (evs, xs, w')" by fastforce
  then show ?case by (intro exI [of _ "case_nat (a 0) a'"] exI [of _ evs]) simp
qed auto

text \<open>The other side has received requests, and its new goroutines are among its programs.\<close>

lemma request_reaches:
  assumes "message Y p" and "run p a v = (evs, new, v')"
  shows "reachable (message Y) (v, ps, tr) (v', ps @ Done # new, tr @ evs)"
proof -
  have "reachable (message Y) (v, ps, tr) (v, ps @ [p], tr)"
    using sys_step.arrive [of "message Y" p v ps tr] assms(1) by (auto intro: reachable.intros)
  from reachable_trans [OF _ this] run_reachable [of "message Y" v ps p "[]" tr a] assms(2)
  show ?thesis by simp
qed

lemma talk_reaches:
  "talk p Y a b w v = (xs, ys, w', v') \<Longrightarrow>
     \<exists>zs tr'. reachable (message Y) (v, ps, tr) (v', ps @ zs, tr') \<and> mset ys \<subseteq># mset zs"
proof (induction p arbitrary: a b w v xs ys w' v' ps tr)
  case Done
  then show ?case using reachable.start [of "message Y" "(v, ps, tr)"]
    by (intro exI [of _ "[]"] exI [of _ tr]) simp
next
  case (Go q p)
  then obtain zs where "talk p Y a b w v = (zs, ys, w', v')" by (auto split: prod.splits)
  then show ?case by (rule Go.IH(2))
next
  case (Http q f)
  show ?case
  proof (cases "path_at Y (hq_URL q)")
    case None
    then show ?thesis using Http.prems Http.IH [OF rangeI] by simp
  next
    case (Some path)
    let ?p = "protocol_router Y (hq_Method q) path (arriving q)"
    obtain evs new v1 where p: "run ?p (b 0) v = (evs, new, v1)" by (metis prod_cases3)
    then obtain zs where rest: "talk (f (delivered (hd (answered evs)))) Y (\<lambda>i. a (Suc i)) (\<lambda>k. b (Suc k)) w v1 =
        (xs, zs, w', v')" "ys = new @ zs"
      using Http.prems Some by (auto split: prod.splits)
    have "reachable (message Y) (v, ps, tr) (v1, ps @ Done # new, tr @ evs)"
      by (rule request_reaches [OF _ p]) (auto simp: message_def)
    moreover obtain us tr' where "reachable (message Y) (v1, ps @ Done # new, tr @ evs)
        (v', (ps @ Done # new) @ us, tr')" "mset zs \<subseteq># mset us"
      using Http.IH [OF rangeI rest(1)] by blast
    ultimately have "reachable (message Y) (v, ps, tr) (v', ps @ (Done # new @ us), tr')"
      using reachable_trans by fastforce
    moreover have "mset ys \<subseteq># mset (Done # new @ us)"
      using rest(2) \<open>mset zs \<subseteq># mset us\<close> by (simp add: subseteq_mset_def le_SucI)
    ultimately show ?thesis by blast
  qed
qed (simp_all, (metis rangeI)+)

lemma talk_history:
  assumes "talk p Y a b w v = (xs, ys, w', v')" and "mset (p # rest) \<subseteq># mset ps"
  shows "\<exists>ps' tr'. reachable entry (w, ps, tr) (w', ps', tr') \<and> mset (rest @ xs) \<subseteq># mset ps'"
proof -
  have "p \<in> set ps" using assms(2) by (auto simp: insert_subset_eq_iff)
  then obtain l r where ps: "ps = l @ p # r" by (metis split_list)
  obtain a' evs where run: "run p a' w = (evs, xs, w')" using talk_is_run [OF assms(1)] by blast
  have "reachable entry (w, ps, tr) (w', l @ Done # r @ xs, tr @ evs)"
    using run_reachable [of entry w l p r tr a'] run ps by simp
  moreover have "mset rest \<subseteq># mset l + mset r" using assms(2) ps by simp
  then have "mset (rest @ xs) \<subseteq># mset (l @ Done # r @ xs)"
    by (simp add: subseteq_mset_def le_SucI)
  ultimately show ?thesis by blast
qed

lemma dialogue_history:
  assumes "dialogue n X Y a b (w, xs) (v, ys) = ((w', xs'), (v', ys'))"
    and "mset xs \<subseteq># mset ps" and "mset ys \<subseteq># mset qs"
  shows "(\<exists>ps' tr'. reachable (message X) (w, ps, tr) (w', ps', tr') \<and> mset xs' \<subseteq># mset ps') \<and>
    (\<exists>qs' sr'. reachable (message Y) (v, qs, sr) (v', qs', sr') \<and> mset ys' \<subseteq># mset qs')"
  using assms
proof (induction n arbitrary: a b w xs v ys ps tr qs sr)
  case 0
  then show ?case using reachable.start by fastforce
next
  case (Suc n)
  consider (near) x rest where "xs = x # rest" | (far) y rest where "xs = []" "ys = y # rest"
    | (quiet) "xs = []" "ys = []"
    by (cases xs; cases ys) auto
  then show ?case
  proof cases
    case near
    obtain mine theirs w1 v1 where talk: "talk x Y (a 0) (b 0) w v = (mine, theirs, w1, v1)"
      by (metis prod_cases4)
    obtain ps1 tr1 where mine: "reachable (message X) (w, ps, tr) (w1, ps1, tr1)" "mset (rest @ mine) \<subseteq># mset ps1"
      using talk_history [OF talk, of rest ps "message X" tr] Suc.prems(2) near by blast
    obtain zs sr1 where theirs: "reachable (message Y) (v, qs, sr) (v1, qs @ zs, sr1)" "mset theirs \<subseteq># mset zs"
      using talk_reaches [OF talk] by blast
    have "mset (ys @ theirs) \<subseteq># mset (qs @ zs)"
      using Suc.prems(3) theirs(2) by (simp add: subset_mset.add_mono)
    moreover have "dialogue n X Y (\<lambda>k. a (Suc k)) (\<lambda>k. b (Suc k)) (w1, rest @ mine) (v1, ys @ theirs) =
        ((w', xs'), (v', ys'))"
      using Suc.prems(1) near talk by simp
    ultimately show ?thesis
      using Suc.IH mine(2) reachable_trans [OF _ mine(1)] reachable_trans [OF _ theirs(1)] by meson
  next
    case far
    obtain mine theirs w1 v1 where talk: "talk y X (a 0) (b 0) v w = (mine, theirs, v1, w1)"
      by (metis prod_cases4)
    obtain qs1 sr1 where mine: "reachable (message Y) (v, qs, sr) (v1, qs1, sr1)" "mset (rest @ mine) \<subseteq># mset qs1"
      using talk_history [OF talk, of rest qs "message Y" sr] Suc.prems(3) far by blast
    obtain zs tr1 where theirs: "reachable (message X) (w, ps, tr) (w1, ps @ zs, tr1)" "mset theirs \<subseteq># mset zs"
      using talk_reaches [OF talk] by blast
    have "mset theirs \<subseteq># mset (ps @ zs)"
      using theirs(2) by (simp add: subset_mset.add_increasing)
    moreover have "dialogue n X Y (\<lambda>k. a (Suc k)) (\<lambda>k. b (Suc k)) (w1, theirs) (v1, rest @ mine) =
        ((w', xs'), (v', ys'))"
      using Suc.prems(1) far talk by simp
    ultimately show ?thesis
      using Suc.IH mine(2) reachable_trans [OF _ mine(1)] reachable_trans [OF _ theirs(1)] by meson
  next
    case quiet
    then show ?thesis using Suc.prems reachable.start by fastforce
  qed
qed

section \<open>A quiet environment\<close>

text \<open>
  \<open>always T F p w Q\<close>: whatever the clock says within \<open>T\<close>, whatever identifiers of \<open>F\<close> are drawn and
  whatever other servers answer, \<open>p\<close> ends with its responses, its goroutines and a world in \<open>Q\<close>.
\<close>

definition smooth :: "(instant \<Rightarrow> bool) \<Rightarrow> (string \<Rightarrow> bool) \<Rightarrow> answer \<Rightarrow> bool" where
  "smooth T F x \<longleftrightarrow> an_Io x = IoOk \<and> an_Allow x \<and> T (an_Now x) \<and> (\<exists>u. an_Uuid x = Some u \<and> F u)"

primrec always :: "(instant \<Rightarrow> bool) \<Rightarrow> (string \<Rightarrow> bool) \<Rightarrow> prog \<Rightarrow> world \<Rightarrow>
    (response list \<Rightarrow> prog list \<Rightarrow> world \<Rightarrow> bool) \<Rightarrow> bool" where
  "always T F Done w Q \<longleftrightarrow> Q [] [] w"
| "always T F (Respond r p) w Q \<longleftrightarrow> always T F p w (\<lambda>rs. Q (r # rs))"
| "always T F (Go q p) w Q \<longleftrightarrow> always T F p w (\<lambda>rs gs. Q rs (q # gs))"
| "always T F (Sleep d p) w Q \<longleftrightarrow> always T F p w Q"
| "always T F (Now f) w Q \<longleftrightarrow> (\<forall>t. T t \<longrightarrow> always T F (f t) w Q)"
| "always T F (Uuid f) w Q \<longleftrightarrow> (\<forall>u. F u \<longrightarrow> always T F (f (Some u)) w Q)"
| "always T F (AllowURL u f) w Q \<longleftrightarrow> always T F (f True) w Q"
| "always T F (Http q f) w Q \<longleftrightarrow> (\<forall>r. always T F (f r) w Q)"
| "always T F (Act u k) w Q \<longleftrightarrow> always T F (k IoOk w) (u IoOk w) Q"

primrec always_talk :: "(instant \<Rightarrow> bool) \<Rightarrow> (string \<Rightarrow> bool) \<Rightarrow> connector \<Rightarrow> prog \<Rightarrow> world \<Rightarrow> world \<Rightarrow>
    (prog list \<Rightarrow> prog list \<Rightarrow> world \<Rightarrow> world \<Rightarrow> bool) \<Rightarrow> bool" where
  "always_talk T F Y Done w v Q \<longleftrightarrow> Q [] [] w v"
| "always_talk T F Y (Respond r p) w v Q \<longleftrightarrow> always_talk T F Y p w v Q"
| "always_talk T F Y (Go q p) w v Q \<longleftrightarrow> always_talk T F Y p w v (\<lambda>xs. Q (q # xs))"
| "always_talk T F Y (Sleep d p) w v Q \<longleftrightarrow> always_talk T F Y p w v Q"
| "always_talk T F Y (Now f) w v Q \<longleftrightarrow> (\<forall>t. T t \<longrightarrow> always_talk T F Y (f t) w v Q)"
| "always_talk T F Y (Uuid f) w v Q \<longleftrightarrow> (\<forall>u. F u \<longrightarrow> always_talk T F Y (f (Some u)) w v Q)"
| "always_talk T F Y (AllowURL u f) w v Q \<longleftrightarrow> always_talk T F Y (f True) w v Q"
| "always_talk T F Y (Http q f) w v Q \<longleftrightarrow> (case path_at Y (hq_URL q) of
     None \<Rightarrow> always_talk T F Y (f (HttpFailed CauseOther)) w v Q
   | Some path \<Rightarrow> always T F (protocol_router Y (hq_Method q) path (arriving q)) v
       (\<lambda>rs new v'. always_talk T F Y (f (delivered (hd rs))) w v' (\<lambda>xs ys. Q xs (new @ ys))))"
| "always_talk T F Y (Act u k) w v Q \<longleftrightarrow> always_talk T F Y (k IoOk w) (u IoOk w) v Q"

lemma always_run_proj:
  "always T F p w Q \<Longrightarrow> (\<And>i. smooth T F (a i)) \<Longrightarrow>
     Q (answered (fst (run p a w))) (fst (snd (run p a w))) (snd (snd (run p a w)))"
proof (induction p arbitrary: a w Q)
  case (Uuid f)
  obtain u where "an_Uuid (a 0) = Some u" "F u" using Uuid.prems(2) [of 0] by (auto simp: smooth_def)
  then show ?case using Uuid.IH [OF rangeI, of "Some u" w Q "\<lambda>i. a (Suc i)"] Uuid.prems by simp
next
  case (Now f)
  then show ?case using Now.IH [OF rangeI, of _ w Q "\<lambda>i. a (Suc i)"] Now.prems(2) [of 0]
    by (simp add: smooth_def)
next
  case (AllowURL x f)
  then show ?case using AllowURL.IH [OF rangeI, of _ w Q "\<lambda>i. a (Suc i)"] AllowURL.prems(2) [of 0]
    by (simp add: smooth_def)
next
  case (Http q f)
  then show ?case using Http.IH [OF rangeI, of _ w Q "\<lambda>i. a (Suc i)"] by simp
next
  case (Act u k)
  then show ?case using Act.IH [OF rangeI rangeI, of IoOk w "u IoOk w" Q "\<lambda>i. a (Suc i)"] Act.prems(2) [of 0]
    by (simp add: smooth_def)
qed fastforce+

lemma always_run:
  "always T F p w Q \<Longrightarrow> (\<And>i. smooth T F (a i)) \<Longrightarrow> run p a w = (evs, gs, w') \<Longrightarrow> Q (answered evs) gs w'"
  using always_run_proj [of T F p w Q a] by simp

lemma always_mono:
  "always T F p w Q \<Longrightarrow> (\<And>rs gs w'. Q rs gs w' \<Longrightarrow> Q' rs gs w') \<Longrightarrow> always T F p w Q'"
proof (induction p arbitrary: w Q Q')
  case (Respond r p)
  from Respond.prems show ?case by (auto intro: Respond.IH)
next
  case (Go q p)
  from Go.prems show ?case by (auto intro: Go.IH(2))
next
  case (Uuid f)
  from Uuid.prems show ?case by (auto intro: Uuid.IH [OF rangeI])
next
  case (Now f)
  from Now.prems show ?case by (auto intro: Now.IH [OF rangeI])
next
  case (AllowURL x f)
  from AllowURL.prems show ?case by (auto intro: AllowURL.IH [OF rangeI])
next
  case (Http q f)
  from Http.prems show ?case by (auto intro: Http.IH [OF rangeI])
next
  case (Act u k)
  from Act.prems show ?case by (auto intro: Act.IH [OF rangeI rangeI])
qed auto

lemma always_talk_mono:
  "always_talk T F Y p w v Q \<Longrightarrow> (\<And>xs ys w' v'. Q xs ys w' v' \<Longrightarrow> Q' xs ys w' v') \<Longrightarrow>
     always_talk T F Y p w v Q'"
proof (induction p arbitrary: w v Q Q')
  case (Respond r p)
  from Respond.prems show ?case by (auto intro: Respond.IH)
next
  case (Go q p)
  from Go.prems show ?case by (auto intro: Go.IH(2))
next
  case (Uuid f)
  from Uuid.prems show ?case by (auto intro: Uuid.IH [OF rangeI])
next
  case (Now f)
  from Now.prems show ?case by (auto intro: Now.IH [OF rangeI])
next
  case (AllowURL x f)
  from AllowURL.prems show ?case by (auto intro: AllowURL.IH [OF rangeI])
next
  case (Http q f)
  from Http.prems show ?case by (auto intro: Http.IH [OF rangeI] elim!: always_mono split: option.splits)
next
  case (Act u k)
  from Act.prems show ?case by (auto intro: Act.IH [OF rangeI rangeI])
qed auto

lemma always_talk_proj:
  "always_talk T F Y p w v Q \<Longrightarrow> (\<And>i. smooth T F (a i)) \<Longrightarrow> (\<And>k i. smooth T F (b k i)) \<Longrightarrow>
     case talk p Y a b w v of (xs, ys, w', v') \<Rightarrow> Q xs ys w' v'"
proof (induction p arbitrary: a b w v Q)
  case (Go q p)
  then have "always_talk T F Y p w v (\<lambda>xs. Q (q # xs))" by simp
  from Go.IH(2) [of w v _ a b, OF this] Go.prems(2,3) show ?case by (simp split: prod.splits)
next
  case (Uuid f)
  obtain u where "an_Uuid (a 0) = Some u" "F u" using Uuid.prems(2) [of 0] by (auto simp: smooth_def)
  then show ?case using Uuid.IH [OF rangeI, of "Some u" w v Q "\<lambda>i. a (Suc i)" b] Uuid.prems by simp
next
  case (Now f)
  then show ?case using Now.IH [OF rangeI, of _ w v Q "\<lambda>i. a (Suc i)" b] Now.prems(2) [of 0]
    by (simp add: smooth_def)
next
  case (AllowURL x f)
  then show ?case using AllowURL.IH [OF rangeI, of _ w v Q "\<lambda>i. a (Suc i)" b] AllowURL.prems(2) [of 0]
    by (simp add: smooth_def)
next
  case (Http q f)
  show ?case
  proof (cases "path_at Y (hq_URL q)")
    case None
    then show ?thesis using Http.IH [OF rangeI, of _ w v Q "\<lambda>i. a (Suc i)" b] Http.prems by simp
  next
    case (Some path)
    obtain evs new v' where run: "run (protocol_router Y (hq_Method q) path (arriving q)) (b 0) v = (evs, new, v')"
      by (metis prod_cases3)
    have "always_talk T F Y (f (delivered (hd (answered evs)))) w v' (\<lambda>xs ys. Q xs (new @ ys))"
      by (rule always_run [OF _ _ run]) (use Http.prems Some in simp_all)
    from Http.IH [OF rangeI this, of "\<lambda>i. a (Suc i)" "\<lambda>k. b (Suc k)"] show ?thesis
      using Http.prems Some run by (auto split: prod.splits)
  qed
next
  case (Act u k)
  then show ?case using Act.IH [OF rangeI rangeI, of IoOk w "u IoOk w" v Q "\<lambda>i. a (Suc i)" b] Act.prems(2) [of 0]
    by (simp add: smooth_def)
qed auto

lemma always_talk:
  "always_talk T F Y p w v Q \<Longrightarrow> (\<And>i. smooth T F (a i)) \<Longrightarrow> (\<And>k i. smooth T F (b k i)) \<Longrightarrow>
     \<exists>xs ys w' v'. talk p Y a b w v = (xs, ys, w', v') \<and> Q xs ys w' v'"
  using always_talk_proj [of T F Y p w v Q a b] by (auto split: prod.splits)

lemma always_calls [simp]:
  "always T F (call f k) w Q = always T F (k (fst (f IoOk (db w)))) (w\<lparr>db := snd (f IoOk (db w))\<rparr>) Q"
  "always_talk T F Y (call f k) w v R =
     always_talk T F Y (k (fst (f IoOk (db w)))) (w\<lparr>db := snd (f IoOk (db w))\<rparr>) v R"
  by (simp_all add: call_def)

lemma always_messageID [simp]:
  "always T F (newMessageID k) w Q \<longleftrightarrow> (\<forall>u. F u \<longrightarrow> always T F (k u) w Q)"
  "always_talk T F Y (newMessageID k) w v R \<longleftrightarrow> (\<forall>u. F u \<longrightarrow> always_talk T F Y (k u) w v R)"
  by (simp_all add: newMessageID_def)

text \<open>The same of a dialogue, one goroutine at a time.\<close>

definition always_dialogue :: "(instant \<Rightarrow> bool) \<Rightarrow> (string \<Rightarrow> bool) \<Rightarrow> nat \<Rightarrow> connector \<Rightarrow> connector \<Rightarrow>
    world \<times> prog list \<Rightarrow> world \<times> prog list \<Rightarrow> ((world \<times> prog list) \<times> (world \<times> prog list) \<Rightarrow> bool) \<Rightarrow> bool" where
  "always_dialogue T F n X Y x y R \<longleftrightarrow> (\<forall>a b. (\<forall>k i. smooth T F (a k i)) \<longrightarrow>
     (\<forall>k j i. smooth T F (b k j i)) \<longrightarrow> R (dialogue n X Y a b x y))"

lemma always_dialogue_near:
  assumes "always_talk T F Y p w v (\<lambda>xs ys w' v'.
    always_dialogue T F n X Y (w', ps @ xs) (v', qs @ ys) R)"
  shows "always_dialogue T F (Suc n) X Y (w, p # ps) (v, qs) R"
  unfolding always_dialogue_def
proof (intro allI impI)
  fix a :: "nat \<Rightarrow> nat \<Rightarrow> answer" and b :: "nat \<Rightarrow> nat \<Rightarrow> nat \<Rightarrow> answer"
  assume answers: "\<forall>k i. smooth T F (a k i)" "\<forall>k j i. smooth T F (b k j i)"
  then obtain xs ys w' v' where "talk p Y (a 0) (b 0) w v = (xs, ys, w', v')"
    "always_dialogue T F n X Y (w', ps @ xs) (v', qs @ ys) R"
    using always_talk [OF assms, of "a 0" "b 0"] by blast
  then show "R (dialogue (Suc n) X Y a b (w, p # ps) (v, qs))"
    using answers by (simp add: always_dialogue_def)
qed

lemma always_dialogue_far:
  assumes "always_talk T F X q v w (\<lambda>xs ys v' w'.
    always_dialogue T F n X Y (w', ys) (v', qs @ xs) R)"
  shows "always_dialogue T F (Suc n) X Y (w, []) (v, q # qs) R"
  unfolding always_dialogue_def
proof (intro allI impI)
  fix a :: "nat \<Rightarrow> nat \<Rightarrow> answer" and b :: "nat \<Rightarrow> nat \<Rightarrow> nat \<Rightarrow> answer"
  assume answers: "\<forall>k i. smooth T F (a k i)" "\<forall>k j i. smooth T F (b k j i)"
  then obtain xs ys w' v' where "talk q X (a 0) (b 0) v w = (xs, ys, v', w')"
    "always_dialogue T F n X Y (w', ys) (v', qs @ xs) R"
    using always_talk [OF assms, of "a 0" "b 0"] by blast
  then show "R (dialogue (Suc n) X Y a b (w, []) (v, q # qs))"
    using answers by (simp add: always_dialogue_def)
qed

lemma always_dialogue_end: "R (x, y) \<Longrightarrow> always_dialogue T F 0 X Y x y R"
  by (simp add: always_dialogue_def)

section \<open>Credentials between the two\<close>

text \<open>
  \<open>Y\<close> knows \<open>X\<close>: authentication is on, its roster is in force and lists \<open>X\<close> with its key and its
  address, and what \<open>X\<close> marshals \<open>Y\<close> unmarshals.
\<close>

definition knows :: "(instant \<Rightarrow> bool) \<Rightarrow> connector \<Rightarrow> connector \<Rightarrow> bool" where
  "knows T Y X \<longleftrightarrow> AuthRequired (cn_cfg Y) \<and> ParticipantID (cn_cfg X) \<noteq> '''' \<and>
     (\<forall>t. T t \<longrightarrow> UsableAt (cn_roster Y) t) \<and>
     AddressFor (cn_roster Y) (ParticipantID (cn_cfg X)) = Some (PublicURL (cn_cfg X) @ VersionPath) \<and>
     (\<exists>sign pub. cn_key X = Some sign \<and> KeyFor (cn_roster Y) (ParticipantID (cn_cfg X)) = Some pub \<and>
        signing_pair sign (cn_verify Y) pub) \<and>
     cn_unmarshal Y (cn_marshal X (json_of_header jwt_header_of_mint)) = Some (json_of_header jwt_header_of_mint) \<and>
     (\<forall>t. T t \<longrightarrow> (let c = json_of_claims (claims_of_mint (ParticipantID (cn_cfg X))
        (ParticipantID (cn_cfg Y)) t credentialTTL) in cn_unmarshal Y (cn_marshal X c) = Some c))"

text \<open>All the clocks of a dialogue are read within the lifetime of a credential.\<close>

definition one_moment :: "(instant \<Rightarrow> bool) \<Rightarrow> bool" where
  "one_moment T \<longleftrightarrow> (\<exists>t0. 0 \<le> t0 \<and> t0 < 2 ^ 61 * second \<and> (\<forall>t. T t \<longrightarrow> t0 \<le> t \<and> t < t0 + credentialTTL))"

definition credential :: "(instant \<Rightarrow> bool) \<Rightarrow> connector \<Rightarrow> connector \<Rightarrow> string \<Rightarrow> bool" where
  "credential T X Y tok \<longleftrightarrow> (\<exists>t. T t \<and> Mint (cn_marshal X) (cn_key X) (ParticipantID (cn_cfg X))
     (ParticipantID (cn_cfg Y)) t credentialTTL = Some tok)"

lemma knowsD:
  assumes "knows T Y X"
  shows "AuthRequired (cn_cfg Y)" "ParticipantID (cn_cfg X) \<noteq> ''''"
    "T t \<Longrightarrow> UsableAt (cn_roster Y) t" "h_guard (newHandler Y) = Some (UsableAt (cn_roster Y))"
    "AddressFor (cn_roster Y) (ParticipantID (cn_cfg X)) = Some (PublicURL (cn_cfg X) @ VersionPath)"
    "\<exists>pub. KeyFor (cn_roster Y) (ParticipantID (cn_cfg X)) = Some pub" "\<exists>sign. cn_key X = Some sign"
  using assms by (auto simp: knows_def newHandler_def Let_def)

lemma clock_ok_below:
  assumes "0 \<le> t" and "t < 2 ^ 62 * second"
  shows "clock_ok t"
proof -
  have "t div second * second \<le> t"
    using pos_mod_sign [of second t] by (simp add: second_def minus_mod_eq_div_mult [symmetric])
  then have "t div second * second < 2 ^ 62 * second" using assms(2) by linarith
  then show ?thesis using assms(1) by (simp add: clock_ok_def second_def)
qed

lemma credential_accepted:
  assumes "one_moment T" and "knows T Y X" and "credential T X Y tok" and "T later"
  shows "Verify (cn_unmarshal Y) (cn_verify Y) tok (KeyFor (cn_roster Y)) (ParticipantID (cn_cfg Y)) later =
    Inr (ParticipantID (cn_cfg X))"
proof -
  obtain t sign pub where t: "T t" "cn_key X = Some sign"
    "Mint (cn_marshal X) (Some sign) (ParticipantID (cn_cfg X)) (ParticipantID (cn_cfg Y)) t credentialTTL = Some tok"
    "KeyFor (cn_roster Y) (ParticipantID (cn_cfg X)) = Some pub" "signing_pair sign (cn_verify Y) pub"
    using assms(2,3) by (auto simp: credential_def knows_def)
  obtain t0 where t0: "0 \<le> t0" "t0 < 2 ^ 61 * second" "\<And>t. T t \<Longrightarrow> t0 \<le> t \<and> t < t0 + credentialTTL"
    using assms(1) by (auto simp: one_moment_def)
  show ?thesis
  proof (rule Mint_Verify [where sign = sign and pub = pub and now = t and ttl = credentialTTL and marshal = "cn_marshal X"])
    show "clock_ok (t + credentialTTL)" "clock_ok later"
      using t0(1,2) t0(3) [OF t(1)] t0(3) [OF assms(4)]
      by (auto intro!: clock_ok_below simp: second_def credentialTTL_def)
    have "later div second \<le> (t + credentialTTL) div second"
      "(t + credentialTTL) div second \<le> (later + 600 * second) div second"
      using t0(3) [OF t(1)] t0(3) [OF assms(4)]
      by (auto intro!: zdiv_mono1 simp: second_def credentialTTL_def)
    then show "later div second - 60 < (t + credentialTTL) div second"
      "(t + credentialTTL) div second \<le> later div second + 3600"
      by (simp_all add: second_def)
  qed (use assms(2) t in \<open>simp_all add: knows_def Let_def\<close>)
qed

lemma b64_printable: "c \<in> set (b64_encode b) \<Longrightarrow> (of_char c :: nat) \<in> {33 ..< 128}"
proof -
  have digits: "\<forall>d \<in> set (b64_digits (map byte_val b)). 0 \<le> d \<and> d < 64"
    by (rule b64_digits_range) (use byte_val_range in auto)
  have "int (of_char (b64_char d)) \<in> {33 ..< 128}" if "0 \<le> d" "d < 64" for d
    using b64_char_code [OF that] that by auto
  then show "c \<in> set (b64_encode b) \<Longrightarrow> ?thesis" using digits by (force simp: b64_encode_def)
qed

lemma cutBearer_credential:
  assumes "credential T X Y tok"
  shows "cutBearer (''Bearer '' @ tok) = Some tok"
proof -
  obtain a b c where tok: "tok = b64_encode a @ ''.'' @ b64_encode b @ ''.'' @ b64_encode c"
    using assms by (auto simp: credential_def Mint_def Let_def split: option.splits)
  then have "\<forall>c \<in> set tok. (of_char c :: nat) \<in> {33 ..< 128}" and "tok \<noteq> []"
    using b64_printable by auto
  then have "TrimSpace tok = tok" by (intro TrimSpace_id) auto
  moreover have "equal_fold ''Bearer '' ''bearer ''" by code_simp
  ultimately show ?thesis using \<open>tok \<noteq> []\<close> by (simp add: cutBearer_def)
qed

lemma always_mint:
  assumes "knows T X Y" and "knows T Y X"
    and "\<And>tok. credential T X Y tok \<Longrightarrow> always_talk T F Z (k (''Bearer '' @ tok, True)) w v Q"
  shows "always_talk T F Z (mintOutboundCredential (newHandler X) (ParticipantID (cn_cfg Y)) k) w v Q"
proof -
  have "\<exists>tok. h_sign (newHandler X) (ParticipantID (cn_cfg Y)) t = Some tok \<and> credential T X Y tok" if "T t" for t
    using knowsD(7) [OF assms(2)] that by (auto simp: newHandler_def Let_def Mint_def credential_def)
  then show ?thesis
    using knowsD(1,2,3,4) [OF assms(1)] assms(3)
    by (fastforce simp: mintOutboundCredential_def usable_def)
qed

lemma always_push:
  assumes "knows T X Y" and "knows T Y X" and "path_at Y url = Some path"
    and "\<And>tok. credential T X Y tok \<Longrightarrow> always T F
      (protocol_router Y ''POST'' path (arriving (post url msg (''Bearer '' @ tok)))) v
      (\<lambda>rs new v'. push_ok (delivered (hd rs)) \<and> always_talk T F Y (k True) w v' (\<lambda>xs ys. Q xs (new @ ys)))"
  shows "always_talk T F Y (pushCallback (newHandler X) url msg (ParticipantID (cn_cfg Y)) k) w v Q"
proof -
  have "always T F (protocol_router Y ''POST'' path (arriving (post url msg (''Bearer '' @ tok)))) v
      (\<lambda>rs new v'. always_talk T F Y ((\<lambda>ok. if ok then k True else q) (push_ok (delivered (hd rs)))) w v'
        (\<lambda>xs ys. Q xs (new @ ys)))" if "credential T X Y tok" for tok q
    by (rule always_mono [OF assms(4) [OF that]]) simp
  then show ?thesis
    unfolding pushCallback_def callbackRetryBackoffs_def push_attempts.simps
    by (intro always_mint [OF assms(1,2)]) (simp add: attemptPush_def assms(3) post_def)
qed

text \<open>On the other side the credential is accepted, and the handler of the route runs.\<close>

lemma always_authenticated:
  assumes "one_moment T" and "knows T Y X" and "credential T X Y tok"
    and "rq_Authorization r = ''Bearer '' @ tok" and "path \<noteq> [''.well-known'', ''dspace-version'']"
    and "always T F (serve_mux protocol_routes (newHandler Y) m path (r\<lparr>rq_Issuer := ParticipantID (cn_cfg X)\<rparr>)) v Q"
  shows "always T F (protocol_router Y m path r) v Q"
  using knowsD(1,3,4) [OF assms(2)] credential_accepted [OF assms(1-3)] cutBearer_credential [OF assms(3)] assms(4-6)
  by (simp add: protocol_router_def requireParticipant_def usable_def)

lemma HasPrefix_append: "HasPrefix (p @ s) p"
  by (induction p) simp_all

lemma path_at_public:
  "path_at c (PublicURL (cn_cfg c) @ VersionPath @ (CHR ''/'' # rest)) = Some (''2025-1'' # split_on (CHR ''/'') rest)"
  using HasPrefix_append [of "PublicURL (cn_cfg c) @ ''/''" "''2025-1/'' @ rest"]
  by (simp add: path_at_def Let_def VersionPath_def)

text \<open>An identifier stands in a path as one segment.\<close>

definition segment :: "string \<Rightarrow> bool" where
  "segment s \<longleftrightarrow> s \<noteq> [] \<and> CHR ''/'' \<notin> set s"

lemma split_segment:
  "segment s \<Longrightarrow> split_on (CHR ''/'') (s @ CHR ''/'' # rest) = s # split_on (CHR ''/'') rest"
  by (simp add: segment_def split_on_append)

lemma negotiation_paths:
  "split_on (CHR ''/'') ''negotiations/request'' = [''negotiations'', ''request'']"
  "segment pid \<Longrightarrow> split_on (CHR ''/'') (''negotiations/'' @ pid @ ''/agreement'') = [''negotiations'', pid, ''agreement'']"
  "segment pid \<Longrightarrow> split_on (CHR ''/'') (''negotiations/'' @ pid @ ''/agreement/verification'') =
     [''negotiations'', pid, ''agreement'', ''verification'']"
  "segment pid \<Longrightarrow> split_on (CHR ''/'') (''negotiations/'' @ pid @ ''/events'') = [''negotiations'', pid, ''events'']"
  by (simp_all add: split_segment)

lemma negotiation_routes:
  "serve_mux protocol_routes h ''POST'' [''2025-1'', ''negotiations'', ''request''] r = handleContractRequest h (r\<lparr>rq_ID := ''''\<rparr>)"
  "segment pid \<Longrightarrow> serve_mux protocol_routes h ''POST'' [''2025-1'', ''negotiations'', pid, ''agreement''] r =
     handleAgreement h (r\<lparr>rq_ID := pid\<rparr>)"
  "segment pid \<Longrightarrow> serve_mux protocol_routes h ''POST'' [''2025-1'', ''negotiations'', pid, ''agreement'', ''verification''] r =
     handleVerification h (r\<lparr>rq_ID := pid\<rparr>)"
  "segment pid \<Longrightarrow> serve_mux protocol_routes h ''POST'' [''2025-1'', ''negotiations'', pid, ''events''] r =
     handleEvent h (r\<lparr>rq_ID := pid\<rparr>)"
  by (simp_all add: serve_mux_def protocol_routes_def method_matches_def segment_def Let_def)

end
