(* ===== verification/Contracts.thy ===== *)
theory Contracts
  imports Dialogue
begin

text \<open>
  Two connectors that conclude a contract: what each handler and goroutine of a negotiation does when
  it meets the other side's, in a quiet environment.
\<close>

section \<open>The tables\<close>

text \<open>What a statement leaves alone.\<close>

lemma statement_frames:
  "agreements (snd (SetConsumerState k st to at i s)) = agreements s"
  "negotiations (snd (SetConsumerState k st to at i s)) = negotiations s"
  "agreements (snd (SetConsumerProviderPID k pid at i s)) = agreements s"
  "negotiations (snd (SetConsumerProviderPID k pid at i s)) = negotiations s"
  "agreements (snd (CreateConsumer m i s)) = agreements s"
  "negotiations (snd (CreateConsumer m i s)) = negotiations s"
  "consumer_negotiations (snd (CreateAgreement a i s)) = consumer_negotiations s"
  "negotiations (snd (CreateAgreement a i s)) = negotiations s"
  by (cases i; simp add: SetConsumerState_def SetConsumerProviderPID_def CreateConsumer_def
      CreateAgreement_def split: option.split)+

text \<open>A negotiation leaves the transfers and the files alone.\<close>

definition undisturbed :: "world \<Rightarrow> world \<Rightarrow> bool" where
  "undisturbed w w' \<longleftrightarrow> files w' = files w \<and> pulling w' = pulling w \<and>
     transfer_processes (db w') = transfer_processes (db w) \<and>
     consumer_transfer_processes (db w') = consumer_transfer_processes (db w)"

lemma undisturbed_refl [simp]: "undisturbed w w"
  by (simp add: undisturbed_def)

lemma undisturbed_trans: "undisturbed w w' \<Longrightarrow> undisturbed w' w'' \<Longrightarrow> undisturbed w w''"
  by (simp add: undisturbed_def)

lemma transfer_tables [simp]:
  "transfer_processes (snd (Create n i s)) = transfer_processes s"
  "consumer_transfer_processes (snd (Create n i s)) = consumer_transfer_processes s"
  "transfer_processes (snd (SetState k st to at i s)) = transfer_processes s"
  "consumer_transfer_processes (snd (SetState k st to at i s)) = consumer_transfer_processes s"
  "transfer_processes (snd (CreateConsumer m i s)) = transfer_processes s"
  "consumer_transfer_processes (snd (CreateConsumer m i s)) = consumer_transfer_processes s"
  "transfer_processes (snd (SetConsumerState k st to at i s)) = transfer_processes s"
  "consumer_transfer_processes (snd (SetConsumerState k st to at i s)) = consumer_transfer_processes s"
  "transfer_processes (snd (SetConsumerProviderPID k pid at i s)) = transfer_processes s"
  "consumer_transfer_processes (snd (SetConsumerProviderPID k pid at i s)) = consumer_transfer_processes s"
  "transfer_processes (snd (CreateAgreement a i s)) = transfer_processes s"
  "consumer_transfer_processes (snd (CreateAgreement a i s)) = consumer_transfer_processes s"
  "transfer_processes (snd (CreateAgreementIfNegotiationAgreed k allowed a i s)) = transfer_processes s"
  "consumer_transfer_processes (snd (CreateAgreementIfNegotiationAgreed k allowed a i s)) = consumer_transfer_processes s"
  by (cases i; simp add: Create_def SetState_def CreateConsumer_def SetConsumerState_def SetConsumerProviderPID_def
      CreateAgreement_def CreateAgreementIfNegotiationAgreed_def split: option.split)+

lemma provider_pid_recorded:
  assumes "store_wf s" and "find_consumer k s = Some m"
  shows "fst (SetConsumerProviderPID k pid at IoOk s) = Inr ()"
    and "find_consumer k (snd (SetConsumerProviderPID k pid at IoOk s)) =
      Some (m\<lparr>c_ProviderPID := pid, c_UpdatedAt := at\<rparr>)"
    and "store_wf (snd (SetConsumerProviderPID k pid at IoOk s))"
  using assms store_wfD(2) [OF assms(1)]
  by (simp_all add: SetConsumerProviderPID_def update_where_hit select_row_update)
    (simp add: store_wf_def keys_update_rows)

lemmas row_simps = statement_frames SetState_agreements Create_agreements provider_pid_recorded
  con.cas_hit con.cas_lookup con.cas_invar con.create_fresh con.create_lookup con.create_invar
  neg.cas_hit neg.cas_lookup neg.cas_invar neg.create_fresh neg.create_lookup neg.create_invar
  agr.create_fresh agr.create_lookup agr.create_invar

section \<open>The rows of the two sides\<close>

definition asked_of :: "connector \<Rightarrow> string \<Rightarrow> ConsumerNegotiation \<Rightarrow> bool" where
  "asked_of P d m \<longleftrightarrow> c_ProviderBaseURL m = PublicURL (cn_cfg P) @ VersionPath \<and> c_DatasetID m = d \<and>
     c_OfferID m = d @ offerIDSuffix \<and> c_CounterpartyID m = ParticipantID (cn_cfg P)"

definition asked_by :: "connector \<Rightarrow> string \<Rightarrow> string \<Rightarrow> Negotiation \<Rightarrow> bool" where
  "asked_by C cpid d n \<longleftrightarrow> n_ConsumerPID n = cpid \<and> n_DatasetID n = d \<and> n_OfferID n = d @ offerIDSuffix \<and>
     n_CallbackAddress n = PublicURL (cn_cfg C) @ VersionPath \<and> n_CounterpartyID n = ParticipantID (cn_cfg C)"

lemma h_cfg_newHandler [simp]: "h_cfg (newHandler c) = cn_cfg c"
  by (simp add: newHandler_def Let_def)

section \<open>The operator asks\<close>

lemma operator_token: "tok \<noteq> '''' \<Longrightarrow> rq_Authorization r = ''Bearer '' @ tok \<Longrightarrow> authenticated tok r p = p"
  by (simp add: authenticated_def cutBearerPrefix_def bearerPrefix_def equal_fold_def)

lemma roster_lookups:
  assumes "knows T Y X"
  shows "h_knownParticipant (newHandler Y) = Some (\<lambda>x. KeyFor (cn_roster Y) x \<noteq> None)"
    and "h_providerAddress (newHandler Y) = Some (AddressFor (cn_roster Y))"
  using knowsD(1) [OF assms] by (simp_all add: newHandler_def Let_def)

lemma always_initiate:
  assumes "knows T C P" and "rq_Authorization r = ''Bearer '' @ MgmtToken (cn_cfg C)" "MgmtToken (cn_cfg C) \<noteq> ''''"
    and body: "decode (dec_struct initiateRequestBody_fields) zero_initiateRequestBody (rq_Body r) = Some body"
      "ib_ProviderID body = ParticipantID (cn_cfg P)" "ib_DatasetID body = d" "d \<noteq> ''''"
      "ib_OfferID body = d @ offerIDSuffix" "ib_ConnectorAddress body \<noteq> ''''"
    and new: "\<And>u. F u \<Longrightarrow> find_consumer u (db w) = None"
  shows "always T F (management_router C ''POST'' [''negotiations'', ''initiate''] r) w (\<lambda>rs gs w'.
    rs = [Reply StatusOK None] \<and> (\<exists>m. gs = [startNegotiation (newHandler C) m] \<and> F (c_ConsumerPID m) \<and>
      c_State m = StateRequested \<and> c_ProviderPID m = '''' \<and> asked_of P d m \<and>
      w' = w\<lparr>db := snd (CreateConsumer m IoOk (db w))\<rparr>))"
proof -
  have route: "management_router C ''POST'' [''negotiations'', ''initiate''] r =
      handleInitiate (newHandler C) (r\<lparr>rq_ID := ''''\<rparr>)"
    using assms(2,3) by (simp add: management_router_def serve_mux_def management_routes_def method_matches_def
        operator_token)
  note known = roster_lookups [OF assms(1)]
  show ?thesis
    using body knowsD [OF assms(1)] known new
    by (auto simp: route handleInitiate_def usable_def decode_body_def requireKnown_def dialAddress_def
        WriteHeader_def con.create_fresh asked_of_def Let_def offerIDSuffix_def)
qed

section \<open>The request\<close>

text \<open>What the provider makes of the consumer's request.\<close>

lemma always_handleContractRequest:
  assumes request: "rq_Body r = Some (json_of_ConsumerRequestMessage
        (buildConsumerRequestMessage cpid d (d @ offerIDSuffix) (PublicURL (cn_cfg C) @ VersionPath)))"
      "rq_Issuer r = ParticipantID (cn_cfg C)" "cpid \<noteq> ''''" "d \<noteq> ''''"
    and offer: "findConfiguredDataset (cn_cfg P) d = Some ds" "\<And>t. T t \<Longrightarrow> isValid ds t"
    and new: "\<And>u. F u \<Longrightarrow> find_negotiation u (db v) = None" "store_wf (db v)"
  shows "always T F (handleContractRequest (newHandler P) r) v (\<lambda>rs gs v'.
    \<exists>n doc. gs = [dispatch (newHandler P) n outcomeAgree] \<and>
      rs = [Reply StatusCreated (Some (DState doc))] \<and> nd_ProviderPID doc = n_ProviderPID n \<and> F (n_ProviderPID n) \<and> asked_by C cpid d n \<and>
      n_State n = StateRequested \<and> v' = v\<lparr>db := snd (Create n IoOk (db v))\<rparr>)"
proof -
  have "d_ID ds = d" using offer(1) by (auto simp: findConfiguredDataset_def find_Some_iff)
  then have agree: "decideInitialRequest (cn_cfg P) d (d @ offerIDSuffix) t = outcomeAgree" if "T t" for t
    using offer that by (simp add: decideInitialRequest_def Let_def)
  have created: "fst (Create n IoOk (db v)) = Inr ()" if "F (n_ProviderPID n)" for n
    using neg.create_fresh new(1) [OF that] by blast
  show ?thesis
    using request agree created
    by (auto simp: handleContractRequest_def request_wire.decode_body_sent checkEnvelope_def writeJSON_def
        buildConsumerRequestMessage_def newNegotiationOffer_def Let_def VersionPath_def asked_by_def
        buildNegotiationStateDocument_def)
qed

text \<open>The synchronous request of the consumer, answered by the provider.\<close>

lemma always_sendInitialRequest:
  assumes sides: "one_moment T" "knows T C P" "knows T P C"
    and offer: "findConfiguredDataset (cn_cfg P) d = Some ds" "\<And>t. T t \<Longrightarrow> isValid ds t" "d \<noteq> ''''" "cpid \<noteq> ''''"
    and new: "\<And>u. F u \<Longrightarrow> segment u \<and> find_negotiation u (db v) = None" "store_wf (db v)"
    and rest: "\<And>n. F (n_ProviderPID n) \<Longrightarrow> asked_by C cpid d n \<Longrightarrow> n_State n = StateRequested \<Longrightarrow>
      always_talk T F P (k (Some (n_ProviderPID n))) w (v\<lparr>db := snd (Create n IoOk (db v))\<rparr>)
        (\<lambda>xs ys. Q xs (dispatch (newHandler P) n outcomeAgree # ys))"
  shows "always_talk T F P (sendInitialRequest (newHandler C) (PublicURL (cn_cfg P) @ VersionPath)
    (buildConsumerRequestMessage cpid d (d @ offerIDSuffix) (PublicURL (cn_cfg C) @ VersionPath))
    (ParticipantID (cn_cfg P)) k) w v Q"
  unfolding sendInitialRequest_def
proof (rule always_mint [OF sides(2,3)])
  fix tok
  assume tok: "credential T C P tok"
  let ?m = "buildConsumerRequestMessage cpid d (d @ offerIDSuffix) (PublicURL (cn_cfg C) @ VersionPath)"
  let ?url = "PublicURL (cn_cfg P) @ VersionPath @ ''/negotiations/request''"
  let ?r = "arriving (post ?url (DRequest ?m) (''Bearer '' @ tok))"
  let ?reply = "\<lambda>rsp. providerPID_of_reply nd_ProviderPID NegotiationStateDocument_fields
    zero_NegotiationStateDocument (delivered rsp)"
  have path: "path_at P ?url = Some [''2025-1'', ''negotiations'', ''request'']"
    using path_at_public [of P "''negotiations/request''"] negotiation_paths(1) by simp
  have pid: "?reply (Reply StatusCreated (Some (DState doc))) = Some (nd_ProviderPID doc)"
    if "F (nd_ProviderPID doc)" for doc
    unfolding delivered_def
    using new(1) [OF that] by (simp add: state_wire.reply_sent segment_def status_defs)
  have "always T F (handleContractRequest (newHandler P)
      (?r\<lparr>rq_Issuer := ParticipantID (cn_cfg C), rq_ID := ''''\<rparr>)) v
    (\<lambda>rs new v'. always_talk T F P (k (?reply (hd rs))) w v' (\<lambda>xs ys. Q xs (new @ ys)))"
    by (rule always_mono [OF always_handleContractRequest [where C = C and cpid = cpid and d = d and ds = ds]])
      (use offer new pid rest in \<open>auto simp: arriving_def post_def\<close>)
  then have "always T F (protocol_router P ''POST'' [''2025-1'', ''negotiations'', ''request''] ?r) v
    (\<lambda>rs new v'. always_talk T F P (k (?reply (hd rs))) w v' (\<lambda>xs ys. Q xs (new @ ys)))"
    by (intro always_authenticated [OF sides(1,3) tok]) (simp_all add: negotiation_routes arriving_def post_def)
  then show "always_talk T F P ((\<lambda>(authorization, maySend). if \<not> maySend then k None
      else Http (post ((PublicURL (cn_cfg P) @ VersionPath) @ consumerRequestPath) (DRequest ?m) authorization)
        (\<lambda>r. k (providerPID_of_reply nd_ProviderPID NegotiationStateDocument_fields
           zero_NegotiationStateDocument r))) (''Bearer '' @ tok, True)) w v Q"
    using path by (simp add: consumerRequestPath_def post_def)
qed

text \<open>The first goroutine: the consumer asks, and records the provider's identifier.\<close>

lemma always_startNegotiation:
  assumes sides: "one_moment T" "knows T C P" "knows T P C"
    and offer: "findConfiguredDataset (cn_cfg P) d = Some ds" "\<And>t. T t \<Longrightarrow> isValid ds t" "d \<noteq> ''''"
    and policy: "p_OnIdle (resolvePolicy (cn_cfg C) d) \<noteq> ''abandon''"
    and new: "\<And>u. F u \<Longrightarrow> segment u \<and> find_negotiation u (db v) = None" "store_wf (db v)"
    and row: "asked_of P d m" "c_ConsumerPID m \<noteq> ''''" "store_wf (db w)" "find_consumer (c_ConsumerPID m) (db w) = Some m"
  shows "always_talk T F P (startNegotiation (newHandler C) m) w v (\<lambda>xs ys w' v'. xs = [] \<and>
    (\<exists>n t. ys = [dispatch (newHandler P) n outcomeAgree] \<and> asked_by C (c_ConsumerPID m) d n \<and>
      n_State n = StateRequested \<and> F (n_ProviderPID n) \<and> v' = v\<lparr>db := snd (Create n IoOk (db v))\<rparr> \<and>
      w' = w\<lparr>db := snd (SetConsumerProviderPID (c_ConsumerPID m) (n_ProviderPID n) t IoOk (db w))\<rparr>))"
proof -
  have m: "c_ProviderBaseURL m = PublicURL (cn_cfg P) @ VersionPath" "c_DatasetID m = d"
    "c_OfferID m = d @ offerIDSuffix" "c_CounterpartyID m = ParticipantID (cn_cfg P)"
    using row(1) by (simp_all add: asked_of_def)
  have stored: "fst (SetConsumerProviderPID (c_ConsumerPID m) pid t IoOk (db w)) = Inr ()" for pid t
    using provider_pid_recorded(1) [OF row(3,4)] .
  show ?thesis
    unfolding startNegotiation_def m h_cfg_newHandler
    by (rule always_sendInitialRequest [OF sides offer row(2) new])
      (use policy in \<open>auto simp: stored m Let_def\<close>)
qed

section \<open>The agreement\<close>

text \<open>What this connector has recorded of an agreement.\<close>

definition has_agreement :: "store \<Rightarrow> string \<Rightarrow> string \<Rightarrow> string \<Rightarrow> string \<Rightarrow> string \<Rightarrow> bool" where
  "has_agreement s aid origin d cpid party \<longleftrightarrow> (\<exists>ag. find_agreement aid s = Some ag \<and>
     a_Origin ag = origin \<and> a_DatasetID ag = d \<and> a_ConsumerPID ag = cpid \<and> a_CounterpartyID ag = party)"

lemma always_handleAgreement:
  assumes message: "rq_Body r = Some (json_of_AgreementMessage (buildAgreementMessage (cn_cfg P) mid now n))"
      "rq_ID r = cpid" "rq_Issuer r = c_CounterpartyID m" "n_DatasetID n = c_DatasetID m"
    and years: "\<And>ds t. findConfiguredDataset (cn_cfg P) (n_DatasetID n) = Some ds \<Longrightarrow>
      d_ValidityUntil ds = Some t \<Longrightarrow> four_digit_year t"
    and rows: "store_wf (db w)" "find_consumer cpid (db w) = Some m" "c_State m = StateRequested"
      "find_agreement (n_ProviderPID n) (db w) = None"
  shows "always T F (handleAgreement (newHandler C) r) w (\<lambda>rs gs w'. rs = [Reply StatusOK None] \<and>
    gs = [reactToAgreement (newHandler C) (m\<lparr>c_State := StateAgreed\<rparr>) False False] \<and>
    store_wf (db w') \<and> undisturbed w w' \<and> negotiations (db w') = negotiations (db w) \<and>
    has_agreement (db w') (n_ProviderPID n) OriginAgreed (c_DatasetID m) cpid (c_CounterpartyID m) \<and>
    (\<exists>t. find_consumer cpid (db w') = Some (m\<lparr>c_State := StateAgreed, c_UpdatedAt := t\<rparr>)))"
proof -
  have cpid: "c_ConsumerPID m = cpid" using select_row_key [OF rows(2)] .
  let ?ag = "\<lambda>t. \<lparr>a_AgreementID = n_ProviderPID n, a_DatasetID = c_DatasetID m, a_ConsumerPID = cpid,
    a_Origin = OriginAgreed, a_CounterpartyID = c_CounterpartyID m, a_CreatedAt = t\<rparr>"
  let ?s = "\<lambda>t. snd (CreateAgreement (?ag t) IoOk (db w))"
  let ?s' = "\<lambda>t t'. snd (SetConsumerState cpid StateRequested StateAgreed t' IoOk (?s t))"
  have enforceable: "\<not> hasUnenforceableConstraint (buildPermission
      (dataset_validity (findConfiguredDataset (cn_cfg P) (c_DatasetID m))))"
    using years message(4) by (intro buildPermission_enforceable) (auto simp: dataset_validity_def split: option.splits)
  have created: "fst (CreateAgreement (?ag t) IoOk (db w)) = Inr ()"
    "find_agreement (n_ProviderPID n) (?s t) = Some (?ag t)" "store_wf (?s t)" for t
    using agr.create_fresh [of "?ag t" "db w"] agr.create_lookup [of "?ag t" "db w" IoOk] rows(1,4)
    by (simp_all add: agr.create_invar)
  have row: "find_consumer cpid (?s t) = Some m" for t using rows(2) by (simp add: statement_frames)
  have moved: "fst (SetConsumerState cpid StateRequested StateAgreed t' IoOk (?s t)) = Inr ()"
    "find_consumer cpid (?s' t t') = Some (m\<lparr>c_State := StateAgreed, c_UpdatedAt := t'\<rparr>)" "store_wf (?s' t t')" for t t'
    using con.cas_hit [OF created(3) row rows(3)] con.cas_lookup [OF created(3) row rows(3)] con.cas_invar created(3)
    by simp_all
  have "has_agreement (?s' t t') (n_ProviderPID n) OriginAgreed (c_DatasetID m) cpid (c_CounterpartyID m)" for t t'
    using created(2) by (simp add: has_agreement_def statement_frames)
  then show ?thesis
    using message(2,3) rows(2,3) cpid created(1) moved enforceable
    by (simp add: handleAgreement_def lookupConsumer_def con.get_ok refuseIfNotParty_def
        agreement_wire.decode_body_sent [OF message(1)] checkEnvelope_def agreementLegalFrom_def WriteHeader_def
        buildAgreementMessage_def message(4) statement_frames undisturbed_def Let_def) blast
qed

lemma agreement_recorded_facts:
  assumes "store_wf s" and "find_negotiation pid s = Some n" and "n_State n \<in> set allowed"
    and "find_agreement (a_AgreementID ag) s = None"
  shows "find_agreement (a_AgreementID ag) (snd (CreateAgreementIfNegotiationAgreed pid allowed ag IoOk s)) = Some ag"
    and "negotiations (snd (CreateAgreementIfNegotiationAgreed pid allowed ag IoOk s)) = negotiations s"
    and "store_wf (snd (CreateAgreementIfNegotiationAgreed pid allowed ag IoOk s))"
proof -
  obtain s' where s': "CreateAgreementIfNegotiationAgreed pid allowed ag IoOk s = (Inr (True, n_State n), s')"
    "negotiations s' = negotiations s" "find_agreement (a_AgreementID ag) s' = Some ag"
    using agreement_recorded [OF assms(2-4)] by blast
  moreover have "store_wf (snd (CreateAgreementIfNegotiationAgreed pid allowed ag IoOk s))"
    using assms(1) distinct_insert_row [of a_AgreementID ag "agreements s"]
    by (auto simp: CreateAgreementIfNegotiationAgreed_def store_wf_def split: option.split)
  ultimately show "find_agreement (a_AgreementID ag) (snd (CreateAgreementIfNegotiationAgreed pid allowed ag IoOk s)) = Some ag"
    "negotiations (snd (CreateAgreementIfNegotiationAgreed pid allowed ag IoOk s)) = negotiations s"
    "store_wf (snd (CreateAgreementIfNegotiationAgreed pid allowed ag IoOk s))" by simp_all
qed

text \<open>A push of the provider that is acknowledged, and the state it stores.\<close>

lemma always_pushAndStore:
  assumes sides: "knows T P C" "knows T C P"
    and n: "n_CounterpartyID n = ParticipantID (cn_cfg C)"
      "path_at C (n_CallbackAddress n @ cb (n_ConsumerPID n)) = Some path"
    and receiver: "\<And>tok. credential T P C tok \<Longrightarrow> always T F (protocol_router C ''POST'' path
        (arriving (post (n_CallbackAddress n @ cb (n_ConsumerPID n)) msg (''Bearer '' @ tok)))) w
      (\<lambda>rs new w'. rs = [Reply StatusOK None] \<and> (\<forall>t. T t \<longrightarrow> always_talk T F C k
        (v\<lparr>db := snd (SetState (n_ProviderPID n) (n_State n) st t IoOk (db v))\<rparr>) w' (\<lambda>xs ys. Q xs (new @ ys))))"
  shows "always_talk T F C (pushAndStore (newHandler P) n st cb msg k) v w Q"
  unfolding pushAndStore_def Let_def n(1) always_talk.simps if_not_P simp_thms if_False
  by (rule always_push [OF sides n(2)], rule always_mono [OF receiver]) (simp_all add: status_defs)

lemma always_dispatch_agree:
  assumes sides: "one_moment T" "knows T C P" "knows T P C"
    and n: "asked_by C cpid d n" "n_State n = StateRequested" "segment cpid"
      "find_negotiation (n_ProviderPID n) (db v) = Some n" "store_wf (db v)"
      "find_agreement (n_ProviderPID n) (db v) = None"
    and years: "\<And>ds t. findConfiguredDataset (cn_cfg P) d = Some ds \<Longrightarrow> d_ValidityUntil ds = Some t \<Longrightarrow>
      four_digit_year t"
    and m: "store_wf (db w)" "find_consumer cpid (db w) = Some m" "c_State m = StateRequested"
      "c_DatasetID m = d" "c_CounterpartyID m = ParticipantID (cn_cfg P)"
      "find_agreement (n_ProviderPID n) (db w) = None"
  shows "always_talk T F C (dispatch (newHandler P) n outcomeAgree) v w (\<lambda>xs ys v' w'. xs = [] \<and>
    ys = [reactToAgreement (newHandler C) (m\<lparr>c_State := StateAgreed\<rparr>) False False] \<and>
    store_wf (db w') \<and> undisturbed w w' \<and> negotiations (db w') = negotiations (db w) \<and>
    has_agreement (db w') (n_ProviderPID n) OriginAgreed d cpid (ParticipantID (cn_cfg P)) \<and>
    (\<exists>t. find_consumer cpid (db w') = Some (m\<lparr>c_State := StateAgreed, c_UpdatedAt := t\<rparr>)) \<and>
    store_wf (db v') \<and> undisturbed v v' \<and>
    has_agreement (db v') (n_ProviderPID n) OriginNegotiated d cpid (ParticipantID (cn_cfg C)) \<and>
    (\<exists>t. find_negotiation (n_ProviderPID n) (db v') = Some (n\<lparr>n_State := StateAgreed, n_UpdatedAt := t\<rparr>)))"
proof -
  have n': "n_ConsumerPID n = cpid" "n_DatasetID n = d" "n_CounterpartyID n = ParticipantID (cn_cfg C)"
    "n_CallbackAddress n = PublicURL (cn_cfg C) @ VersionPath"
    using n(1) by (simp_all add: asked_by_def)
  let ?url = "n_CallbackAddress n @ agreementCallbackPath (n_ConsumerPID n)"
  have path: "path_at C ?url = Some [''2025-1'', ''negotiations'', cpid, ''agreement'']"
    using path_at_public [of C "''negotiations/'' @ cpid @ ''/agreement''"] negotiation_paths(2) [OF n(3)]
    by (simp add: n' agreementCallbackPath_def)
  let ?v = "\<lambda>t. snd (SetState (n_ProviderPID n) StateRequested StateAgreed t IoOk (db v))"
  let ?row = "\<lambda>t. n\<lparr>n_State := StateAgreed, n_UpdatedAt := t\<rparr>"
  have stored: "find_negotiation (n_ProviderPID n) (?v t) = Some (?row t)" "store_wf (?v t)" for t
    using neg.cas_lookup [OF n(5,4,2)] neg.cas_invar [OF n(5)] by simp_all
  let ?allowed = "[StateAgreed, StateVerified, StateFinalized]"
  let ?ag = "\<lambda>u. \<lparr>a_AgreementID = n_ProviderPID n, a_DatasetID = d, a_ConsumerPID = cpid, a_Origin = OriginNegotiated,
    a_CounterpartyID = ParticipantID (cn_cfg C), a_CreatedAt = u\<rparr>"
  let ?s = "\<lambda>t u. snd (CreateAgreementIfNegotiationAgreed (n_ProviderPID n) ?allowed (?ag u) IoOk (?v t))"
  have recorded: "has_agreement (?s t u) (n_ProviderPID n) OriginNegotiated d cpid (ParticipantID (cn_cfg C))"
    "find_negotiation (n_ProviderPID n) (?s t u) = Some (?row t)" "store_wf (?s t u)" for t u
    using agreement_recorded_facts [OF stored(2,1), where allowed = ?allowed and ag = "?ag u"] n(6) stored(1)
    by (simp_all add: has_agreement_def SetState_agreements)
  have received: "always T F (protocol_router C ''POST'' [''2025-1'', ''negotiations'', cpid, ''agreement'']
      (arriving (post ?url (DAgreement (buildAgreementMessage (cn_cfg P) mid now n)) (''Bearer '' @ tok)))) w
    (\<lambda>rs gs w'. rs = [Reply StatusOK None] \<and>
      gs = [reactToAgreement (newHandler C) (m\<lparr>c_State := StateAgreed\<rparr>) False False] \<and>
      store_wf (db w') \<and> undisturbed w w' \<and> negotiations (db w') = negotiations (db w) \<and>
      has_agreement (db w') (n_ProviderPID n) OriginAgreed d cpid (ParticipantID (cn_cfg P)) \<and>
      (\<exists>t. find_consumer cpid (db w') = Some (m\<lparr>c_State := StateAgreed, c_UpdatedAt := t\<rparr>)))"
    if "credential T P C tok" for tok mid now
    by (intro always_authenticated [OF sides(1,2) that])
      (use always_handleAgreement [where P = P and mid = mid and now = now and n = n and m = m, OF _ _ _ _ _ m(1,2,3,6)]
         years n' m(4,5) in \<open>simp_all add: negotiation_routes n(3) arriving_def post_def\<close>)
  show ?thesis
    unfolding dispatch_def
    by (simp add: outcome_defs n(2) n')
      (intro allI impI always_pushAndStore [where n = n and cb = agreementCallbackPath, OF sides(3,2) n'(3) path],
        rule always_mono [OF received], assumption, auto simp: n(2) n' recorded undisturbed_def)
qed

section \<open>The verification\<close>

abbreviation finalizing :: "connector \<Rightarrow> string \<Rightarrow> Negotiation \<Rightarrow> prog" where
  "finalizing P mid n \<equiv> pushAndStore (newHandler P) n StateFinalized eventCallbackPath
     (DEvent (buildFinalizedEventMessage mid n)) Done"

lemma always_handleVerification:
  assumes message: "rq_Body r = Some (json_of_VerificationMessage (buildVerificationMessage mid m))"
      "rq_ID r = pid" "rq_Issuer r = n_CounterpartyID n"
    and kept: "\<And>ds. findConfiguredDataset (cn_cfg P) (n_DatasetID n) = Some ds \<Longrightarrow> \<not> d_TerminateOnVerify ds"
    and rows: "store_wf (db v)" "find_negotiation pid (db v) = Some n" "n_State n = StateAgreed"
  shows "always T F (handleVerification (newHandler P) r) v (\<lambda>rs gs v'. rs = [Reply StatusOK None] \<and>
    (\<exists>mid'. gs = [finalizing P mid' (n\<lparr>n_State := StateVerified\<rparr>)]) \<and>
    (\<exists>t. v' = v\<lparr>db := snd (SetState pid StateAgreed StateVerified t IoOk (db v))\<rparr>))"
proof -
  have pid: "n_ProviderPID n = pid" using select_row_key [OF rows(2)] .
  have "(case findConfiguredDataset (cn_cfg P) (n_DatasetID n) of
      None \<Rightarrow> False | Some ds \<Rightarrow> d_TerminateOnVerify ds) = False"
    using kept by (simp split: option.split)
  then show ?thesis
    using message(2,3) rows(2,3) pid neg.cas_hit [OF rows]
    by (auto simp: handleVerification_def lookup_def neg.get_ok refuseIfNotParty_def WriteHeader_def
        verification_wire.decode_body_sent [OF message(1)] checkEnvelope_def buildVerificationMessage_def Let_def)
qed

lemma always_reactToAgreement:
  assumes sides: "one_moment T" "knows T C P" "knows T P C"
    and m: "asked_of P d m" "c_State m = StateAgreed" "c_ProviderPID m = pid" "segment pid"
      "store_wf (db w)" "find_consumer (c_ConsumerPID m) (db w) = Some m'" "c_State m' = StateAgreed"
    and policy: "p_OnAgreement (resolvePolicy (cn_cfg C) d) = ''verify''"
    and kept: "\<And>ds. findConfiguredDataset (cn_cfg P) d = Some ds \<Longrightarrow> \<not> d_TerminateOnVerify ds"
    and n: "store_wf (db v)" "find_negotiation pid (db v) = Some n" "n_State n = StateAgreed"
      "n_CounterpartyID n = ParticipantID (cn_cfg C)" "n_DatasetID n = d"
  shows "always_talk T F P (reactToAgreement (newHandler C) m False False) w v (\<lambda>xs ys w' v'. xs = [] \<and>
    (\<exists>mid. ys = [finalizing P mid (n\<lparr>n_State := StateVerified\<rparr>)]) \<and>
    (\<exists>t. v' = v\<lparr>db := snd (SetState pid StateAgreed StateVerified t IoOk (db v))\<rparr>) \<and>
    (\<exists>t. w' = w\<lparr>db := snd (SetConsumerState (c_ConsumerPID m) StateAgreed StateVerified t IoOk (db w))\<rparr>))"
proof -
  have m': "c_ProviderBaseURL m = PublicURL (cn_cfg P) @ VersionPath" "c_DatasetID m = d"
    "c_CounterpartyID m = ParticipantID (cn_cfg P)" "c_ProviderPID m \<noteq> ''''"
    using m(1,3,4) by (auto simp: asked_of_def segment_def)
  let ?url = "c_ProviderBaseURL m @ consumerPath (c_ProviderPID m) ''/agreement/verification''"
  have path: "path_at P ?url = Some [''2025-1'', ''negotiations'', pid, ''agreement'', ''verification'']"
    using path_at_public [of P "''negotiations/'' @ pid @ ''/agreement/verification''"] negotiation_paths(3) [OF m(4)]
    by (simp add: m' m(3) consumerPath_def)
  have received: "always T F (protocol_router P ''POST'' [''2025-1'', ''negotiations'', pid, ''agreement'', ''verification'']
      (arriving (post ?url (DVerification (buildVerificationMessage mid m)) (''Bearer '' @ tok)))) v
    (\<lambda>rs gs v'. rs = [Reply StatusOK None] \<and> (\<exists>mid'. gs = [finalizing P mid' (n\<lparr>n_State := StateVerified\<rparr>)]) \<and>
      (\<exists>t. v' = v\<lparr>db := snd (SetState pid StateAgreed StateVerified t IoOk (db v))\<rparr>))"
    if "credential T C P tok" for tok mid
    by (intro always_authenticated [OF sides(1,3) that])
      (use always_handleVerification [where P = P and mid = mid and m = m, OF _ _ _ _ n(1-3)]
         kept n(4,5) in \<open>simp_all add: negotiation_routes m(4) arriving_def post_def\<close>)
  show ?thesis
    using m'(4) policy
    by (simp add: reactToAgreement_def resolveProviderPID_def decideAgreementReaction_def sendVerification_def
        m'(2,3) Let_def)
      (intro allI impI always_push [OF sides(2,3) path],
        rule always_mono [OF received], assumption, auto simp: m(2) status_defs)
qed

section \<open>The event\<close>

lemma always_handleEvent:
  assumes message: "rq_Body r = Some (json_of_EventMessage (buildFinalizedEventMessage mid n))"
      "rq_ID r = cpid" "rq_Issuer r = c_CounterpartyID m"
    and rows: "store_wf (db w)" "find_consumer cpid (db w) = Some m" "c_State m = StateVerified"
      "find_negotiation cpid (db w) = None"
  shows "always T F (handleEvent (newHandler C) r) w (\<lambda>rs gs w'. rs = [Reply StatusOK None] \<and> gs = [] \<and>
    (\<exists>t. w' = w\<lparr>db := snd (SetConsumerState cpid StateVerified StateFinalized t IoOk (db w))\<rparr>))"
proof -
  have cpid: "c_ConsumerPID m = cpid" using select_row_key [OF rows(2)] .
  show ?thesis
    using message(2,3) rows(2-4) cpid con.cas_hit [OF rows(1-3)]
    by (auto simp: handleEvent_def byRole_def neg.get_ok con.get_ok handleConsumerFinalizedEvent_def
        refuseIfNotParty_def WriteHeader_def event_wire.decode_body_sent [OF message(1)] checkEnvelope_def
        buildFinalizedEventMessage_def finalizedEventLegalFrom_def)
qed

lemma always_finalizing:
  assumes sides: "one_moment T" "knows T C P" "knows T P C"
    and n: "asked_by C cpid d n" "n_State n = StateVerified" "segment cpid"
    and m: "store_wf (db w)" "find_consumer cpid (db w) = Some m" "c_State m = StateVerified"
      "c_CounterpartyID m = ParticipantID (cn_cfg P)" "find_negotiation cpid (db w) = None"
  shows "always_talk T F C (finalizing P mid n) v w (\<lambda>xs ys v' w'. xs = [] \<and> ys = [] \<and>
    (\<exists>t. v' = v\<lparr>db := snd (SetState (n_ProviderPID n) StateVerified StateFinalized t IoOk (db v))\<rparr>) \<and>
    (\<exists>t. w' = w\<lparr>db := snd (SetConsumerState cpid StateVerified StateFinalized t IoOk (db w))\<rparr>))"
proof -
  have n': "n_ConsumerPID n = cpid" "n_CounterpartyID n = ParticipantID (cn_cfg C)"
    "n_CallbackAddress n = PublicURL (cn_cfg C) @ VersionPath"
    using n(1) by (simp_all add: asked_by_def)
  let ?url = "n_CallbackAddress n @ eventCallbackPath (n_ConsumerPID n)"
  have path: "path_at C ?url = Some [''2025-1'', ''negotiations'', cpid, ''events'']"
    using path_at_public [of C "''negotiations/'' @ cpid @ ''/events''"] negotiation_paths(4) [OF n(3)]
    by (simp add: n' eventCallbackPath_def)
  have received: "always T F (protocol_router C ''POST'' [''2025-1'', ''negotiations'', cpid, ''events'']
      (arriving (post ?url (DEvent (buildFinalizedEventMessage mid n)) (''Bearer '' @ tok)))) w
    (\<lambda>rs gs w'. rs = [Reply StatusOK None] \<and> gs = [] \<and>
      (\<exists>t. w' = w\<lparr>db := snd (SetConsumerState cpid StateVerified StateFinalized t IoOk (db w))\<rparr>))"
    if "credential T P C tok" for tok
    by (intro always_authenticated [OF sides(1,2) that])
      (use always_handleEvent [where mid = mid and n = n, OF _ _ _ m(1-3,5)]
         m(4) in \<open>simp_all add: negotiation_routes n(3) arriving_def post_def\<close>)
  show ?thesis
    by (intro always_pushAndStore [where n = n and cb = eventCallbackPath, OF sides(3,2) n'(2) path])
      (rule always_mono [OF received], assumption, auto simp: n(2))
qed

section \<open>The whole negotiation\<close>

text \<open>Both sides have concluded the contract.\<close>

definition concluded :: "connector \<Rightarrow> connector \<Rightarrow> string \<Rightarrow> string \<Rightarrow> string \<Rightarrow> store \<Rightarrow> store \<Rightarrow> bool" where
  "concluded C P d cpid pid s s' \<longleftrightarrow>
     (\<exists>m. find_consumer cpid s = Some m \<and> c_State m = StateFinalized \<and> c_ProviderPID m = pid \<and>
        c_DatasetID m = d \<and> c_CounterpartyID m = ParticipantID (cn_cfg P)) \<and>
     (\<exists>n. find_negotiation pid s' = Some n \<and> n_State n = StateFinalized \<and> n_ConsumerPID n = cpid \<and>
        n_DatasetID n = d \<and> n_CounterpartyID n = ParticipantID (cn_cfg C)) \<and>
     has_agreement s pid OriginAgreed d cpid (ParticipantID (cn_cfg P)) \<and>
     has_agreement s' pid OriginNegotiated d cpid (ParticipantID (cn_cfg C))"

lemma has_agreement_frames [simp]:
  "has_agreement (snd (SetConsumerState k st to at i s)) = has_agreement s"
  "has_agreement (snd (SetState k st to at i s)) = has_agreement s"
  by (auto simp: has_agreement_def statement_frames SetState_agreements fun_eq_iff)

lemma always_dialogue_mono:
  "always_dialogue T F n X Y x y R \<Longrightarrow> (\<And>z. R z \<Longrightarrow> R' z) \<Longrightarrow> always_dialogue T F n X Y x y R'"
  unfolding always_dialogue_def by blast

lemma always_dialogueD:
  "always_dialogue T F n X Y x y R \<Longrightarrow> (\<And>k i. smooth T F (a k i)) \<Longrightarrow> (\<And>k j i. smooth T F (b k j i)) \<Longrightarrow>
     R (dialogue n X Y a b x y)"
  by (simp add: always_dialogue_def)

text \<open>A negotiation that started from two worlds is over: no work is left, and it is all that has changed.\<close>

definition settled :: "world \<Rightarrow> world \<Rightarrow> bool" where
  "settled w w' \<longleftrightarrow> store_wf (db w') \<and> undisturbed w w'"

definition concludes :: "connector \<Rightarrow> connector \<Rightarrow> string \<Rightarrow> string \<Rightarrow> string \<Rightarrow> world \<Rightarrow> world \<Rightarrow>
    (world \<times> prog list) \<times> (world \<times> prog list) \<Rightarrow> bool" where
  "concludes C P d cpid pid w v = (\<lambda>((w', xs), (v', ys)). xs = [] \<and> ys = [] \<and>
     concluded C P d cpid pid (db w') (db v') \<and> settled w w' \<and> settled v v')"

lemma concludes_from:
  assumes "always_dialogue T F n C P x y (concludes C P d cpid pid w1 v1)"
    and "undisturbed w w1" and "undisturbed v v1"
  shows "always_dialogue T F n C P x y (concludes C P d cpid pid w v)"
  by (rule always_dialogue_mono [OF assms(1)])
    (use assms(2,3) in \<open>auto simp: concludes_def settled_def intro: undisturbed_trans\<close>)

lemma finalizing_concludes:
  assumes sides: "one_moment T" "knows T C P" "knows T P C"
    and n: "asked_by C cpid d n" "n_State n = StateVerified" "segment cpid"
      "find_negotiation (n_ProviderPID n) (db v) = Some n'" "n_State n' = StateVerified" "asked_by C cpid d n'"
      "store_wf (db v)"
    and m: "store_wf (db w)" "find_consumer cpid (db w) = Some m" "c_State m = StateVerified" "asked_of P d m"
      "c_ProviderPID m = n_ProviderPID n" "find_negotiation cpid (db w) = None"
    and agreed: "has_agreement (db w) (n_ProviderPID n) OriginAgreed d cpid (ParticipantID (cn_cfg P))"
      "has_agreement (db v) (n_ProviderPID n) OriginNegotiated d cpid (ParticipantID (cn_cfg C))"
  shows "always_dialogue T F (Suc 0) C P (w, []) (v, [finalizing P mid n])
    (concludes C P d cpid (n_ProviderPID n) w v)"
proof (rule always_dialogue_far)
  have party: "c_CounterpartyID m = ParticipantID (cn_cfg P)" using m(4) by (simp add: asked_of_def)
  have "find_negotiation (n_ProviderPID n) (snd (SetState (n_ProviderPID n) StateVerified StateFinalized t IoOk (db v))) =
      Some (n'\<lparr>n_State := StateFinalized, n_UpdatedAt := t\<rparr>)"
    "find_consumer cpid (snd (SetConsumerState cpid StateVerified StateFinalized t IoOk (db w))) =
      Some (m\<lparr>c_State := StateFinalized, c_UpdatedAt := t\<rparr>)" for t
    using neg.cas_lookup [OF n(7,4,5), of IoOk] con.cas_lookup [OF m(1,2,3), of IoOk] by simp_all
  then have closed: "concluded C P d cpid (n_ProviderPID n)
      (snd (SetConsumerState cpid StateVerified StateFinalized t IoOk (db w)))
      (snd (SetState (n_ProviderPID n) StateVerified StateFinalized t' IoOk (db v)))" for t t'
    using agreed n(6) m(4,5) by (simp add: concluded_def asked_by_def asked_of_def)
  show "always_talk T F C (finalizing P mid n) v w (\<lambda>xs ys v' w'.
      always_dialogue T F 0 C P (w', ys) (v', [] @ xs)
        (concludes C P d cpid (n_ProviderPID n) w v))"
    by (rule always_talk_mono [OF always_finalizing [OF sides n(1-3) m(1-3) party m(6)]])
      (auto simp: concludes_def settled_def undisturbed_def con.cas_invar [OF m(1)] neg.cas_invar [OF n(7)]
        intro!: always_dialogue_end closed)
qed

lemma verification_concludes:
  assumes sides: "one_moment T" "knows T C P" "knows T P C"
    and m: "asked_of P d m" "c_State m = StateAgreed" "c_ProviderPID m = n_ProviderPID n" "segment (c_ConsumerPID m)"
      "store_wf (db w)" "find_consumer (c_ConsumerPID m) (db w) = Some m'" "c_State m' = StateAgreed"
      "asked_of P d m'" "c_ProviderPID m' = n_ProviderPID n" "find_negotiation (c_ConsumerPID m) (db w) = None"
    and policy: "p_OnAgreement (resolvePolicy (cn_cfg C) d) = ''verify''"
    and kept: "\<And>ds. findConfiguredDataset (cn_cfg P) d = Some ds \<Longrightarrow> \<not> d_TerminateOnVerify ds"
    and n: "store_wf (db v)" "find_negotiation (n_ProviderPID n) (db v) = Some n" "n_State n = StateAgreed"
      "asked_by C (c_ConsumerPID m) d n" "segment (n_ProviderPID n)"
    and agreed: "has_agreement (db w) (n_ProviderPID n) OriginAgreed d (c_ConsumerPID m) (ParticipantID (cn_cfg P))"
      "has_agreement (db v) (n_ProviderPID n) OriginNegotiated d (c_ConsumerPID m) (ParticipantID (cn_cfg C))"
  shows "always_dialogue T F (Suc (Suc 0)) C P (w, [reactToAgreement (newHandler C) m False False]) (v, [])
    (concludes C P d (c_ConsumerPID m) (n_ProviderPID n) w v)"
proof (rule always_dialogue_near)
  let ?cpid = "c_ConsumerPID m" and ?pid = "n_ProviderPID n" and ?n = "n\<lparr>n_State := StateVerified\<rparr>"
  have n': "n_CounterpartyID n = ParticipantID (cn_cfg C)" "n_DatasetID n = d"
    using n(4) by (simp_all add: asked_by_def)
  note verified = always_reactToAgreement [OF sides m(1-3) n(5) m(5-7) policy kept n(1-3) n']
  have rest: "always_dialogue T F (Suc 0) C P
      (w\<lparr>db := snd (SetConsumerState ?cpid StateAgreed StateVerified t IoOk (db w))\<rparr>, [])
      (v\<lparr>db := snd (SetState ?pid StateAgreed StateVerified t' IoOk (db v))\<rparr>, [finalizing P mid ?n])
      (concludes C P d ?cpid (n_ProviderPID ?n) w v)"
    for t t' mid
  proof (rule concludes_from [OF finalizing_concludes], rule sides, rule sides, rule sides)
    show "find_negotiation (n_ProviderPID ?n)
        (db (v\<lparr>db := snd (SetState ?pid StateAgreed StateVerified t' IoOk (db v))\<rparr>)) =
        Some (n\<lparr>n_State := StateVerified, n_UpdatedAt := t'\<rparr>)"
      using neg.cas_lookup [OF n(1-3), of IoOk] by simp
    show "find_consumer ?cpid
        (db (w\<lparr>db := snd (SetConsumerState ?cpid StateAgreed StateVerified t IoOk (db w))\<rparr>)) =
        Some (m'\<lparr>c_State := StateVerified, c_UpdatedAt := t\<rparr>)"
      using con.cas_lookup [OF m(5-7), of IoOk] by simp
  qed (use n m agreed in \<open>simp_all add: undisturbed_def asked_by_def asked_of_def neg.cas_invar con.cas_invar statement_frames\<close>)
  show "always_talk T F P (reactToAgreement (newHandler C) m False False) w v (\<lambda>xs ys w' v'.
      always_dialogue T F (Suc 0) C P (w', [] @ xs) (v', [] @ ys)
        (concludes C P d ?cpid ?pid w v))"
    by (rule always_talk_mono [OF verified]) (use rest in auto)
qed

lemma agreement_concludes:
  assumes sides: "one_moment T" "knows T C P" "knows T P C"
    and n: "asked_by C (c_ConsumerPID m) d n" "n_State n = StateRequested" "segment (n_ProviderPID n)"
      "find_negotiation (n_ProviderPID n) (db v) = Some n" "store_wf (db v)"
      "find_agreement (n_ProviderPID n) (db v) = None"
    and offer: "\<And>ds. findConfiguredDataset (cn_cfg P) d = Some ds \<Longrightarrow> \<not> d_TerminateOnVerify ds"
      "\<And>ds t. findConfiguredDataset (cn_cfg P) d = Some ds \<Longrightarrow> d_ValidityUntil ds = Some t \<Longrightarrow> four_digit_year t"
    and policy: "p_OnAgreement (resolvePolicy (cn_cfg C) d) = ''verify''"
    and m: "store_wf (db w)" "find_consumer (c_ConsumerPID m) (db w) = Some m" "c_State m = StateRequested"
      "asked_of P d m" "c_ProviderPID m = n_ProviderPID n" "segment (c_ConsumerPID m)"
      "find_agreement (n_ProviderPID n) (db w) = None" "find_negotiation (c_ConsumerPID m) (db w) = None"
  shows "always_dialogue T F (Suc (Suc (Suc 0))) C P (w, []) (v, [dispatch (newHandler P) n outcomeAgree])
    (concludes C P d (c_ConsumerPID m) (n_ProviderPID n) w v)"
proof (rule always_dialogue_far)
  let ?cpid = "c_ConsumerPID m" and ?pid = "n_ProviderPID n"
  have m': "c_DatasetID m = d" "c_CounterpartyID m = ParticipantID (cn_cfg P)"
    using m(4) by (simp_all add: asked_of_def)
  note agreed = always_dispatch_agree [OF sides n(1,2) m(6) n(4-6) offer(2) m(1-3) m' m(7)]
  have rest: "always_dialogue T F (Suc (Suc 0)) C P
      (w', [reactToAgreement (newHandler C) (m\<lparr>c_State := StateAgreed\<rparr>) False False]) (v', [])
      (concludes C P d ?cpid ?pid w v)"
    if "store_wf (db w')" "undisturbed w w'" "undisturbed v v'" "negotiations (db w') = negotiations (db w)"
      "has_agreement (db w') ?pid OriginAgreed d ?cpid (ParticipantID (cn_cfg P))"
      "find_consumer ?cpid (db w') = Some (m\<lparr>c_State := StateAgreed, c_UpdatedAt := t\<rparr>)" "store_wf (db v')"
      "has_agreement (db v') ?pid OriginNegotiated d ?cpid (ParticipantID (cn_cfg C))"
      "find_negotiation ?pid (db v') = Some (n\<lparr>n_State := StateAgreed, n_UpdatedAt := t'\<rparr>)" for w' v' t t'
    using concludes_from [OF verification_concludes [OF sides, where d = d and m = "m\<lparr>c_State := StateAgreed\<rparr>"
        and m' = "m\<lparr>c_State := StateAgreed, c_UpdatedAt := t\<rparr>" and w = w' and v = v'
        and n = "n\<lparr>n_State := StateAgreed, n_UpdatedAt := t'\<rparr>"], of w v]
      that n(1,3) m(4-6,8) offer(1) policy
    by (simp add: asked_of_def asked_by_def)
  show "always_talk T F C (dispatch (newHandler P) n outcomeAgree) v w (\<lambda>xs ys v' w'.
      always_dialogue T F (Suc (Suc 0)) C P (w', ys) (v', [] @ xs)
        (concludes C P d ?cpid ?pid w v))"
    by (rule always_talk_mono [OF agreed]) (use rest in auto)
qed

lemma four_rounds: "(4 :: nat) = Suc (Suc (Suc (Suc 0)))"
  by simp

lemma negotiation_concludes:
  assumes sides: "one_moment T" "knows T C P" "knows T P C"
    and offer: "findConfiguredDataset (cn_cfg P) d = Some ds" "\<And>t. T t \<Longrightarrow> isValid ds t" "d \<noteq> ''''"
      "\<not> d_TerminateOnVerify ds" "\<And>t. d_ValidityUntil ds = Some t \<Longrightarrow> four_digit_year t"
    and policy: "p_OnIdle (resolvePolicy (cn_cfg C) d) \<noteq> ''abandon''"
      "p_OnAgreement (resolvePolicy (cn_cfg C) d) = ''verify''"
    and new: "\<And>u. F u \<Longrightarrow> segment u \<and> find_negotiation u (db w) = None \<and> find_agreement u (db w) = None \<and>
        find_negotiation u (db v) = None \<and> find_agreement u (db v) = None"
      "store_wf (db w)" "store_wf (db v)"
    and m: "asked_of P d m" "c_State m = StateRequested" "F (c_ConsumerPID m)"
      "find_consumer (c_ConsumerPID m) (db w) = Some m"
  shows "always_dialogue T F 4 C P (w, [startNegotiation (newHandler C) m]) (v, [])
    (\<lambda>z. \<exists>pid. F pid \<and> concludes C P d (c_ConsumerPID m) pid w v z)"
  unfolding four_rounds
proof (rule always_dialogue_near)
  let ?cpid = "c_ConsumerPID m"
  have cpid: "segment ?cpid" "?cpid \<noteq> ''''" "find_negotiation ?cpid (db w) = None"
    using new(1) [OF m(3)] by (auto simp: segment_def)
  have fresh: "segment u \<and> find_negotiation u (db v) = None" if "F u" for u using new(1) [OF that] by blast
  note asked = always_startNegotiation [OF sides offer(1-3) policy(1) fresh new(3) m(1) cpid(2) new(2) m(4)]
  let ?R = "\<lambda>z. \<exists>pid. F pid \<and> concludes C P d ?cpid pid w v z"
  have rest: "always_dialogue T F (Suc (Suc (Suc 0))) C P
      (w\<lparr>db := snd (SetConsumerProviderPID ?cpid (n_ProviderPID n) t IoOk (db w))\<rparr>, [])
      (v\<lparr>db := snd (Create n IoOk (db v))\<rparr>, [dispatch (newHandler P) n outcomeAgree]) ?R"
    if n: "asked_by C ?cpid d n" "n_State n = StateRequested" "F (n_ProviderPID n)" for n t
  proof -
    let ?m = "m\<lparr>c_ProviderPID := n_ProviderPID n, c_UpdatedAt := t\<rparr>"
    have "always_dialogue T F (Suc (Suc (Suc 0))) C P
        (w\<lparr>db := snd (SetConsumerProviderPID ?cpid (n_ProviderPID n) t IoOk (db w))\<rparr>, [])
        (v\<lparr>db := snd (Create n IoOk (db v))\<rparr>, [dispatch (newHandler P) n outcomeAgree])
        (concludes C P d (c_ConsumerPID ?m) (n_ProviderPID n) w v)"
      using new(1) [OF n(3)] new(2,3) m offer(1,4,5) policy(2) cpid n
      by (intro concludes_from [OF agreement_concludes [OF sides]])
        (auto simp: undisturbed_def asked_of_def statement_frames Create_agreements provider_pid_recorded
          neg.create_lookup neg.create_invar)
    then show ?thesis by (rule always_dialogue_mono) (use n(3) in auto)
  qed
  show "always_talk T F P (startNegotiation (newHandler C) m) w v (\<lambda>xs ys w' v'.
      always_dialogue T F (Suc (Suc (Suc 0))) C P (w', [] @ xs) (v', [] @ ys) ?R)"
    by (rule always_talk_mono [OF asked]) (use rest in auto)
qed

lemma dialogue_of_initiated:
  assumes "run p a0 w = (evs, [g], w1)" and "message C p"
    and "dialogue n C P a b (w1, [g]) (v, []) = ((w2, xs), (v2, ys))"
  shows "\<exists>ps' tr' qs' sr'. reachable (message C) (w, ps, tr) (w2, ps', tr') \<and>
    reachable (message P) (v, qs, sr) (v2, qs', sr')"
proof -
  have "reachable (message C) (w, ps, tr) (w1, ps @ Done # [g], tr @ evs)"
    by (rule request_reaches [OF assms(2,1)])
  moreover have "\<exists>ps' tr' qs' sr'. reachable (message C) (w1, ps @ Done # [g], tr @ evs) (w2, ps', tr') \<and>
      reachable (message P) (v, qs, sr) (v2, qs', sr')"
    using dialogue_history [OF assms(3), of "ps @ Done # [g]" qs "tr @ evs" sr] by auto
  ultimately show ?thesis by (meson reachable_trans)
qed

text \<open>The exchange, with what it leaves alone; its environment and its result are those of the theorem below.\<close>

lemma contract_exchange:
  assumes sides: "one_moment T" "knows T C P" "knows T P C"
    and operator: "rq_Authorization r = ''Bearer '' @ MgmtToken (cn_cfg C)" "MgmtToken (cn_cfg C) \<noteq> ''''"
      "decode (dec_struct initiateRequestBody_fields) zero_initiateRequestBody (rq_Body r) = Some body"
      "ib_ProviderID body = ParticipantID (cn_cfg P)" "ib_DatasetID body = d" "d \<noteq> ''''"
      "ib_OfferID body = d @ offerIDSuffix" "ib_ConnectorAddress body \<noteq> ''''"
    and offer: "findConfiguredDataset (cn_cfg P) d = Some ds" "\<And>t. T t \<Longrightarrow> isValid ds t"
      "\<not> d_TerminateOnVerify ds" "\<And>t. d_ValidityUntil ds = Some t \<Longrightarrow> four_digit_year t"
    and policy: "p_OnIdle (resolvePolicy (cn_cfg C) d) \<noteq> ''abandon''"
      "p_OnAgreement (resolvePolicy (cn_cfg C) d) = ''verify''"
    and stores: "store_wf (db w)" "store_wf (db v)"
      "\<And>u. F u \<Longrightarrow> segment u \<and> find_consumer u (db w) = None \<and> find_negotiation u (db w) = None \<and>
        find_agreement u (db w) = None \<and> find_negotiation u (db v) = None \<and> find_agreement u (db v) = None"
    and answers: "\<And>i. smooth T F (ask i)" "\<And>k i. smooth T F (a k i)" "\<And>k j i. smooth T F (b k j i)"
  shows "\<exists>evs g w1 w2 v2 cpid pid.
    run (management_router C ''POST'' [''negotiations'', ''initiate''] r) ask w = (evs, [g], w1) \<and>
    answered evs = [Reply StatusOK None] \<and>
    dialogue 4 C P a b (w1, [g]) (v, []) = ((w2, []), (v2, [])) \<and> F pid \<and>
    concluded C P d cpid pid (db w2) (db v2) \<and> settled w w2 \<and> settled v v2"
proof -
  let ?p = "management_router C ''POST'' [''negotiations'', ''initiate''] r"
  obtain evs gs w1 where run: "run ?p ask w = (evs, gs, w1)" by (metis prod_cases3)
  have "\<And>u. F u \<Longrightarrow> find_consumer u (db w) = None" using stores(3) by blast
  from always_run [OF always_initiate [OF sides(2) operator this] answers(1) run]
  obtain m where m: "answered evs = [Reply StatusOK None]" "gs = [startNegotiation (newHandler C) m]"
    "F (c_ConsumerPID m)" "c_State m = StateRequested" "asked_of P d m"
    "w1 = w\<lparr>db := snd (CreateConsumer m IoOk (db w))\<rparr>" by blast
  have fresh: "segment u \<and> find_negotiation u (db w1) = None \<and> find_agreement u (db w1) = None \<and>
      find_negotiation u (db v) = None \<and> find_agreement u (db v) = None" if "F u" for u
    using stores(3) [OF that] by (simp add: m(6) statement_frames)
  have row: "store_wf (db w1)" "find_consumer (c_ConsumerPID m) (db w1) = Some m"
    using stores(1) stores(3) [OF m(3)] by (simp_all add: m(6) con.create_invar con.create_lookup)
  have "always_dialogue T F 4 C P (w1, [startNegotiation (newHandler C) m]) (v, [])
      (\<lambda>z. \<exists>pid. F pid \<and> concludes C P d (c_ConsumerPID m) pid w1 v z)"
    by (rule negotiation_concludes [where F = F and w = w1 and m = m, OF sides offer(1,2) operator(6) offer(3,4) policy fresh row(1) stores(2)
        m(5,4,3) row(2)])
  from always_dialogueD [OF this, of a b, OF answers(2,3)]
  obtain pid where "F pid" "concludes C P d (c_ConsumerPID m) pid w1 v (dialogue 4 C P a b (w1, gs) (v, []))"
    using m(2) by blast
  moreover obtain w2 xs v2 ys where "dialogue 4 C P a b (w1, gs) (v, []) = ((w2, xs), (v2, ys))" by (metis surj_pair)
  ultimately have end_state: "dialogue 4 C P a b (w1, gs) (v, []) = ((w2, []), (v2, []))" "F pid"
    "concluded C P d (c_ConsumerPID m) pid (db w2) (db v2)" "settled w1 w2" "settled v v2"
    by (simp_all add: concludes_def)
  have "settled w w2" using end_state(4) by (simp add: settled_def undisturbed_def m(6))
  then show ?thesis
    by (intro exI conjI) (rule run [unfolded m(2)], rule m(1), rule end_state(1) [unfolded m(2)],
      rule end_state(2), rule end_state(3), assumption, rule end_state(5))
qed

text \<open>
  C12. Two connectors that list each other conclude a contract: the operator of one asks for an
  offer the other advertises, and when the goroutines of both have taken their turns, in four of
  them, no work is left, both negotiations are FINALIZED, each names the other side, and both have
  recorded the same agreement on the dataset.  The exchange is one of the interleavings of either
  connector.
\<close>

theorem two_connectors_conclude_a_contract:
  assumes sides: "one_moment T" "knows T C P" "knows T P C"
    and operator: "rq_Authorization r = ''Bearer '' @ MgmtToken (cn_cfg C)" "MgmtToken (cn_cfg C) \<noteq> ''''"
      "decode (dec_struct initiateRequestBody_fields) zero_initiateRequestBody (rq_Body r) = Some body"
      "ib_ProviderID body = ParticipantID (cn_cfg P)" "ib_DatasetID body = d" "d \<noteq> ''''"
      "ib_OfferID body = d @ offerIDSuffix" "ib_ConnectorAddress body \<noteq> ''''"
    and offer: "findConfiguredDataset (cn_cfg P) d = Some ds" "\<And>t. T t \<Longrightarrow> isValid ds t"
      "\<not> d_TerminateOnVerify ds" "\<And>t. d_ValidityUntil ds = Some t \<Longrightarrow> four_digit_year t"
    and policy: "p_OnIdle (resolvePolicy (cn_cfg C) d) \<noteq> ''abandon''"
      "p_OnAgreement (resolvePolicy (cn_cfg C) d) = ''verify''"
    and stores: "store_wf (db w)" "store_wf (db v)"
      "\<And>u. F u \<Longrightarrow> segment u \<and> find_consumer u (db w) = None \<and> find_negotiation u (db w) = None \<and>
        find_agreement u (db w) = None \<and> find_negotiation u (db v) = None \<and> find_agreement u (db v) = None"
    and answers: "\<And>i. smooth T F (ask i)" "\<And>k i. smooth T F (a k i)" "\<And>k j i. smooth T F (b k j i)"
  shows "\<exists>evs g w1 w2 v2 cpid pid.
    run (management_router C ''POST'' [''negotiations'', ''initiate''] r) ask w = (evs, [g], w1) \<and>
    answered evs = [Reply StatusOK None] \<and>
    dialogue 4 C P a b (w1, [g]) (v, []) = ((w2, []), (v2, [])) \<and>
    concluded C P d cpid pid (db w2) (db v2) \<and>
    (\<exists>ps tr qs sr. reachable (message C) (w, [], []) (w2, ps, tr) \<and>
       reachable (message P) (v, [], []) (v2, qs, sr))"
proof -
  obtain evs g w1 w2 v2 cpid pid where exchange:
    "run (management_router C ''POST'' [''negotiations'', ''initiate''] r) ask w = (evs, [g], w1)"
    "answered evs = [Reply StatusOK None]" "dialogue 4 C P a b (w1, [g]) (v, []) = ((w2, []), (v2, []))"
    "concluded C P d cpid pid (db w2) (db v2)"
    using contract_exchange [where T = T and F = F and r = r and body = body and d = d and ds = ds and w = w and v = v
        and C = C and P = P and ask = ask and a = a and b = b] assms by metis
  have "message C (management_router C ''POST'' [''negotiations'', ''initiate''] r)" by (auto simp: message_def)
  from dialogue_of_initiated [OF exchange(1) this exchange(3), of "[]" "[]" "[]" "[]"]
  obtain ps tr qs sr where history: "reachable (message C) (w, [], []) (w2, ps, tr)"
    "reachable (message P) (v, [], []) (v2, qs, sr)" by (elim exE conjE)
  show ?thesis
    by (intro exI conjI) (rule exchange(1), rule exchange(2), rule exchange(3), rule exchange(4), rule history(1),
      rule history(2))
qed

section \<open>Two connectors of the examples\<close>

text \<open>Participants \<open>p\<close> and \<open>c\<close> list each other; a signature is the message reversed.\<close>

definition demo_claims :: "string \<Rightarrow> string \<Rightarrow> json" where
  "demo_claims iss aud = json_of_claims (claims_of_mint iss aud 0 credentialTTL)"

definition demo_peer :: "Config \<Rightarrow> connector" where
  "demo_peer cfg = \<lparr>cn_cfg = cfg,
     cn_roster = \<lparr>ro_keys = [''c'' \<mapsto> ''k'', ''p'' \<mapsto> ''k''],
       ro_addresses = [''c'' \<mapsto> ''http://c/2025-1'', ''p'' \<mapsto> ''http://p/2025-1''], ro_version = 1,
       ro_expiresAt = 1000000000000\<rparr>,
     cn_key = Some rev,
     cn_marshal = (\<lambda>j. if j = demo_claims ''c'' ''p'' then ''c'' else if j = demo_claims ''p'' ''c'' then ''p'' else ''h''),
     cn_unmarshal = (\<lambda>s. Some (if s = ''c'' then demo_claims ''c'' ''p'' else if s = ''p'' then demo_claims ''p'' ''c''
       else json_of_header jwt_header_of_mint)),
     cn_verify = (\<lambda>k m s. s = rev m)\<rparr>"

definition demo_provider :: connector where "demo_provider = demo_peer demo_cfg"

definition demo_consumer :: connector where
  "demo_consumer = demo_peer (demo_cfg\<lparr>PublicURL := ''http://c'', ParticipantID := ''c'', Datasets := []\<rparr>)"

definition demo_initiate :: request where
  "demo_initiate = demo_request\<lparr>rq_Authorization := ''Bearer secret'',
     rq_Body := Some (JObj [(''providerId'', JStr ''p''), (''offerId'', JStr ''d1#offer''),
       (''datasetId'', JStr ''d1''), (''connectorAddress'', JStr ''http://p/2025-1'')])\<rparr>"

definition empty_world :: world where
  "empty_world = \<lparr>db = empty_store, pulling = [], files = (\<lambda>p. None)\<rparr>"

lemma demo_claims_differ:
  "demo_claims ''c'' ''p'' \<noteq> demo_claims ''p'' ''c''"
  "json_of_header jwt_header_of_mint \<noteq> demo_claims iss aud"
  by (simp_all add: demo_claims_def json_of_claims_def json_of_header_def claims_of_mint_def)

lemma demo_peers_know:
  "knows (\<lambda>t. t = 0) demo_consumer demo_provider" "knows (\<lambda>t. t = 0) demo_provider demo_consumer"
  using demo_claims_differ
  by (simp_all add: knows_def demo_consumer_def demo_provider_def demo_peer_def demo_cfg_def AuthRequired_def
      UsableAt_def AddressFor_def KeyFor_def signing_pair_def VersionPath_def Let_def
      demo_claims_def [symmetric])

lemma demo_sides:
  "one_moment (\<lambda>t. t = 0)" "ParticipantID (cn_cfg demo_provider) = ''p''" "MgmtToken (cn_cfg demo_consumer) = ''secret''"
  "MaxDownloadBytes (cn_cfg demo_consumer) = 100" "ConsumerTransferPolicies (cn_cfg demo_consumer) = []"
  "findConfiguredDataset (cn_cfg demo_provider) ''d1'' = Some demo_dataset"
  "resolveTransferSequence (cn_cfg demo_provider) aid ''d1'' = [TransferStarted]"
  "smooth (\<lambda>t. t = 0) (\<lambda>u. u = ''u1'') demo_answer"
  "isValid demo_dataset t" "d_SourceFile demo_dataset = ''f''" "d_SimulateInterruptAfterBytes demo_dataset = 0"
  "d_ValidityUntil demo_dataset = None" "\<not> d_TerminateOnVerify demo_dataset"
  by (auto simp: one_moment_def second_def credentialTTL_def findConfiguredDataset_def resolveTransferSequence_def
      smooth_def demo_answer_def isValid_def demo_provider_def demo_consumer_def demo_peer_def demo_cfg_def
      demo_dataset_def)

theorem two_connectors_conclude_a_contract_witness:
  "\<exists>evs g w1 w2 v2 cpid pid.
    run (management_router demo_consumer ''POST'' [''negotiations'', ''initiate''] demo_initiate)
      (\<lambda>i. demo_answer) empty_world = (evs, [g], w1) \<and>
    answered evs = [Reply StatusOK None] \<and>
    dialogue 4 demo_consumer demo_provider (\<lambda>k i. demo_answer) (\<lambda>k j i. demo_answer) (w1, [g]) (empty_world, []) =
      ((w2, []), (v2, [])) \<and>
    concluded demo_consumer demo_provider ''d1'' cpid pid (db w2) (db v2)"
proof -
  let ?body = "\<lparr>ib_ProviderID = ''p'', ib_OfferID = ''d1#offer'', ib_DatasetID = ''d1'',
    ib_ConnectorAddress = ''http://p/2025-1''\<rparr>"
  have "decode (dec_struct initiateRequestBody_fields) zero_initiateRequestBody (rq_Body demo_initiate) = Some ?body"
    by (simp add: demo_initiate_def demo_decode_defs initiateRequestBody_fields_def zero_initiateRequestBody_def)
  moreover have "resolvePolicy (cn_cfg demo_consumer) ''d1'' =
      \<lparr>p_DatasetID = ''d1'', p_OnOffer = ''accept'', p_OnAgreement = ''verify'', p_OnIdle = ''wait''\<rparr>"
    by (simp add: resolvePolicy_def normalizedPolicy_def demo_consumer_def demo_peer_def demo_cfg_def)
  moreover have "store_wf (db empty_world)" "negotiations (db empty_world) = []"
    "consumer_negotiations (db empty_world) = []" "agreements (db empty_world) = []"
    by (simp_all add: store_wf_empty empty_world_def) (simp_all add: empty_store_def)
  moreover have "rq_Authorization demo_initiate = ''Bearer secret''" by (simp add: demo_initiate_def)
  ultimately show ?thesis
    using two_connectors_conclude_a_contract [where T = "\<lambda>t. t = 0" and F = "\<lambda>u. u = ''u1''" and
        r = demo_initiate and body = ?body and d = "''d1''" and ds = demo_dataset and w = empty_world and v = empty_world
        and C = demo_consumer and P = demo_provider and ask = "\<lambda>i. demo_answer" and a = "\<lambda>k i. demo_answer"
        and b = "\<lambda>k j i. demo_answer"] demo_peers_know demo_sides
    by (simp add: offerIDSuffix_def segment_def) blast
qed

end
