(* ===== verification/Deliveries.thy ===== *)
theory Deliveries
  imports Contracts
begin

text \<open>
  Two connectors that move a file under the contract they have concluded: what each handler and
  goroutine of a transfer does when it meets the other side's, in a quiet environment, from the
  request of the operator to the file in the download directory.
\<close>

section \<open>The tables and the routes\<close>

lemma transfer_frames:
  "agreements (snd (CreateTransfer t i s)) = agreements s"
  "agreements (snd (SetTransferState k st to at i s)) = agreements s"
  by (cases i; simp add: CreateTransfer_def SetTransferState_def split: option.split)+

lemma transfer_pid_recorded:
  assumes "store_wf s" and "find_consumer_transfer k s = Some u"
  shows "fst (SetConsumerTransferProviderPID k pid at IoOk s) = Inr ()"
    and "find_consumer_transfer k (snd (SetConsumerTransferProviderPID k pid at IoOk s)) =
      Some (u\<lparr>ct_ProviderPID := pid, ct_UpdatedAt := at\<rparr>)"
    and "store_wf (snd (SetConsumerTransferProviderPID k pid at IoOk s))"
  using assms store_wfD(5) [OF assms(1)]
  by (simp_all add: SetConsumerTransferProviderPID_def update_where_hit select_row_update)
    (simp add: store_wf_def keys_update_rows)

lemma transfer_paths:
  "split_on (CHR ''/'') ''transfers/request'' = [''transfers'', ''request'']"
  "segment pid \<Longrightarrow> split_on (CHR ''/'') (''transfers/'' @ pid @ ''/start'') = [''transfers'', pid, ''start'']"
  "segment pid \<Longrightarrow> split_on (CHR ''/'') (''data/'' @ pid) = [''data'', pid]"
  by (simp_all add: split_segment) (simp add: segment_def split_on_none)

lemma transfer_routes:
  "serve_mux protocol_routes h ''POST'' [''2025-1'', ''transfers'', ''request''] r =
     handleTransferRequest h (r\<lparr>rq_ID := ''''\<rparr>)"
  "segment pid \<Longrightarrow> serve_mux protocol_routes h ''POST'' [''2025-1'', ''transfers'', pid, ''start''] r =
     handleTransferStart h (r\<lparr>rq_ID := pid\<rparr>)"
  "segment pid \<Longrightarrow> serve_mux protocol_routes h ''GET'' [''2025-1'', ''data'', pid] r =
     handleData h (r\<lparr>rq_ID := pid\<rparr>)"
  by (simp_all add: serve_mux_def protocol_routes_def method_matches_def segment_def Let_def)

section \<open>The rows of the two sides\<close>

definition transfer_of :: "connector \<Rightarrow> string \<Rightarrow> ConsumerTransfer \<Rightarrow> bool" where
  "transfer_of P aid u \<longleftrightarrow> ct_ProviderBaseURL u = PublicURL (cn_cfg P) @ VersionPath \<and>
     ct_AgreementID u = aid \<and> ct_Format u \<noteq> '''' \<and> ct_State u = TransferRequested \<and>
     ct_CounterpartyID u = ParticipantID (cn_cfg P) \<and> ct_ExpectedBytes u = 0"

definition transfer_for :: "connector \<Rightarrow> string \<Rightarrow> string \<Rightarrow> TransferProcess \<Rightarrow> bool" where
  "transfer_for C aid cpid t \<longleftrightarrow> t_ConsumerPID t = cpid \<and> t_AgreementID t = aid \<and>
     t_CallbackAddress t = PublicURL (cn_cfg C) @ VersionPath \<and> t_CounterpartyID t = ParticipantID (cn_cfg C)"

section \<open>The operator asks\<close>

lemma always_transfer_initiate:
  assumes "knows T C P" and "rq_Authorization r = ''Bearer '' @ MgmtToken (cn_cfg C)" "MgmtToken (cn_cfg C) \<noteq> ''''"
    and body: "decode (dec_struct transferInitiateBody_fields) zero_transferInitiateBody (rq_Body r) = Some body"
      "tb_ProviderID body = ParticipantID (cn_cfg P)" "tb_AgreementID body = aid" "aid \<noteq> ''''"
      "tb_Format body \<noteq> ''''" "tb_ConnectorAddress body \<noteq> ''''"
    and agreement: "find_agreement aid (db w) \<noteq> None"
    and new: "\<And>u. F u \<Longrightarrow> find_consumer_transfer u (db w) = None"
  shows "always T F (management_router C ''POST'' [''transfers'', ''initiate''] r) w (\<lambda>rs gs w'.
    rs = [Reply StatusOK None] \<and> (\<exists>u. gs = [requestTransfer (newHandler C) u] \<and> F (ct_ConsumerPID u) \<and>
      transfer_of P aid u \<and> w' = w\<lparr>db := snd (CreateConsumerTransfer u IoOk (db w))\<rparr>))"
proof -
  have route: "management_router C ''POST'' [''transfers'', ''initiate''] r =
      handleTransferInitiate (newHandler C) (r\<lparr>rq_ID := ''''\<rparr>)"
    using assms(2,3) by (simp add: management_router_def serve_mux_def management_routes_def method_matches_def
        operator_token)
  show ?thesis
    using body knowsD [OF assms(1)] roster_lookups [OF assms(1)] new agreement
    by (auto simp: route handleTransferInitiate_def usable_def decode_body_def requireKnown_def dialAddress_def
        WriteHeader_def ctr.create_fresh agr.get_ok transfer_of_def Let_def)
      (intro exI conjI, rule refl, simp_all)+
qed

section \<open>The request\<close>

lemma always_handleTransferRequest:
  assumes request: "rq_Body r = Some (json_of_TransferRequestMessage
        (buildTransferRequestMessage u (PublicURL (cn_cfg C) @ VersionPath)))"
      "rq_Issuer r = ParticipantID (cn_cfg C)" "transfer_of P aid u" "ct_ConsumerPID u \<noteq> ''''" "aid \<noteq> ''''"
    and agreement: "has_agreement (db v) aid OriginNegotiated d x (ParticipantID (cn_cfg C))"
    and new: "\<And>u. F u \<Longrightarrow> find_transfer u (db v) = None"
  shows "always T F (handleTransferRequest (newHandler P) r) v (\<lambda>rs gs v'.
    \<exists>t. gs = [driveTransfer (newHandler P) t] \<and>
      rs = [Reply StatusCreated (Some (DTransferProcess (buildTransferProcessDoc t)))] \<and>
      F (t_ProviderPID t) \<and> transfer_for C aid (ct_ConsumerPID u) t \<and> t_State t = TransferRequested \<and>
      v' = v\<lparr>db := snd (CreateTransfer t IoOk (db v))\<rparr>)"
proof -
  obtain ag where ag: "find_agreement aid (db v) = Some ag" "servableAsProvider ag"
    "a_CounterpartyID ag = ParticipantID (cn_cfg C)"
    using agreement by (auto simp: has_agreement_def servableAsProvider_def OriginNegotiated_def OriginAgreed_def)
  have created: "fst (CreateTransfer t IoOk (db v)) = Inr ()" if "F (t_ProviderPID t)" for t
    using tra.create_fresh new [OF that] by blast
  show ?thesis
    using request ag created
    by (auto simp: handleTransferRequest_def transfer_request_wire.decode_body_sent checkEnvelope_def writeJSON_def
        buildTransferRequestMessage_def Let_def VersionPath_def transfer_of_def transfer_for_def agr.get_ok)
qed

text \<open>The first goroutine: the consumer asks, and records the provider's identifier.\<close>

lemma always_requestTransfer:
  assumes sides: "one_moment T" "knows T C P" "knows T P C"
    and agreement: "has_agreement (db v) aid OriginNegotiated d x (ParticipantID (cn_cfg C))" "aid \<noteq> ''''"
    and policy: "snd (resolveConsumerTransferPolicy (cn_cfg C) aid) = []"
    and new: "\<And>u. F u \<Longrightarrow> segment u \<and> find_transfer u (db v) = None"
    and row: "transfer_of P aid u" "F (ct_ConsumerPID u)" "store_wf (db w)"
      "find_consumer_transfer (ct_ConsumerPID u) (db w) = Some u"
  shows "always_talk T F P (requestTransfer (newHandler C) u) w v (\<lambda>xs ys w' v'. xs = [] \<and>
    (\<exists>t at. ys = [driveTransfer (newHandler P) t] \<and> transfer_for C aid (ct_ConsumerPID u) t \<and>
      t_State t = TransferRequested \<and> F (t_ProviderPID t) \<and> v' = v\<lparr>db := snd (CreateTransfer t IoOk (db v))\<rparr> \<and>
      w' = w\<lparr>db := snd (SetConsumerTransferProviderPID (ct_ConsumerPID u) (t_ProviderPID t) at IoOk (db w))\<rparr>))"
    (is "always_talk T F P _ w v ?Q")
proof -
  have u: "ct_ProviderBaseURL u = PublicURL (cn_cfg P) @ VersionPath" "ct_CounterpartyID u = ParticipantID (cn_cfg P)"
    "ct_AgreementID u = aid" and pid: "ct_ConsumerPID u \<noteq> ''''"
    using row(1) new [OF row(2)] by (simp_all add: transfer_of_def segment_def)
  let ?m = "buildTransferRequestMessage u (PublicURL (cn_cfg C) @ VersionPath)"
  let ?k = "\<lambda>reply. case reply of None \<Rightarrow> Done | Some pid \<Rightarrow> onTransferRequestAcknowledged (newHandler C) u pid"
  let ?url = "PublicURL (cn_cfg P) @ VersionPath @ ''/transfers/request''"
  let ?reply = "\<lambda>rsp. providerPID_of_reply td_ProviderPID TransferProcessDoc_fields zero_TransferProcessDoc (delivered rsp)"
  have path: "path_at P ?url = Some [''2025-1'', ''transfers'', ''request'']"
    using path_at_public [of P "''transfers/request''"] transfer_paths(1) by simp
  have answer: "?reply (Reply StatusCreated (Some (DTransferProcess (buildTransferProcessDoc t)))) = Some (t_ProviderPID t)"
    if "F (t_ProviderPID t)" for t
    unfolding delivered_def
    using new [OF that] by (simp add: transfer_process_wire.reply_sent segment_def status_defs buildTransferProcessDoc_def)
  have stored: "fst (SetConsumerTransferProviderPID (ct_ConsumerPID u) p at IoOk (db w)) = Inr ()" for p at
    using transfer_pid_recorded(1) [OF row(3,4)] .
  have fresh: "\<And>x. F x \<Longrightarrow> find_transfer x (db v) = None" using new by blast
  have "always_talk T F P (sendTransferRequest (newHandler C) (PublicURL (cn_cfg P) @ VersionPath) ?m
      (ParticipantID (cn_cfg P)) ?k) w v ?Q"
    unfolding sendTransferRequest_def
  proof (rule always_mint [OF sides(2,3)])
    fix tok
    assume tok: "credential T C P tok"
    let ?r = "arriving (post ?url (DTransferRequest ?m) (''Bearer '' @ tok))"
    have "always T F (handleTransferRequest (newHandler P)
        (?r\<lparr>rq_Issuer := ParticipantID (cn_cfg C), rq_ID := ''''\<rparr>)) v
      (\<lambda>rs new v'. always_talk T F P (?k (?reply (hd rs))) w v' (\<lambda>xs ys. ?Q xs (new @ ys)))"
      by (rule always_mono [OF always_handleTransferRequest [where C = C and u = u, OF _ _ row(1) pid agreement(2,1) fresh]])
        (use policy answer stored u in \<open>(auto simp: arriving_def post_def onTransferRequestAcknowledged_def
           maybeDriveConsumerTransfer_def split_beta), blast\<close>)
    then have "always T F (protocol_router P ''POST'' [''2025-1'', ''transfers'', ''request''] ?r) v
      (\<lambda>rs new v'. always_talk T F P (?k (?reply (hd rs))) w v' (\<lambda>xs ys. ?Q xs (new @ ys)))"
      by (intro always_authenticated [OF sides(1,3) tok]) (simp_all add: transfer_routes arriving_def post_def)
    then show "always_talk T F P ((\<lambda>(authorization, maySend). if \<not> maySend then ?k None
        else Http (post ((PublicURL (cn_cfg P) @ VersionPath) @ transferRequestPath) (DTransferRequest ?m) authorization)
          (\<lambda>r. ?k (providerPID_of_reply td_ProviderPID TransferProcessDoc_fields zero_TransferProcessDoc r)))
          (''Bearer '' @ tok, True)) w v ?Q"
      using path by (simp add: transferRequestPath_def post_def)
  qed
  then show ?thesis by (simp add: requestTransfer_def u)
qed

section \<open>The start\<close>

text \<open>What the consumer makes of the start message: it records it, and pulls.\<close>

lemma always_handleTransferStart:
  assumes message: "rq_Body r = Some (json_of_TransferStartMessage (buildTransferStartMessageWithData t url))"
      "rq_ID r = cpid" "rq_Issuer r = ct_CounterpartyID u"
    and policy: "snd (resolveConsumerTransferPolicy (cn_cfg C) (ct_AgreementID u)) = []"
    and row: "store_wf (db w)" "find_consumer_transfer cpid (db w) = Some u" "ct_State u = TransferRequested"
  shows "always T F (handleTransferStart (newHandler C) r) w (\<lambda>rs gs w'. \<exists>doc q at.
    rs = [Reply StatusOK (Some doc)] \<and>
    gs = [pullTransferData (newHandler C) q (sm_DataAddress (buildTransferStartMessageWithData t url))] \<and>
    ct_ConsumerPID q = cpid \<and> ct_CounterpartyID q = ct_CounterpartyID u \<and> ct_ExpectedBytes q = ct_ExpectedBytes u \<and>
    w' = w\<lparr>db := snd (SetConsumerTransferState cpid TransferRequested TransferStarted at IoOk (db w))\<rparr>)"
proof -
  have cpid: "ct_ConsumerPID u = cpid" using select_row_key [OF row(2)] .
  have moved: "fst (SetConsumerTransferState cpid TransferRequested TransferStarted at IoOk (db w)) = Inr ()" for at
    using ctr.cas_hit [OF row] .
  show ?thesis
    using message(2,3) policy row(2,3) moved
    by (auto simp: handleTransferStart_def applyTransition_def lookupTransfer_def ctr.get_ok refuseIfNotParty_def
        transfer_start_wire.decode_body_sent [OF message(1)] checkEnvelope_def inboundStartLegalFor_def
        startLegalFrom_def setTransferState_def resolve_consumer_def writeJSON_def maybeDriveConsumerTransfer_def
        buildTransferStartMessageWithData_def buildTransferStartMessage_def split_beta Let_def cpid)
qed

text \<open>The provider's goroutine: it sends the start message with the address of the data, and records it.\<close>

lemma always_driveTransfer:
  assumes sides: "one_moment T" "knows T C P" "knows T P C"
    and dataset: "resolveTransferSequence (cn_cfg P) aid d = [TransferStarted]"
      "findConfiguredDataset (cn_cfg P) d = Some ds" "d_SourceFile ds \<noteq> ''''"
    and t: "transfer_for C aid cpid t" "t_State t = TransferRequested" "segment cpid" "store_wf (db v)"
      "find_transfer (t_ProviderPID t) (db v) = Some t"
      "has_agreement (db v) aid OriginNegotiated d x (ParticipantID (cn_cfg C))"
    and policy: "snd (resolveConsumerTransferPolicy (cn_cfg C) aid) = []"
    and u: "store_wf (db w)" "find_consumer_transfer cpid (db w) = Some u" "ct_State u = TransferRequested"
      "ct_AgreementID u = aid" "ct_CounterpartyID u = ParticipantID (cn_cfg P)"
  shows "always_talk T F C (driveTransfer (newHandler P) t) v w (\<lambda>xs ys v' w'. xs = [] \<and> (\<exists>q at at'.
    ys = [pullTransferData (newHandler C) q
      (sm_DataAddress (buildTransferStartMessageWithData t (PublicURL (cn_cfg P))))] \<and>
    ct_ConsumerPID q = cpid \<and> ct_CounterpartyID q = ParticipantID (cn_cfg P) \<and> ct_ExpectedBytes q = ct_ExpectedBytes u \<and>
    w' = w\<lparr>db := snd (SetConsumerTransferState cpid TransferRequested TransferStarted at IoOk (db w))\<rparr> \<and>
    v' = v\<lparr>db := snd (SetTransferState (t_ProviderPID t) TransferRequested TransferStarted at' IoOk (db v))\<rparr>))"
    (is "always_talk T F C _ v w ?Q")
proof -
  have t': "t_ConsumerPID t = cpid" "t_AgreementID t = aid" "t_CounterpartyID t = ParticipantID (cn_cfg C)"
    "t_CallbackAddress t = PublicURL (cn_cfg C) @ VersionPath"
    using t(1) by (simp_all add: transfer_for_def)
  obtain ag where ag: "find_agreement aid (db v) = Some ag" "servableAsProvider ag" "a_DatasetID ag = d"
    using t(6) by (auto simp: has_agreement_def servableAsProvider_def OriginNegotiated_def OriginAgreed_def)
  have source: "\<exists>d' \<in> set (Datasets (cn_cfg P)). d_ID d' = d \<and> d_SourceFile d' \<noteq> ''''"
    using dataset(2,3) by (auto simp: findConfiguredDataset_def find_Some_iff intro: nth_mem)
  let ?url = "PublicURL (cn_cfg C) @ VersionPath @ ''/transfers/'' @ cpid @ ''/start''"
  let ?m = "buildTransferStartMessageWithData t (PublicURL (cn_cfg P))"
  let ?k = "\<lambda>pushed::bool. Now (\<lambda>now. call (SetTransferState (t_ProviderPID t) TransferRequested TransferStarted now)
    (\<lambda>res. Done))"
  have path: "path_at C ?url = Some [''2025-1'', ''transfers'', cpid, ''start'']"
    using path_at_public [of C "''transfers/'' @ cpid @ ''/start''"] transfer_paths(2) [OF t(3)] by simp
  have received: "always T F (protocol_router C ''POST'' [''2025-1'', ''transfers'', cpid, ''start'']
      (arriving (post ?url (DTransferStart ?m) (''Bearer '' @ tok)))) w
    (\<lambda>rs new w'. push_ok (delivered (hd rs)) \<and> always_talk T F C (?k True) v w' (\<lambda>xs ys. ?Q xs (new @ ys)))"
    if tok: "credential T P C tok" for tok
  proof (rule always_authenticated [OF sides(1,2) tok])
    let ?r = "arriving (post ?url (DTransferStart ?m) (''Bearer '' @ tok))\<lparr>rq_Issuer := ParticipantID (cn_cfg P), rq_ID := cpid\<rparr>"
    have "always T F (handleTransferStart (newHandler C) ?r) w (\<lambda>rs new w'. push_ok (delivered (hd rs)) \<and>
        always_talk T F C (?k True) v w' (\<lambda>xs ys. ?Q xs (new @ ys)))"
      by (rule always_mono [OF always_handleTransferStart [where t = t and url = "PublicURL (cn_cfg P)" and C = C,
          OF _ _ _ _ u(1-3)]])
        (use u policy in \<open>auto simp: arriving_def post_def status_defs\<close>)
    then show "always T F (serve_mux protocol_routes (newHandler C) ''POST'' [''2025-1'', ''transfers'', cpid, ''start'']
        (arriving (post ?url (DTransferStart ?m) (''Bearer '' @ tok))\<lparr>rq_Issuer := ParticipantID (cn_cfg P)\<rparr>)) w
      (\<lambda>rs new w'. push_ok (delivered (hd rs)) \<and> always_talk T F C (?k True) v w' (\<lambda>xs ys. ?Q xs (new @ ys)))"
      using t(3) by (simp add: transfer_routes)
  qed (simp_all add: arriving_def post_def)
  have pushed: "always_talk T F C (pushCallback (newHandler P) ?url (DTransferStart ?m) (ParticipantID (cn_cfg C)) ?k) v w ?Q"
    by (rule always_push [OF sides(3,2) path received])
  show ?thesis
    using pushed source ag dataset(1)
    by (simp add: driveTransfer_def agr.get_ok t' pushTransferStep_def transferStepMessage_def hasSourceFor_def t(2)
        startLegalFrom_def transferPath_def Let_def)
qed

section \<open>The data\<close>

lemma always_sys [simp]:
  "always T F (sys f k) w Q = always T F (k True) (f w) Q"
  "always_talk T F Y (sys f k) w v R = always_talk T F Y (k True) (f w) v R"
  by (simp_all add: sys_def)

text \<open>What the data endpoint serves of a started transfer.\<close>

lemma always_handleData:
  assumes dataset: "findConfiguredDataset (cn_cfg P) d = Some ds" "d_SourceFile ds \<noteq> ''''"
      "d_SimulateInterruptAfterBytes ds = 0" "files v (d_SourceFile ds) = Some content"
      "\<And>now. T now \<Longrightarrow> isValid ds now"
    and t: "find_transfer (rq_ID r) (db v) = Some t" "t_State t = TransferStarted"
      "rq_Issuer r = t_CounterpartyID t" "has_agreement (db v) (t_AgreementID t) OriginNegotiated d x y"
      "rq_Range r = ''''"
  shows "always T F (handleData (newHandler P) r) v (\<lambda>rs gs v'.
    rs = [Stream 200 '''' (word_of_nat (length content)) content] \<and> gs = [] \<and> v' = v)"
proof -
  obtain ag where ag: "find_agreement (t_AgreementID t) (db v) = Some ag" "servableAsProvider ag" "a_DatasetID ag = d"
    using t(4) by (auto simp: has_agreement_def servableAsProvider_def OriginNegotiated_def OriginAgreed_def)
  show ?thesis
    using dataset t ag
    by (auto simp: handleData_def datasetFor_def tra.get_ok agr.get_ok serve_file_def parseRangeStart_def isValid_def
        Let_def split: option.split)
qed

text \<open>The copy takes the whole body, which fits the limit, and places it.\<close>

lemma copy_whole:
  fixes limit :: int64
  assumes "hr_Data resp = content" "hr_DataEnd resp = None"
    and "int (length content) \<le> sint limit" "sint limit < 2 ^ 63 - 1"
  shows "copy_limited (limit + 1) resp = (content, None)" and "\<not> limit <s word_of_nat (length content)"
proof -
  have "sint (limit + 1) = sint limit + 1"
    using sint64_of_int [of "sint limit + 1"] assms(3,4) by simp
  then show "copy_limited (limit + 1) resp = (content, None)"
    using assms by (auto simp: copy_limited_def Let_def nat_le_iff)
  have "sint (word_of_nat (length content) :: int64) = int (length content)"
    by (rule sint_length) (use assms in simp)
  then show "\<not> limit <s word_of_nat (length content)" using assms(3) by (simp add: word_sless_alt)
qed

lemma always_pull_copy:
  assumes reply: "hr_Data resp = content" "hr_DataEnd resp = None" "po_received o' = 0"
    and fits: "int (length content) \<le> sint (MaxDownloadBytes (h_cfg h))"
      "sint (MaxDownloadBytes (h_cfg h)) < 2 ^ 63 - 1"
    and rest: "\<And>at. T at \<Longrightarrow> always_talk T F Y
      (finish (succeed (o'\<lparr>po_received := word_of_nat (length content)\<rparr>) (downloadPath (h_cfg h) pid) at))
      (set_file (partialPath (h_cfg h) pid) None (set_file (downloadPath (h_cfg h) pid) (Some content) w)) v Q"
  shows "always_talk T F Y (pull_copy h pid 0 (word_of_nat (length content)) resp o' finish) w v Q"
proof -
  let ?p = "partialPath (h_cfg h) pid"
  have "append_file ?p content (set_file ?p (Some []) w) = set_file ?p (Some content) w"
    by (simp add: append_file_def set_file_def)
  then show ?thesis
    using copy_whole [OF reply(1,2) fits] rest partial_not_final [of "h_cfg h" pid]
    by (simp add: pull_copy_def pull_place_def Let_def set_file_placed) (simp add: set_file_def)
qed

abbreviation opening_outcome :: pullOutcome where
  "opening_outcome \<equiv> \<lparr>po_received = 0, po_path = '''', po_completed = None,
    po_failure = ''the pull ended without recording a reason''\<rparr>"

definition whole_file :: "connector \<Rightarrow> ConsumerTransfer \<Rightarrow> 8 word list \<Rightarrow> world \<Rightarrow> bool" where
  "whole_file C u content w \<longleftrightarrow> (let pid = ct_ConsumerPID u; path = downloadPath (cn_cfg C) pid in
     pid \<notin> set (pulling w) \<and> files w path = Some content \<and> files w (partialPath (cn_cfg C) pid) = None \<and>
     (\<exists>at. find_consumer_transfer pid (db w) = Some (u\<lparr>ct_ExpectedBytes := word_of_nat (length content),
        ct_ReceivedBytes := word_of_nat (length content), ct_DataPath := path,
        ct_DataCompletedAt := Some at, ct_DataError := ''''\<rparr>)))"

lemma always_pull_response:
  assumes reply: "delivered (Stream 200 '''' (word_of_nat (length content)) content) = HttpOk resp"
    and q: "ct_ConsumerPID q = ct_ConsumerPID u" "ct_ExpectedBytes q = 0"
    and u: "find_consumer_transfer (ct_ConsumerPID u) (db w) = Some u" "ct_ExpectedBytes u = 0"
      "set (pulling w) = insert (ct_ConsumerPID u) S" "ct_ConsumerPID u \<notin> S"
    and fits: "int (length content) \<le> sint (MaxDownloadBytes (cn_cfg C))"
      "sint (MaxDownloadBytes (cn_cfg C)) < 2 ^ 63 - 1"
    and post: "\<And>w'. whole_file C u content w' \<Longrightarrow> Q [] [] w' v"
  shows "always_talk T F P (pull_response (newHandler C) q 0 resp opening_outcome (pull_finish (ct_ConsumerPID u))) w v Q"
proof -
  let ?n = "word_of_nat (length content) :: int64" and ?pid = "ct_ConsumerPID u"
  have resp: "hr_Status resp = 200" "hr_ContentLength resp = ?n" "hr_Data resp = content" "hr_DataEnd resp = None"
    using reply by (auto simp: delivered_def)
  have n: "0 \<le>s ?n" using sint_length [of content] fits by (simp add: word_sle_eq)
  have copied: "always_talk T F P (pull_copy (newHandler C) ?pid 0 ?n resp opening_outcome (pull_finish ?pid)) (w\<lparr>db := s\<rparr>) v Q"
    if "find_consumer_transfer ?pid s = Some (u\<lparr>ct_ExpectedBytes := ?n\<rparr>)" for s
    by (rule always_pull_copy [OF resp(3,4)])
      (use that fits partial_not_final [of "cn_cfg C" ?pid] in \<open>simp_all add: pull_finish_def
         RecordConsumerTransferOutcome_def select_row_update succeed_def set_file_def\<close>,
       rule post, simp add: whole_file_def Let_def u select_row_update, blast)
  have unchanged: "?n = 0 \<Longrightarrow> u\<lparr>ct_ExpectedBytes := ?n\<rparr> = u" using u(2) by (cases u) simp
  show ?thesis
  proof (cases "?n = 0")
    case True
    then show ?thesis
      using copied [of "db w"] u(1) unchanged q resp n by (simp add: pull_response_def Let_def)
  next
    case False
    then show ?thesis
      using copied [of "snd (SetConsumerTransferExpectedBytes ?pid ?n IoOk (db w))"] u(1) q resp n
      by (simp add: pull_response_def SetConsumerTransferExpectedBytes_def select_row_update Let_def)
  qed
qed

text \<open>The consumer's second goroutine: it asks for the data, and makes of the answer what \<open>pull_response\<close> does.\<close>

abbreviation pull_answer :: "connector \<Rightarrow> ConsumerTransfer \<Rightarrow> http_result \<Rightarrow> prog" where
  "pull_answer C q res \<equiv> (case res of
     HttpFailed c \<Rightarrow> pull_finish (ct_ConsumerPID q) (fail opening_outcome (pull_failure c))
   | HttpOk resp \<Rightarrow> pull_response (newHandler C) q 0 resp opening_outcome (pull_finish (ct_ConsumerPID q)))"

lemma always_pull_asks:
  assumes sides: "one_moment T" "knows T C P" "knows T P C"
    and q: "ct_ConsumerPID q = cpid" "ct_CounterpartyID q = ParticipantID (cn_cfg P)"
      "da_Endpoint addr = PublicURL (cn_cfg P) @ VersionPath @ ''/data/'' @ pid" "segment pid"
    and w: "cpid \<notin> set (pulling w)" "files w (partialPath (cn_cfg C) cpid) = None"
    and provider: "\<And>r. rq_ID r = pid \<Longrightarrow> rq_Issuer r = ParticipantID (cn_cfg C) \<Longrightarrow> rq_Range r = '''' \<Longrightarrow>
      always T F (handleData (newHandler P) r) v (\<lambda>rs new v'.
        always_talk T F P (pull_answer C q (delivered (hd rs))) (w\<lparr>pulling := cpid # pulling w\<rparr>) v' (\<lambda>xs ys. Q xs (new @ ys)))"
  shows "always_talk T F P (pullTransferData (newHandler C) q (Some addr)) w v Q"
proof -
  let ?url = "PublicURL (cn_cfg P) @ VersionPath @ ''/data/'' @ pid" and ?w = "w\<lparr>pulling := cpid # pulling w\<rparr>"
  let ?get = "\<lambda>au. \<lparr>hq_Method = ''GET'', hq_URL = ?url, hq_Body = None, hq_Authorization = au, hq_Range = ''''\<rparr>"
  have path: "path_at P ?url = Some [''2025-1'', ''data'', pid]"
    using path_at_public [of P "''data/'' @ pid"] transfer_paths(3) [OF q(4)] by simp
  have asked: "always T F (protocol_router P ''GET'' [''2025-1'', ''data'', pid] (arriving (?get (''Bearer '' @ tok)))) v
      (\<lambda>rs new v'. always_talk T F P (pull_answer C q (delivered (hd rs))) ?w v' (\<lambda>xs ys. Q xs (new @ ys)))"
    if tok: "credential T C P tok" for tok
    by (rule always_authenticated [OF sides(1,3) tok])
      (simp_all add: arriving_def transfer_routes(3) [OF q(4)] provider)
  have "always_talk T F P (mintOutboundCredential (newHandler C) (ParticipantID (cn_cfg P))
      (\<lambda>(authorization, maySend). if \<not> maySend then pull_finish cpid (fail opening_outcome errRosterExpired)
        else Http (?get authorization) (pull_answer C q))) ?w v Q"
    by (rule always_mint [OF sides(2,3)]) (use asked path in simp)
  then show ?thesis unfolding q(1)
    by (simp add: pullTransferData_def pull_body_def pull_request_def file_size_def Let_def w q del: append_Cons)
qed

lemma always_pullTransferData:
  assumes sides: "one_moment T" "knows T C P" "knows T P C"
    and dataset: "findConfiguredDataset (cn_cfg P) d = Some ds" "d_SourceFile ds \<noteq> ''''"
      "d_SimulateInterruptAfterBytes ds = 0" "files v (d_SourceFile ds) = Some content"
      "\<And>now. T now \<Longrightarrow> isValid ds now"
    and t: "segment pid" "find_transfer pid (db v) = Some t" "t_State t = TransferStarted"
      "t_CounterpartyID t = ParticipantID (cn_cfg C)" "has_agreement (db v) (t_AgreementID t) OriginNegotiated d x y"
    and q: "ct_ConsumerPID q = cpid" "ct_CounterpartyID q = ParticipantID (cn_cfg P)" "ct_ExpectedBytes q = 0"
      "da_Endpoint addr = PublicURL (cn_cfg P) @ VersionPath @ ''/data/'' @ pid"
    and u: "find_consumer_transfer cpid (db w) = Some u" "ct_ExpectedBytes u = 0" "cpid \<notin> set (pulling w)"
      "files w (partialPath (cn_cfg C) cpid) = None"
    and fits: "int (length content) \<le> sint (MaxDownloadBytes (cn_cfg C))"
      "sint (MaxDownloadBytes (cn_cfg C)) < 2 ^ 63 - 1"
  shows "always_talk T F P (pullTransferData (newHandler C) q (Some addr)) w v
    (\<lambda>xs ys w' v'. xs = [] \<and> ys = [] \<and> v' = v \<and> whole_file C u content w')"
    (is "always_talk T F P _ w v ?Q")
proof (rule always_pull_asks [OF sides q(1,2,4) t(1) u(3,4)])
  fix r :: request
  assume r: "rq_ID r = pid" "rq_Issuer r = ParticipantID (cn_cfg C)" "rq_Range r = ''''"
  let ?stream = "Stream 200 '''' (word_of_nat (length content)) content" and ?w = "w\<lparr>pulling := cpid # pulling w\<rparr>"
  have cpid: "ct_ConsumerPID u = cpid" using select_row_key [OF u(1)] .
  obtain resp where resp: "delivered ?stream = HttpOk resp" by (simp add: delivered_def)
  have "always_talk T F P (pull_response (newHandler C) q 0 resp opening_outcome (pull_finish cpid)) ?w v ?Q"
    by (rule always_pull_response [OF resp, where u = u and S = "set (pulling w)", unfolded cpid])
      (use q u fits in simp_all)
  then have kept: "always_talk T F P (pull_answer C q (delivered ?stream)) ?w v ?Q"
    by (simp add: resp q(1))
  show "always T F (handleData (newHandler P) r) v (\<lambda>rs new v'.
      always_talk T F P (pull_answer C q (delivered (hd rs))) ?w v' (\<lambda>xs ys. ?Q xs (new @ ys)))"
    by (rule always_mono [OF always_handleData [where t = t, OF dataset]]) (use t r kept in auto)
qed

text \<open>
  The provider pushes the start message before it records STARTED, and the consumer asks for the data
  as soon as it has the message.  A pull that arrives in between is answered 409, its failure is
  recorded, and nothing starts it again.
\<close>

lemma a_pull_before_the_start_is_recorded_fails:
  assumes sides: "one_moment T" "knows T C P" "knows T P C"
    and t: "segment pid" "find_transfer pid (db v) = Some t" "t_State t = TransferRequested"
      "t_CounterpartyID t = ParticipantID (cn_cfg C)"
    and q: "ct_ConsumerPID q = cpid" "ct_CounterpartyID q = ParticipantID (cn_cfg P)"
      "da_Endpoint addr = PublicURL (cn_cfg P) @ VersionPath @ ''/data/'' @ pid"
    and u: "find_consumer_transfer cpid (db w) = Some u" "cpid \<notin> set (pulling w)"
      "files w (partialPath (cn_cfg C) cpid) = None"
  shows "always_talk T F P (pullTransferData (newHandler C) q (Some addr)) w v (\<lambda>xs ys w' v'.
    xs = [] \<and> ys = [] \<and> v' = v \<and> files w' = files w \<and>
    find_consumer_transfer cpid (db w') = Some (u\<lparr>ct_ReceivedBytes := 0, ct_DataPath := '''',
      ct_DataCompletedAt := None, ct_DataError := ''the data endpoint refused the pull''\<rparr>))"
  by (rule always_pull_asks [OF sides q t(1) u(2,3)])
    (use t u q in \<open>simp add: handleData_def tra.get_ok writeError_def writeJSON_def delivered_def transfer_state_defs
       status_defs pull_response_def pull_finish_def RecordConsumerTransferOutcome_def select_row_update fail_def Let_def\<close>)

section \<open>From the request to the file\<close>

text \<open>The file is there, and both sides have the transfer STARTED under the agreement.\<close>

definition received :: "connector \<Rightarrow> connector \<Rightarrow> string \<Rightarrow> string \<Rightarrow> string \<Rightarrow> 8 word list \<Rightarrow> world \<Rightarrow> store \<Rightarrow> bool" where
  "received C P aid cpid pid content w s \<longleftrightarrow>
     (\<exists>u. whole_file C u content w \<and> ct_ConsumerPID u = cpid \<and> ct_ProviderPID u = pid \<and> ct_AgreementID u = aid \<and>
        ct_State u = TransferStarted \<and> ct_CounterpartyID u = ParticipantID (cn_cfg P)) \<and>
     (\<exists>t. find_transfer pid s = Some t \<and> transfer_for C aid cpid t \<and> t_State t = TransferStarted)"

lemma pull_concludes:
  assumes sides: "one_moment T" "knows T C P" "knows T P C"
    and dataset: "findConfiguredDataset (cn_cfg P) d = Some ds" "d_SourceFile ds \<noteq> ''''"
      "d_SimulateInterruptAfterBytes ds = 0" "files v (d_SourceFile ds) = Some content"
      "\<And>now. T now \<Longrightarrow> isValid ds now"
    and t: "segment pid" "find_transfer pid (db v) = Some t" "t_State t = TransferStarted" "transfer_for C aid cpid t"
      "has_agreement (db v) aid OriginNegotiated d x y"
    and q: "ct_ConsumerPID q = cpid" "ct_CounterpartyID q = ParticipantID (cn_cfg P)" "ct_ExpectedBytes q = 0"
      "addr = sm_DataAddress (buildTransferStartMessageWithData t' (PublicURL (cn_cfg P)))" "t_ProviderPID t' = pid"
    and u: "find_consumer_transfer cpid (db w) = Some u" "ct_ExpectedBytes u = 0" "ct_ProviderPID u = pid"
      "ct_AgreementID u = aid" "ct_State u = TransferStarted" "ct_CounterpartyID u = ParticipantID (cn_cfg P)"
      "cpid \<notin> set (pulling w)" "files w (partialPath (cn_cfg C) cpid) = None"
    and fits: "int (length content) \<le> sint (MaxDownloadBytes (cn_cfg C))"
      "sint (MaxDownloadBytes (cn_cfg C)) < 2 ^ 63 - 1"
  shows "always_dialogue T F (Suc 0) C P (w, [pullTransferData (newHandler C) q addr]) (v, [])
    (\<lambda>((w', xs), (v', ys)). xs = [] \<and> ys = [] \<and> received C P aid cpid pid content w' (db v'))"
proof (rule always_dialogue_near)
  obtain a where a: "addr = Some a" "da_Endpoint a = PublicURL (cn_cfg P) @ VersionPath @ ''/data/'' @ pid"
    using q(4,5) by (simp add: buildTransferStartMessageWithData_def)
  have t': "t_CounterpartyID t = ParticipantID (cn_cfg C)" "t_AgreementID t = aid"
    using t(4) by (simp_all add: transfer_for_def)
  have cpid: "ct_ConsumerPID u = cpid" using select_row_key [OF u(1)] .
  have "always_talk T F P (pullTransferData (newHandler C) q (Some a)) w v
      (\<lambda>xs ys w' v'. xs = [] \<and> ys = [] \<and> v' = v \<and> whole_file C u content w')"
    by (rule always_pullTransferData [OF sides dataset t(1-3) t'(1) _ q(1-3) a(2) u(1,2,7,8) fits])
      (use t(5) t'(2) in simp)+
  then show "always_talk T F P (pullTransferData (newHandler C) q addr) w v (\<lambda>xs ys w' v'.
      always_dialogue T F 0 C P (w', [] @ xs) (v', [] @ ys)
        (\<lambda>((w', xs), (v', ys)). xs = [] \<and> ys = [] \<and> received C P aid cpid pid content w' (db v')))"
    unfolding a(1) by (rule always_talk_mono)
      (use t(2-4) u(3-6) cpid in \<open>auto simp: received_def intro!: always_dialogue_end\<close>)
qed

lemma start_concludes:
  assumes sides: "one_moment T" "knows T C P" "knows T P C"
    and dataset: "resolveTransferSequence (cn_cfg P) aid d = [TransferStarted]"
      "findConfiguredDataset (cn_cfg P) d = Some ds" "d_SourceFile ds \<noteq> ''''"
      "d_SimulateInterruptAfterBytes ds = 0" "files v (d_SourceFile ds) = Some content"
      "\<And>now. T now \<Longrightarrow> isValid ds now"
    and t: "segment (t_ProviderPID t)" "transfer_for C aid cpid t" "t_State t = TransferRequested" "segment cpid"
      "store_wf (db v)" "find_transfer (t_ProviderPID t) (db v) = Some t"
      "has_agreement (db v) aid OriginNegotiated d x (ParticipantID (cn_cfg C))"
    and policy: "snd (resolveConsumerTransferPolicy (cn_cfg C) aid) = []"
    and u: "transfer_of P aid u" "ct_ProviderPID u = t_ProviderPID t" "store_wf (db w)"
      "find_consumer_transfer cpid (db w) = Some u" "cpid \<notin> set (pulling w)"
      "files w (partialPath (cn_cfg C) cpid) = None"
    and fits: "int (length content) \<le> sint (MaxDownloadBytes (cn_cfg C))"
      "sint (MaxDownloadBytes (cn_cfg C)) < 2 ^ 63 - 1"
  shows "always_dialogue T F (Suc (Suc 0)) C P (w, []) (v, [driveTransfer (newHandler P) t])
    (\<lambda>((w', xs), (v', ys)). xs = [] \<and> ys = [] \<and> received C P aid cpid (t_ProviderPID t) content w' (db v'))"
proof (rule always_dialogue_far)
  let ?R = "\<lambda>((w', xs), (v', ys)). xs = [] \<and> ys = [] \<and> received C P aid cpid (t_ProviderPID t) content w' (db v')"
  let ?w = "\<lambda>at. w\<lparr>db := snd (SetConsumerTransferState cpid TransferRequested TransferStarted at IoOk (db w))\<rparr>"
  let ?v = "\<lambda>at. v\<lparr>db := snd (SetTransferState (t_ProviderPID t) TransferRequested TransferStarted at IoOk (db v))\<rparr>"
  have u': "ct_State u = TransferRequested" "ct_AgreementID u = aid" "ct_CounterpartyID u = ParticipantID (cn_cfg P)"
    "ct_ExpectedBytes u = 0" using u(1) by (simp_all add: transfer_of_def)
  note driven = always_driveTransfer [OF sides dataset(1-3) t(2-7) policy u(3,4) u'(1-3)]
  have rest: "always_dialogue T F (Suc 0) C P (?w at, [pullTransferData (newHandler C) q
      (sm_DataAddress (buildTransferStartMessageWithData t (PublicURL (cn_cfg P))))]) (?v at', []) ?R"
    if q: "ct_ConsumerPID q = cpid" "ct_CounterpartyID q = ParticipantID (cn_cfg P)" "ct_ExpectedBytes q = 0" for q at at'
    by (rule pull_concludes [OF sides dataset(2-4) _ dataset(6), where x = x and y = "ParticipantID (cn_cfg C)"
        and t = "t\<lparr>t_State := TransferStarted, t_UpdatedAt := at'\<rparr>" and t' = t
        and u = "u\<lparr>ct_State := TransferStarted, ct_UpdatedAt := at\<rparr>"])
      (use dataset(5) t q u u' fits in \<open>simp_all add: transfer_for_def has_agreement_def transfer_frames
         tra.cas_lookup ctr.cas_lookup\<close>)
  show "always_talk T F C (driveTransfer (newHandler P) t) v w (\<lambda>xs ys v' w'.
      always_dialogue T F (Suc 0) C P (w', ys) (v', [] @ xs) ?R)"
    by (rule always_talk_mono [OF driven]) (use rest u'(4) in auto)
qed

lemma three_rounds: "(3 :: nat) = Suc (Suc (Suc 0))"
  by simp

lemma delivery_concludes:
  assumes sides: "one_moment T" "knows T C P" "knows T P C"
    and dataset: "resolveTransferSequence (cn_cfg P) aid d = [TransferStarted]"
      "findConfiguredDataset (cn_cfg P) d = Some ds" "d_SourceFile ds \<noteq> ''''"
      "d_SimulateInterruptAfterBytes ds = 0" "files v (d_SourceFile ds) = Some content"
      "\<And>now. T now \<Longrightarrow> isValid ds now"
    and agreement: "has_agreement (db v) aid OriginNegotiated d x (ParticipantID (cn_cfg C))" "aid \<noteq> ''''"
    and policy: "snd (resolveConsumerTransferPolicy (cn_cfg C) aid) = []"
    and fits: "int (length content) \<le> sint (MaxDownloadBytes (cn_cfg C))"
      "sint (MaxDownloadBytes (cn_cfg C)) < 2 ^ 63 - 1"
    and new: "\<And>u. F u \<Longrightarrow> segment u \<and> find_transfer u (db v) = None \<and> u \<notin> set (pulling w) \<and>
        files w (partialPath (cn_cfg C) u) = None"
      "store_wf (db w)" "store_wf (db v)"
    and u: "transfer_of P aid u" "F (ct_ConsumerPID u)" "find_consumer_transfer (ct_ConsumerPID u) (db w) = Some u"
  shows "always_dialogue T F 3 C P (w, [requestTransfer (newHandler C) u]) (v, []) (\<lambda>((w', xs), (v', ys)).
    xs = [] \<and> ys = [] \<and> (\<exists>pid. received C P aid (ct_ConsumerPID u) pid content w' (db v')))"
  unfolding three_rounds
proof (rule always_dialogue_near)
  let ?cpid = "ct_ConsumerPID u"
  let ?R = "\<lambda>((w', xs), (v', ys)). xs = [] \<and> ys = [] \<and> (\<exists>pid. received C P aid ?cpid pid content w' (db v'))"
  have fresh: "segment x \<and> find_transfer x (db v) = None" if "F x" for x using new(1) [OF that] by blast
  note asked = always_requestTransfer [where F = F and v = v and w = w and u = u, OF sides agreement policy fresh u(1,2) new(2) u(3)]
  have rest: "always_dialogue T F (Suc (Suc 0)) C P
      (w\<lparr>db := snd (SetConsumerTransferProviderPID ?cpid (t_ProviderPID t) at IoOk (db w))\<rparr>, [])
      (v\<lparr>db := snd (CreateTransfer t IoOk (db v))\<rparr>, [driveTransfer (newHandler P) t]) ?R"
    if t: "transfer_for C aid ?cpid t" "t_State t = TransferRequested" "F (t_ProviderPID t)" for t at
  proof -
    have "always_dialogue T F (Suc (Suc 0)) C P
      (w\<lparr>db := snd (SetConsumerTransferProviderPID ?cpid (t_ProviderPID t) at IoOk (db w))\<rparr>, [])
      (v\<lparr>db := snd (CreateTransfer t IoOk (db v))\<rparr>, [driveTransfer (newHandler P) t])
      (\<lambda>((w', xs), (v', ys)). xs = [] \<and> ys = [] \<and> received C P aid ?cpid (t_ProviderPID t) content w' (db v'))"
      by (rule start_concludes [OF sides dataset(1-4) _ dataset(6), where x = x
          and u = "u\<lparr>ct_ProviderPID := t_ProviderPID t, ct_UpdatedAt := at\<rparr>"])
        (use new(1) [OF t(3)] new(1) [OF u(2)] new(2,3) dataset(5) agreement(1) policy fits t u in
         \<open>simp_all add: transfer_of_def has_agreement_def transfer_frames transfer_pid_recorded
           tra.create_lookup tra.create_invar\<close>)
    then show ?thesis by (rule always_dialogue_mono) auto
  qed
  show "always_talk T F P (requestTransfer (newHandler C) u) w v (\<lambda>xs ys w' v'.
      always_dialogue T F (Suc (Suc 0)) C P (w', [] @ xs) (v', [] @ ys) ?R)"
    by (rule always_talk_mono [OF asked]) (use rest in auto)
qed

lemma concluded_agreements:
  assumes "concluded C P d cpid aid s s'"
  shows "find_agreement aid s \<noteq> None" "has_agreement s' aid OriginNegotiated d cpid (ParticipantID (cn_cfg C))"
  using assms by (auto simp: concluded_def has_agreement_def)

text \<open>The exchange; its environment and its result are those of the theorem below.\<close>

lemma delivery_exchange:
  assumes sides: "one_moment T" "knows T C P" "knows T P C"
    and operator: "rq_Authorization r = ''Bearer '' @ MgmtToken (cn_cfg C)" "MgmtToken (cn_cfg C) \<noteq> ''''"
      "decode (dec_struct transferInitiateBody_fields) zero_transferInitiateBody (rq_Body r) = Some body"
      "tb_ProviderID body = ParticipantID (cn_cfg P)" "tb_AgreementID body = aid" "aid \<noteq> ''''"
      "tb_Format body \<noteq> ''''" "tb_ConnectorAddress body \<noteq> ''''"
    and agreement: "find_agreement aid (db w) \<noteq> None"
      "has_agreement (db v) aid OriginNegotiated d x (ParticipantID (cn_cfg C))"
    and dataset: "findConfiguredDataset (cn_cfg P) d = Some ds" "d_SourceFile ds \<noteq> ''''"
      "d_SimulateInterruptAfterBytes ds = 0" "files v (d_SourceFile ds) = Some content"
      "\<And>now. T now \<Longrightarrow> isValid ds now"
    and policy: "resolveTransferSequence (cn_cfg P) aid d = [TransferStarted]"
      "snd (resolveConsumerTransferPolicy (cn_cfg C) aid) = []"
    and fits: "int (length content) \<le> sint (MaxDownloadBytes (cn_cfg C))"
      "sint (MaxDownloadBytes (cn_cfg C)) < 2 ^ 63 - 1"
    and stores: "store_wf (db w)" "store_wf (db v)"
      "\<And>u. F u \<Longrightarrow> segment u \<and> find_consumer_transfer u (db w) = None \<and> find_transfer u (db v) = None \<and>
        u \<notin> set (pulling w) \<and> files w (partialPath (cn_cfg C) u) = None"
    and answers: "\<And>i. smooth T F (ask i)" "\<And>k i. smooth T F (a k i)" "\<And>k j i. smooth T F (b k j i)"
  shows "\<exists>evs g w1 w2 v2 cpid pid.
    run (management_router C ''POST'' [''transfers'', ''initiate''] r) ask w = (evs, [g], w1) \<and>
    answered evs = [Reply StatusOK None] \<and>
    dialogue 3 C P a b (w1, [g]) (v, []) = ((w2, []), (v2, [])) \<and>
    received C P aid cpid pid content w2 (db v2)"
proof -
  let ?p = "management_router C ''POST'' [''transfers'', ''initiate''] r"
  obtain evs gs w1 where run: "run ?p ask w = (evs, gs, w1)" by (metis prod_cases3)
  have "\<And>u. F u \<Longrightarrow> find_consumer_transfer u (db w) = None" using stores(3) by blast
  from always_run [OF always_transfer_initiate [OF sides(2) operator agreement(1) this] answers(1) run]
  obtain u where u: "answered evs = [Reply StatusOK None]" "gs = [requestTransfer (newHandler C) u]"
    "F (ct_ConsumerPID u)" "transfer_of P aid u" "w1 = w\<lparr>db := snd (CreateConsumerTransfer u IoOk (db w))\<rparr>" by blast
  have fresh: "segment x \<and> find_transfer x (db v) = None \<and> x \<notin> set (pulling w1) \<and>
      files w1 (partialPath (cn_cfg C) x) = None" if "F x" for x
    using stores(3) [OF that] by (simp add: u(5))
  have row: "store_wf (db w1)" "find_consumer_transfer (ct_ConsumerPID u) (db w1) = Some u"
    using stores(1) stores(3) [OF u(3)] by (simp_all add: u(5) ctr.create_invar ctr.create_lookup)
  have concludes: "always_dialogue T F 3 C P (w1, [requestTransfer (newHandler C) u]) (v, []) (\<lambda>((w', xs), (v', ys)).
      xs = [] \<and> ys = [] \<and> (\<exists>pid. received C P aid (ct_ConsumerPID u) pid content w' (db v')))"
    by (rule delivery_concludes [where F = F and w = w1 and v = v and u = u, OF sides policy(1) dataset agreement(2)
        operator(6) policy(2) fits fresh row(1) stores(2) u(4,3) row(2)])
  obtain w2 xs v2 ys where result: "dialogue 3 C P a b (w1, gs) (v, []) = ((w2, xs), (v2, ys))"
    by (metis surj_pair)
  have "xs = [] \<and> ys = [] \<and> (\<exists>pid. received C P aid (ct_ConsumerPID u) pid content w2 (db v2))"
    using always_dialogueD [OF concludes, of a b, OF answers(2,3)] result u(2) by simp
  then obtain pid where dialogue: "dialogue 3 C P a b (w1, gs) (v, []) = ((w2, []), (v2, []))"
    "received C P aid (ct_ConsumerPID u) pid content w2 (db v2)"
    using result by blast
  show ?thesis
    by (intro exI conjI) (rule run [unfolded u(2)], rule u(1), rule dialogue(1) [unfolded u(2)], rule dialogue(2))
qed

text \<open>
  C13. Two connectors that list each other move a file under the agreement they have recorded: the
  operator of the consumer asks for a transfer, and when the goroutines of both have taken their
  turns, in three of them, no work is left, the transfer is STARTED on both sides, and the consumer
  has the whole file under its final name, the transfer's row says so, and the pull is over.  The
  exchange is one of the interleavings of either connector.
\<close>

theorem two_connectors_move_a_file:
  assumes sides: "one_moment T" "knows T C P" "knows T P C"
    and operator: "rq_Authorization r = ''Bearer '' @ MgmtToken (cn_cfg C)" "MgmtToken (cn_cfg C) \<noteq> ''''"
      "decode (dec_struct transferInitiateBody_fields) zero_transferInitiateBody (rq_Body r) = Some body"
      "tb_ProviderID body = ParticipantID (cn_cfg P)" "tb_AgreementID body = aid" "aid \<noteq> ''''"
      "tb_Format body \<noteq> ''''" "tb_ConnectorAddress body \<noteq> ''''"
    and agreement: "find_agreement aid (db w) \<noteq> None"
      "has_agreement (db v) aid OriginNegotiated d x (ParticipantID (cn_cfg C))"
    and dataset: "findConfiguredDataset (cn_cfg P) d = Some ds" "d_SourceFile ds \<noteq> ''''"
      "d_SimulateInterruptAfterBytes ds = 0" "files v (d_SourceFile ds) = Some content"
      "\<And>now. T now \<Longrightarrow> isValid ds now"
    and policy: "resolveTransferSequence (cn_cfg P) aid d = [TransferStarted]"
      "snd (resolveConsumerTransferPolicy (cn_cfg C) aid) = []"
    and fits: "int (length content) \<le> sint (MaxDownloadBytes (cn_cfg C))"
      "sint (MaxDownloadBytes (cn_cfg C)) < 2 ^ 63 - 1"
    and stores: "store_wf (db w)" "store_wf (db v)"
      "\<And>u. F u \<Longrightarrow> segment u \<and> find_consumer_transfer u (db w) = None \<and> find_transfer u (db v) = None \<and>
        u \<notin> set (pulling w) \<and> files w (partialPath (cn_cfg C) u) = None"
    and answers: "\<And>i. smooth T F (ask i)" "\<And>k i. smooth T F (a k i)" "\<And>k j i. smooth T F (b k j i)"
  shows "\<exists>evs g w1 w2 v2 cpid pid.
    run (management_router C ''POST'' [''transfers'', ''initiate''] r) ask w = (evs, [g], w1) \<and>
    answered evs = [Reply StatusOK None] \<and>
    dialogue 3 C P a b (w1, [g]) (v, []) = ((w2, []), (v2, [])) \<and>
    received C P aid cpid pid content w2 (db v2) \<and>
    (\<exists>ps tr qs sr. reachable (message C) (w, [], []) (w2, ps, tr) \<and>
       reachable (message P) (v, [], []) (v2, qs, sr))"
proof -
  obtain evs g w1 w2 v2 cpid pid where exchange:
    "run (management_router C ''POST'' [''transfers'', ''initiate''] r) ask w = (evs, [g], w1)"
    "answered evs = [Reply StatusOK None]" "dialogue 3 C P a b (w1, [g]) (v, []) = ((w2, []), (v2, []))"
    "received C P aid cpid pid content w2 (db v2)"
    using delivery_exchange [where T = T and F = F and r = r and body = body and aid = aid and d = d and x = x and ds = ds
        and w = w and v = v and C = C and P = P and ask = ask and a = a and b = b and content = content] assms by metis
  have "message C (management_router C ''POST'' [''transfers'', ''initiate''] r)" by (auto simp: message_def)
  from dialogue_of_initiated [OF exchange(1) this exchange(3), of "[]" "[]" "[]" "[]"]
  obtain ps tr qs sr where history: "reachable (message C) (w, [], []) (w2, ps, tr)"
    "reachable (message P) (v, [], []) (v2, qs, sr)" by (elim exE conjE)
  show ?thesis
    by (intro exI conjI) (rule exchange(1), rule exchange(2), rule exchange(3), rule exchange(4), rule history(1),
      rule history(2))
qed

section \<open>From an offer to its file\<close>

text \<open>
  C11. The whole exchange: two connectors that list each other, of which one advertises a dataset and
  has its file, and two requests of the other's operator: the first asks for the offer, the second
  for a transfer under the agreement the first has led to.  Each is answered 200, and after four and
  three turns no work is left, the contract is concluded on both sides, and the consumer has the whole
  file under its final name.  The exchange is one of the interleavings of either connector.
\<close>

theorem an_offer_leads_to_its_file:
  assumes sides: "one_moment T" "knows T C P" "knows T P C" "MgmtToken (cn_cfg C) \<noteq> ''''"
    and operator: "rq_Authorization r = ''Bearer '' @ MgmtToken (cn_cfg C)"
      "decode (dec_struct initiateRequestBody_fields) zero_initiateRequestBody (rq_Body r) = Some body"
      "ib_ProviderID body = ParticipantID (cn_cfg P)" "ib_DatasetID body = d" "d \<noteq> ''''"
      "ib_OfferID body = d @ offerIDSuffix" "ib_ConnectorAddress body \<noteq> ''''"
    and fetching: "\<And>aid. rq_Authorization (fetch aid) = ''Bearer '' @ MgmtToken (cn_cfg C)"
      "\<And>aid. decode (dec_struct transferInitiateBody_fields) zero_transferInitiateBody (rq_Body (fetch aid)) =
         Some (order aid)"
      "\<And>aid. tb_ProviderID (order aid) = ParticipantID (cn_cfg P)" "\<And>aid. tb_AgreementID (order aid) = aid"
      "\<And>aid. tb_Format (order aid) \<noteq> ''''" "\<And>aid. tb_ConnectorAddress (order aid) \<noteq> ''''"
    and offer: "findConfiguredDataset (cn_cfg P) d = Some ds" "\<And>t. T t \<Longrightarrow> isValid ds t"
      "\<not> d_TerminateOnVerify ds" "\<And>t. d_ValidityUntil ds = Some t \<Longrightarrow> four_digit_year t"
      "d_SourceFile ds \<noteq> ''''" "d_SimulateInterruptAfterBytes ds = 0" "files v (d_SourceFile ds) = Some content"
    and policy: "p_OnIdle (resolvePolicy (cn_cfg C) d) \<noteq> ''abandon''"
      "p_OnAgreement (resolvePolicy (cn_cfg C) d) = ''verify''"
      "\<And>aid. F aid \<Longrightarrow> resolveTransferSequence (cn_cfg P) aid d = [TransferStarted]"
      "\<And>aid. F aid \<Longrightarrow> snd (resolveConsumerTransferPolicy (cn_cfg C) aid) = []"
    and fits: "int (length content) \<le> sint (MaxDownloadBytes (cn_cfg C))"
      "sint (MaxDownloadBytes (cn_cfg C)) < 2 ^ 63 - 1"
    and stores: "store_wf (db w)" "store_wf (db v)"
      "\<And>u. F u \<Longrightarrow> segment u \<and> find_consumer u (db w) = None \<and> find_negotiation u (db w) = None \<and>
        find_agreement u (db w) = None \<and> find_negotiation u (db v) = None \<and> find_agreement u (db v) = None \<and>
        find_consumer_transfer u (db w) = None \<and> find_transfer u (db v) = None \<and>
        u \<notin> set (pulling w) \<and> files w (partialPath (cn_cfg C) u) = None"
    and answers: "\<And>i. smooth T F (ask i)" "\<And>k i. smooth T F (a k i)" "\<And>k j i. smooth T F (b k j i)"
      "\<And>i. smooth T F (ask' i)" "\<And>k i. smooth T F (a' k i)" "\<And>k j i. smooth T F (b' k j i)"
  shows "\<exists>evs g w1 w2 v2 ncpid aid evs' g' w3 w4 v4 cpid pid.
    run (management_router C ''POST'' [''negotiations'', ''initiate''] r) ask w = (evs, [g], w1) \<and>
    answered evs = [Reply StatusOK None] \<and>
    dialogue 4 C P a b (w1, [g]) (v, []) = ((w2, []), (v2, [])) \<and>
    concluded C P d ncpid aid (db w2) (db v2) \<and>
    run (management_router C ''POST'' [''transfers'', ''initiate''] (fetch aid)) ask' w2 = (evs', [g'], w3) \<and>
    answered evs' = [Reply StatusOK None] \<and>
    dialogue 3 C P a' b' (w3, [g']) (v2, []) = ((w4, []), (v4, [])) \<and>
    received C P aid cpid pid content w4 (db v4) \<and>
    (\<exists>ps tr qs sr. reachable (message C) (w, [], []) (w4, ps, tr) \<and>
       reachable (message P) (v, [], []) (v4, qs, sr))"
proof -
  let ?ask = "management_router C ''POST'' [''negotiations'', ''initiate''] r"
  let ?fetch = "\<lambda>aid. management_router C ''POST'' [''transfers'', ''initiate''] (fetch aid)"
  have "\<And>u. F u \<Longrightarrow> segment u \<and> find_consumer u (db w) = None \<and> find_negotiation u (db w) = None \<and>
      find_agreement u (db w) = None \<and> find_negotiation u (db v) = None \<and> find_agreement u (db v) = None"
    using stores(3) by blast
  from contract_exchange [where ask = ask and a = a and b = b and v = v, OF sides(1-3) operator(1) sides(4) operator(2-7)
      offer(1-4) policy(1,2) stores(1,2) this answers(1-3),
      simplified triv_forall_equality True_implies_equals implies_True_equals simp_thms]
  obtain evs g w1 w2 v2 ncpid aid where agreed: "run ?ask ask w = (evs, [g], w1)"
    "answered evs = [Reply StatusOK None]" "dialogue 4 C P a b (w1, [g]) (v, []) = ((w2, []), (v2, []))" "F aid"
    "concluded C P d ncpid aid (db w2) (db v2)" "settled w w2" "settled v v2"
    by (elim exE conjE) (rule that; assumption)
  have kept: "files w2 = files w" "pulling w2 = pulling w" "files v2 = files v"
    "consumer_transfer_processes (db w2) = consumer_transfer_processes (db w)"
    "transfer_processes (db v2) = transfer_processes (db v)" "store_wf (db w2)" "store_wf (db v2)"
    using agreed(6,7) by (simp_all add: settled_def undisturbed_def)
  have fresh: "\<And>u. F u \<Longrightarrow> segment u \<and> find_consumer_transfer u (db w2) = None \<and> find_transfer u (db v2) = None \<and>
      u \<notin> set (pulling w2) \<and> files w2 (partialPath (cn_cfg C) u) = None"
    unfolding kept using stores(3) by blast
  have "aid \<noteq> ''''" "files v2 (d_SourceFile ds) = Some content"
    using stores(3) [OF agreed(4)] offer(7) kept(3) by (auto simp: segment_def)
  from delivery_exchange [where ask = ask' and a = a' and b = b' and r = "fetch aid" and body = "order aid" and aid = aid
      and d = d and x = ncpid and ds = ds and w = w2 and v = v2 and content = content and T = T and F = F
      and C = C and P = P, OF sides(1-3) fetching(1) sides(4) fetching(2) [of aid] fetching(3) [of aid] fetching(4) [of aid]
      this(1) fetching(5) [of aid] fetching(6) [of aid] concluded_agreements [OF agreed(5)] offer(1,5,6) this(2) offer(2)
      policy(3,4) [OF agreed(4)] fits kept(6,7) fresh answers(4-6),
      simplified triv_forall_equality True_implies_equals implies_True_equals simp_thms]
  obtain evs' g' w3 w4 v4 cpid pid where moved: "run (?fetch aid) ask' w2 = (evs', [g'], w3)"
    "answered evs' = [Reply StatusOK None]" "dialogue 3 C P a' b' (w3, [g']) (v2, []) = ((w4, []), (v4, []))"
    "received C P aid cpid pid content w4 (db v4)"
    by (elim exE conjE) (rule that; assumption)
  have entries: "message C ?ask" "message C (?fetch aid)" by (auto simp: message_def)
  obtain ps tr qs sr where first: "reachable (message C) (w, [], []) (w2, ps, tr)"
    "reachable (message P) (v, [], []) (v2, qs, sr)"
    using dialogue_of_initiated [OF agreed(1) entries(1) agreed(3), of "[]" "[]" "[]" "[]"] by (elim exE conjE)
  obtain ps' tr' qs' sr' where second: "reachable (message C) (w2, ps, tr) (w4, ps', tr')"
    "reachable (message P) (v2, qs, sr) (v4, qs', sr')"
    using dialogue_of_initiated [OF moved(1) entries(2) moved(3), of ps tr qs sr] by (elim exE conjE)
  show ?thesis
    by (intro exI conjI) (rule agreed(1), rule agreed(2), rule agreed(3), rule agreed(5), rule moved(1), rule moved(2),
      rule moved(3), rule moved(4), rule reachable_trans [OF second(1) first(1)],
      rule reachable_trans [OF second(2) first(2)])
qed

section \<open>The connectors of the examples\<close>

definition demo_fetch :: "string \<Rightarrow> request" where
  "demo_fetch aid = demo_request\<lparr>rq_Authorization := ''Bearer secret'',
     rq_Body := Some (JObj [(''providerId'', JStr ''p''), (''agreementId'', JStr aid),
       (''format'', JStr ''HTTP-PULL''), (''connectorAddress'', JStr ''http://p/2025-1'')])\<rparr>"

definition demo_order :: "string \<Rightarrow> transferInitiateBody" where
  "demo_order aid = \<lparr>tb_ProviderID = ''p'', tb_AgreementID = aid, tb_Format = ''HTTP-PULL'',
     tb_ConnectorAddress = ''http://p/2025-1''\<rparr>"

lemma demo_fetch_read:
  "decode (dec_struct transferInitiateBody_fields) zero_transferInitiateBody (rq_Body (demo_fetch aid)) =
     Some (demo_order aid)"
  "rq_Authorization (demo_fetch aid) = ''Bearer secret''"
  by (simp_all add: demo_fetch_def demo_order_def demo_decode_defs transferInitiateBody_fields_def
      zero_transferInitiateBody_def)

definition consumer_world :: world where
  "consumer_world = empty_world\<lparr>db := empty_store\<lparr>agreements :=
     [demo_agreement\<lparr>a_Origin := ''agreed'', a_CounterpartyID := ''p''\<rparr>]\<rparr>\<rparr>"

definition provider_world :: world where
  "provider_world = empty_world\<lparr>db := empty_store\<lparr>agreements := [demo_agreement]\<rparr>, files := [''f'' \<mapsto> [1, 2, 3]]\<rparr>"

theorem two_connectors_move_a_file_witness:
  "\<exists>evs g w1 w2 v2 cpid pid.
    run (management_router demo_consumer ''POST'' [''transfers'', ''initiate''] (demo_fetch ''n0''))
      (\<lambda>i. demo_answer) consumer_world = (evs, [g], w1) \<and>
    answered evs = [Reply StatusOK None] \<and>
    dialogue 3 demo_consumer demo_provider (\<lambda>k i. demo_answer) (\<lambda>k j i. demo_answer) (w1, [g]) (provider_world, []) =
      ((w2, []), (v2, [])) \<and>
    received demo_consumer demo_provider ''n0'' cpid pid [1, 2, 3] w2 (db v2)"
proof -
  have "store_wf (db consumer_world)" "store_wf (db provider_world)"
    "pulling consumer_world = []" "files consumer_world = (\<lambda>p. None)"
    "consumer_transfer_processes (db consumer_world) = []" "transfer_processes (db provider_world) = []"
    "find_agreement ''n0'' (db consumer_world) \<noteq> None" "files provider_world ''f'' = Some [1, 2, 3]"
    "has_agreement (db provider_world) ''n0'' OriginNegotiated ''d1'' ''c0'' (ParticipantID (cn_cfg demo_consumer))"
    by (simp_all add: consumer_world_def provider_world_def empty_world_def empty_store_def store_wf_def
        demo_agreement_def table_simps has_agreement_def OriginNegotiated_def demo_consumer_def demo_peer_def)
  then show ?thesis
    using two_connectors_move_a_file [where T = "\<lambda>t. t = 0" and F = "\<lambda>u. u = ''u1''" and
        r = "demo_fetch ''n0''" and body = "demo_order ''n0''" and aid = "''n0''" and d = "''d1''" and x = "''c0''"
        and ds = demo_dataset and w = consumer_world and v = provider_world and content = "[1, 2, 3]"
        and C = demo_consumer and P = demo_provider and ask = "\<lambda>i. demo_answer" and a = "\<lambda>k i. demo_answer"
        and b = "\<lambda>k j i. demo_answer"] demo_peers_know demo_sides
    by (simp add: demo_fetch_read demo_order_def segment_def resolveConsumerTransferPolicy_def) blast
qed

text \<open>Two connectors with empty stores.\<close>

definition stocked_world :: world where
  "stocked_world = empty_world\<lparr>files := [''f'' \<mapsto> [1, 2, 3]]\<rparr>"

theorem an_offer_leads_to_its_file_witness:
  "\<exists>evs g w1 w2 v2 ncpid aid evs' g' w3 w4 v4 cpid pid.
    run (management_router demo_consumer ''POST'' [''negotiations'', ''initiate''] demo_initiate)
      (\<lambda>i. demo_answer) empty_world = (evs, [g], w1) \<and>
    dialogue 4 demo_consumer demo_provider (\<lambda>k i. demo_answer) (\<lambda>k j i. demo_answer) (w1, [g]) (stocked_world, []) =
      ((w2, []), (v2, [])) \<and>
    concluded demo_consumer demo_provider ''d1'' ncpid aid (db w2) (db v2) \<and>
    run (management_router demo_consumer ''POST'' [''transfers'', ''initiate''] (demo_fetch aid))
      (\<lambda>i. demo_answer) w2 = (evs', [g'], w3) \<and>
    dialogue 3 demo_consumer demo_provider (\<lambda>k i. demo_answer) (\<lambda>k j i. demo_answer) (w3, [g']) (v2, []) =
      ((w4, []), (v4, [])) \<and>
    received demo_consumer demo_provider aid cpid pid [1, 2, 3] w4 (db v4)"
proof -
  let ?body = "\<lparr>ib_ProviderID = ''p'', ib_OfferID = ''d1#offer'', ib_DatasetID = ''d1'',
    ib_ConnectorAddress = ''http://p/2025-1''\<rparr>"
  have "decode (dec_struct initiateRequestBody_fields) zero_initiateRequestBody (rq_Body demo_initiate) = Some ?body"
    "rq_Authorization demo_initiate = ''Bearer secret''"
    by (simp_all add: demo_initiate_def demo_decode_defs initiateRequestBody_fields_def zero_initiateRequestBody_def)
  moreover have "resolvePolicy (cn_cfg demo_consumer) ''d1'' =
      \<lparr>p_DatasetID = ''d1'', p_OnOffer = ''accept'', p_OnAgreement = ''verify'', p_OnIdle = ''wait''\<rparr>"
    by (simp add: resolvePolicy_def normalizedPolicy_def demo_consumer_def demo_peer_def demo_cfg_def)
  moreover have "db empty_world = empty_store" "db stocked_world = empty_store" "store_wf empty_store"
    "pulling empty_world = []" "files empty_world = (\<lambda>p. None)" "files stocked_world ''f'' = Some [1, 2, 3]"
    by (simp_all add: empty_world_def stocked_world_def store_wf_empty)
  ultimately show ?thesis
    using an_offer_leads_to_its_file [where T = "\<lambda>t. t = 0" and F = "\<lambda>u. u = ''u1''" and r = demo_initiate
        and body = ?body and fetch = demo_fetch and order = demo_order and d = "''d1''" and ds = demo_dataset
        and w = empty_world and v = stocked_world and content = "[1, 2, 3]" and C = demo_consumer and P = demo_provider
        and ask = "\<lambda>i. demo_answer" and a = "\<lambda>k i. demo_answer" and b = "\<lambda>k j i. demo_answer"
        and ask' = "\<lambda>i. demo_answer" and a' = "\<lambda>k i. demo_answer" and b' = "\<lambda>k j i. demo_answer"]
      demo_peers_know demo_sides
    by (simp add: demo_fetch_read demo_order_def segment_def resolveConsumerTransferPolicy_def offerIDSuffix_def
        empty_store_def) blast
qed

end
