(* ===== verification/DownloadLimits.thy ===== *)
theory DownloadLimits
  imports TransferRuns
begin

text \<open>
  What a pull may leave on the disk: whatever the counterparty sends and whatever the disk and the
  database answer, \<^verbatim>\<open>pullTransferData\<close> touches only the two files of its transfer, and neither grows
  past \<^verbatim>\<open>max_download_bytes\<close>, but for the one byte by which the partial file shows that the limit
  was exceeded.
\<close>

text \<open>What may have happened to the files between two worlds.\<close>

definition stored_within :: "handler \<Rightarrow> string \<Rightarrow> world \<Rightarrow> world \<Rightarrow> bool" where
  "stored_within h pid w w' \<longleftrightarrow>
     (let partial = partialPath (h_cfg h) pid; final = downloadPath (h_cfg h) pid;
          limit = sint (MaxDownloadBytes (h_cfg h))
      in (\<forall>f. f \<noteq> partial \<longrightarrow> f \<noteq> final \<longrightarrow> files w' f = files w f) \<and>
         (files w' final = files w final \<or> (\<exists>bs. files w' final = Some bs \<and> int (length bs) \<le> limit)) \<and>
         (files w' partial \<in> {None, files w partial} \<or>
            (\<exists>bs. files w' partial = Some bs \<and> int (length bs) \<le> limit + 1)))"

lemma stored_within_files: "files w' = files w \<Longrightarrow> stored_within h pid w w'"
  by (simp add: stored_within_def)

lemma stored_within_trans:
  "stored_within h pid w v \<Longrightarrow> stored_within h pid v u \<Longrightarrow> stored_within h pid w u"
  by (auto simp: stored_within_def Let_def)

lemma stored_within_partial:
  assumes "\<And>f. f \<noteq> partialPath (h_cfg h) pid \<Longrightarrow> files w' f = files w f"
    and "files w' (partialPath (h_cfg h) pid) = Some bs"
    and "files w (partialPath (h_cfg h) pid) = Some bs \<or> int (length bs) \<le> sint (MaxDownloadBytes (h_cfg h)) + 1"
  shows "stored_within h pid w w'"
  using assms partial_not_final [of "h_cfg h" pid] by (auto simp: stored_within_def Let_def)

lemma files_finish: "files (snd (snd (run (pull_finish pid o') a w))) = files w"
  by (simp add: pull_finish_def)

text \<open>The rename: what was copied is within the limit when the count says so.\<close>

lemma run_place_within:
  assumes w: "files w (partialPath (h_cfg h) pid) = Some bs"
    "\<not> MaxDownloadBytes (h_cfg h) - existing <s n \<Longrightarrow> int (length bs) \<le> sint (MaxDownloadBytes (h_cfg h))"
  shows "stored_within h pid w (snd (snd (run
    (pull_place h pid n (MaxDownloadBytes (h_cfg h) - existing) expected o' (pull_finish pid)) a w)))"
  using w partial_not_final [of "h_cfg h" pid]
  by (auto simp: pull_place_def Let_def files_finish stored_within_def set_file_def)

text \<open>The limit of the copy, in 64-bit arithmetic: an overflow reads nothing.\<close>

lemma copy_limit:
  fixes limit existing :: int64
  assumes "0 \<le> sint existing" and "0 < sint limit"
    and "bytes = fst (copy_limited (limit - existing + 1) resp)"
  shows "bytes = [] \<or> sint existing + int (length bytes) \<le> sint limit + 1"
    and "\<not> limit - existing <s word_of_nat (length bytes) \<Longrightarrow> sint existing + int (length bytes) \<le> sint limit"
proof -
  have left: "sint (limit - existing) = sint limit - sint existing"
    using assms(1,2) sint64_bounds [of limit] sint64_bounds [of existing] by (intro sint64_diff) auto
  have copied: "int (length bytes) \<le> max 0 (sint (limit - existing + 1))"
    using assms(3) by (auto simp: copy_limited_def Let_def)
  have room: "sint (limit - existing + 1) \<le> sint limit - sint existing + 1"
  proof (cases "sint limit - sint existing < 2 ^ 63 - 1")
    case True
    then show ?thesis
      using sint64_of_int [of "sint (limit - existing) + 1"] left sint64_bounds(1) [of "limit - existing"] by simp
  next
    case False
    have "sint (limit - existing + 1) < 2 ^ 63" by (rule sint64_bounds(2))
    with False show ?thesis by simp
  qed
  show "bytes = [] \<or> sint existing + int (length bytes) \<le> sint limit + 1"
    using copied room by (cases bytes) auto
  have "int (length bytes) < 2 ^ 63"
    using copied sint64_bounds(2) [of "limit - existing + 1"] by auto
  then have "sint (word_of_nat (length bytes) :: int64) = int (length bytes)" by (intro sint_length) simp
  then show "\<not> limit - existing <s word_of_nat (length bytes) \<Longrightarrow> sint existing + int (length bytes) \<le> sint limit"
    using left by (simp add: word_sless_alt)
qed

lemma run_copy_within:
  assumes resumed: "0 <s existing \<Longrightarrow> \<exists>old. files w (partialPath (h_cfg h) pid) = Some old \<and> int (length old) = sint existing"
    and bounds: "0 \<le> sint existing" "0 < sint (MaxDownloadBytes (h_cfg h))"
  shows "stored_within h pid w (snd (snd (run
    (pull_copy h pid existing expected resp o' (pull_finish pid)) a w)))"
proof -
  let ?p = "partialPath (h_cfg h) pid" and ?f = "downloadPath (h_cfg h) pid"
  let ?M = "MaxDownloadBytes (h_cfg h)"
  let ?w1 = "if 0 <s existing then append_file ?p [] w else set_file ?p (Some []) w"
  obtain bytes err where copied: "copy_limited (?M - existing + 1) resp = (bytes, err)" by fastforce
  note limit = copy_limit [OF bounds, of bytes resp, unfolded copied, simplified]
  obtain old where old: "files ?w1 ?p = Some old" "int (length old) = sint existing" "\<And>f. f \<noteq> ?p \<Longrightarrow> files ?w1 f = files w f"
    "0 <s existing \<Longrightarrow> files w ?p = Some old"
  proof (cases "0 <s existing")
    case True
    then show ?thesis using that resumed by (auto simp: append_file_def set_file_def)
  next
    case False
    then have "sint existing = 0" using bounds(1) by (simp add: word_sless_alt)
    then show ?thesis using that [of "[]"] False by (auto simp: set_file_def)
  qed
  let ?w2 = "append_file ?p bytes ?w1"
  have small: "sint existing = 0" if "\<not> 0 <s existing" using bounds(1) that by (simp add: word_sless_alt)
  have one: "stored_within h pid w ?w1"
  proof (rule stored_within_partial [OF old(3,1)])
    show "files w ?p = Some old \<or> int (length old) \<le> sint ?M + 1"
      using old(2,4) small bounds(2) by (cases "0 <s existing") auto
  qed
  have bytes: "files ?w2 ?p = Some (old @ bytes)" using old(1) by (simp add: append_file_def set_file_def)
  have other: "files ?w2 f = files w f" if "f \<noteq> ?p" for f
    using old(3) [OF that] that by (simp add: append_file_def set_file_def)
  have two: "stored_within h pid w ?w2"
  proof (rule stored_within_partial [OF other bytes])
    show "files w ?p = Some (old @ bytes) \<or> int (length (old @ bytes)) \<le> sint ?M + 1"
      using old(2,4) bounds(2) small limit(1) by (cases "bytes = []"; cases "0 <s existing") auto
  qed
  have three: "stored_within h pid w (snd (snd (run (pull_place h pid (word_of_nat (length bytes)) (?M - existing)
      expected o'' (pull_finish pid)) b ?w2)))" for o'' b
    by (rule stored_within_trans [OF two run_place_within [OF bytes]]) (use limit(2) old(2) in simp)
  have finish: "stored_within h pid w v \<Longrightarrow> stored_within h pid w (snd (snd (run (pull_finish pid o'') b v)))" for v o'' b
    by (rule stored_within_trans [OF _ stored_within_files [OF files_finish]])
  have none: "stored_within h pid w w" by (simp add: stored_within_files)
  have opened: "stored_within h pid w (if an_Io (a 0) = IoFail then w else ?w1)" using one none by simp
  show ?thesis
    using finish [OF opened] finish [OF one] finish [OF two] three
    by (cases "an_Io (a 0)"; cases "an_Io (a (Suc 0))") (simp_all add: pull_copy_def Let_def copied)
qed

text \<open>The size a pull starts from, and what of the world it stands for.\<close>

definition resumes :: "handler \<Rightarrow> string \<Rightarrow> int64 \<Rightarrow> world \<Rightarrow> bool" where
  "resumes h pid existing w \<longleftrightarrow> 0 \<le> sint existing \<and> 0 < sint (MaxDownloadBytes (h_cfg h)) \<and>
     (0 <s existing \<longrightarrow> (\<exists>old. files w (partialPath (h_cfg h) pid) = Some old \<and> int (length old) = sint existing))"

lemma run_response_within:
  assumes "resumes h (ct_ConsumerPID t) existing w"
  shows "stored_within h (ct_ConsumerPID t) w (snd (snd (run
    (pull_response h t existing resp o' (pull_finish (ct_ConsumerPID t))) a w)))"
proof -
  let ?pid = "ct_ConsumerPID t"
  have none: "stored_within h ?pid w (snd (snd (run (pull_finish ?pid o'') b w)))" for o'' b
    by (simp add: stored_within_files files_finish)
  have copy: "stored_within h ?pid w (snd (snd (run (pull_copy h ?pid existing expected resp o' (pull_finish ?pid)) b v)))"
    if "files v = files w" for expected b v
    by (rule stored_within_trans [OF stored_within_files [OF that] run_copy_within])
      (use assms that in \<open>auto simp: resumes_def\<close>)
  have discard: "stored_within h ?pid w (snd (snd (run (discardPartial o' (partialPath (h_cfg h) ?pid)
      (\<lambda>o''. pull_finish ?pid (fail o'' reason))) b w)))" for reason b
    using partial_not_final [of "h_cfg h" ?pid]
    by (auto simp: discardPartial_def stored_within_def files_finish set_file_def Let_def)
  show ?thesis
    by (auto simp: pull_response_def Let_def case_prod_beta none copy discard)
qed

lemma run_request_within:
  assumes "resumes h (ct_ConsumerPID t) existing w"
  shows "stored_within h (ct_ConsumerPID t) w (snd (snd (run
    (pull_request h t endpoint existing o' (pull_finish (ct_ConsumerPID t))) a w)))"
proof -
  let ?pid = "ct_ConsumerPID t"
  have none: "stored_within h ?pid w (snd (snd (run (pull_finish ?pid o'') b w)))" for o'' b
    by (simp add: stored_within_files files_finish)
  let ?k = "\<lambda>x. case x of (authorization, maySend) \<Rightarrow>
     if \<not> maySend then pull_finish ?pid (fail o' errRosterExpired)
     else Http \<lparr>hq_Method = ''GET'', hq_URL = endpoint, hq_Body = None, hq_Authorization = authorization,
                hq_Range = (if 0 <s existing then rangeHeader existing else '''')\<rparr>
       (\<lambda>res. case res of
          HttpFailed c \<Rightarrow> pull_finish ?pid (fail o' (pull_failure c))
        | HttpOk resp \<Rightarrow> pull_response h t existing resp o' (pull_finish ?pid))"
  have sent: "stored_within h ?pid w (snd (snd (run (?k x) b w)))" for x b
    by (auto simp: none run_response_within [OF assms] split: prod.split http_result.split)
  have minted: "stored_within h ?pid w (snd (snd (run (mintOutboundCredential h aud ?k) b w)))" for aud b
  proof -
    obtain x j where "run (mintOutboundCredential h aud ?k) b w = run (?k x) (\<lambda>i. b (i + j)) w"
      using run_mint by blast
    then show ?thesis using sent by (simp only:)
  qed
  show ?thesis by (simp add: pull_request_def none minted)
qed

lemma run_pull_within:
  assumes "0 <s MaxDownloadBytes (h_cfg h)"
    and "\<And>old. files w (partialPath (h_cfg h) (ct_ConsumerPID t)) = Some old \<Longrightarrow> length old < 2 ^ 63"
  shows "stored_within h (ct_ConsumerPID t) w (snd (snd (run (pullTransferData h t addr) a w)))"
proof -
  let ?pid = "ct_ConsumerPID t"
  let ?e = "file_size (partialPath (h_cfg h) ?pid) w"
  have "resumes h ?pid ?e v" "resumes h ?pid 0 v" if "files v = files w" for v
    using assms(1,2) that
    by (auto simp: resumes_def file_size_def word_sless_alt sint_length split: option.splits)
  then have request: "stored_within h ?pid w (snd (snd (run (pull_request h t endpoint ?e o' (pull_finish ?pid)) b v)))"
    "stored_within h ?pid w (snd (snd (run (pull_request h t endpoint 0 o' (pull_finish ?pid)) b v)))"
    if "files v = files w" for endpoint o' b v
    using run_request_within stored_within_trans [OF stored_within_files [OF that]] that by blast+
  have none: "stored_within h ?pid w (snd (snd (run (pull_finish ?pid o'') b v)))" if "files v = files w" for o'' b v
    using that by (simp add: stored_within_files files_finish)
  have size: "file_size path (w\<lparr>pulling := p\<rparr>) = file_size path w" for path p
    by (simp add: file_size_def)
  show ?thesis
    by (auto simp: pullTransferData_def pull_body_def Let_def size none request stored_within_files
        split: option.splits)
qed

text \<open>
  C14. Whatever the provider answers, of whatever length, a pull changes no file but its partial and
  its final one; a file it places has at most the configured number of bytes, and the partial file
  it leaves at most one more.  An overflow of the limit's arithmetic does not weaken this.
\<close>

theorem downloads_are_bounded:
  assumes "0 <s MaxDownloadBytes (h_cfg h)"
    and "\<And>old. files w (partialPath (h_cfg h) (ct_ConsumerPID t)) = Some old \<Longrightarrow> length old < 2 ^ 63"
    and "run (pullTransferData h t addr) a w = (evs, started, w')"
  shows "(\<forall>f. f \<notin> {partialPath (h_cfg h) (ct_ConsumerPID t), downloadPath (h_cfg h) (ct_ConsumerPID t)} \<longrightarrow>
        files w' f = files w f) \<and>
    (files w' (downloadPath (h_cfg h) (ct_ConsumerPID t)) = files w (downloadPath (h_cfg h) (ct_ConsumerPID t)) \<or>
      (\<exists>bs. files w' (downloadPath (h_cfg h) (ct_ConsumerPID t)) = Some bs \<and>
         int (length bs) \<le> sint (MaxDownloadBytes (h_cfg h)))) \<and>
    (files w' (partialPath (h_cfg h) (ct_ConsumerPID t)) \<in>
        {None, files w (partialPath (h_cfg h) (ct_ConsumerPID t))} \<or>
      (\<exists>bs. files w' (partialPath (h_cfg h) (ct_ConsumerPID t)) = Some bs \<and>
         int (length bs) \<le> sint (MaxDownloadBytes (h_cfg h)) + 1))"
proof -
  have "stored_within h (ct_ConsumerPID t) w w'"
    using run_pull_within [OF assms(1), of w t addr a] assms(2,3) by simp
  then show ?thesis by (simp add: stored_within_def Let_def)
qed

text \<open>The demonstration's connector pulling from a provider that sends 150 bytes instead of 100.\<close>

theorem downloads_are_bounded_witness:
  "\<exists>evs started w'. run (pullTransferData (newHandler demo_connector) demo_pull
       (Some \<lparr>da_Type = '''', da_EndpointType = '''', da_Endpoint = ''http://c/data''\<rparr>))
       (\<lambda>i. demo_answer\<lparr>an_Http := delivered (Stream 200 '''' 150 (replicate 150 7))\<rparr>) demo_world =
      (evs, started, w') \<and> files w' ''f'' = Some [1, 2, 3] \<and>
    files w' (downloadPath demo_cfg ''x0'') \<in> insert None (Some ` {bs. length bs \<le> 100})"
proof -
  let ?r = "run (pullTransferData (newHandler demo_connector) demo_pull
       (Some \<lparr>da_Type = '''', da_EndpointType = '''', da_Endpoint = ''http://c/data''\<rparr>))
       (\<lambda>i. demo_answer\<lparr>an_Http := delivered (Stream 200 '''' 150 (replicate 150 7))\<rparr>) demo_world"
  have pid: "ct_ConsumerPID demo_pull = ''x0''" and cfg: "h_cfg (newHandler demo_connector) = demo_cfg"
    and limit: "MaxDownloadBytes demo_cfg = 100"
    by (simp_all add: demo_pull_def demo_handler demo_cfg_def)
  have names: "''f'' \<noteq> partialPath demo_cfg ''x0''" "''f'' \<noteq> downloadPath demo_cfg ''x0''"
    by (simp_all add: partialPath_def downloadPath_def demo_cfg_def)
  then have none: "files demo_world (partialPath demo_cfg ''x0'') = None" "files demo_world (downloadPath demo_cfg ''x0'') = None"
    by (auto simp: demo_world_def)
  obtain evs started w' where r: "?r = (evs, started, w')" by (cases ?r) auto
  have "files demo_world ''f'' = Some [1, 2, 3]" by (simp add: demo_world_def)
  then show ?thesis
    using downloads_are_bounded [OF _ _ r] none names unfolding pid cfg limit
    by (intro exI [of _ evs] exI [of _ started] exI [of _ w'] conjI r) (auto simp: word_sless_alt)
qed

end
