(* ===== verification/Identifiers.thy ===== *)
theory Identifiers
  imports DownloadLimits
begin

unbundle bit_operations_syntax

text \<open>
  The identifiers this connector draws (\<^verbatim>\<open>NewUUID\<close> of \<^verbatim>\<open>internal/store/store.go\<close>), from the
  sixteen bytes of \<^verbatim>\<open>crypto/rand\<close>: their form, the bits of randomness they carry, and that the
  files of two downloads named by them never meet and stay in the download directory.
\<close>

section \<open>The text of an identifier\<close>

definition hex_char :: "nat \<Rightarrow> char" where
  "hex_char n = ''0123456789abcdef'' ! n"

text \<open>\<^verbatim>\<open>fmt.Sprintf("%x", bs)\<close>.\<close>

definition hex :: "8 word list \<Rightarrow> string" where
  "hex bs = concat (map (\<lambda>b. [hex_char (unat b div 16), hex_char (unat b mod 16)]) bs)"

definition uuid_bytes :: "8 word list \<Rightarrow> 8 word list" where
  "uuid_bytes b = b[6 := b ! 6 AND 0x0f OR 0x40, 8 := b ! 8 AND 0x3f OR 0x80]"

definition uuid_text :: "8 word list \<Rightarrow> string" where
  "uuid_text b = hex (take 4 b) @ ''-'' @ hex (take 2 (drop 4 b)) @ ''-'' @ hex (take 2 (drop 6 b)) @ ''-'' @
     hex (take 2 (drop 8 b)) @ ''-'' @ hex (drop 10 b)"

text \<open>\<open>None\<close> is the failure of the random source.\<close>

definition NewUUID :: "8 word list option \<Rightarrow> string option" where
  "NewUUID random = map_option (\<lambda>b. uuid_text (uuid_bytes b)) random"

section \<open>Their form\<close>

lemma length_hex [simp]: "length (hex bs) = 2 * length bs"
  by (induction bs) (simp_all add: hex_def)

lemma hex_char_inj: "m < 16 \<Longrightarrow> n < 16 \<Longrightarrow> hex_char m = hex_char n \<longleftrightarrow> m = n"
proof -
  have "distinct ''0123456789abcdef''" by simp
  then show "m < 16 \<Longrightarrow> n < 16 \<Longrightarrow> hex_char m = hex_char n \<longleftrightarrow> m = n"
    unfolding hex_char_def by (subst nth_eq_iff_index_eq) simp_all
qed

lemma hex_char_in: "n < 16 \<Longrightarrow> hex_char n \<in> set ''0123456789abcdef''"
  unfolding hex_char_def by (rule nth_mem) simp

lemma unat_byte: "unat (b :: 8 word) div 16 < 16" "unat (b :: 8 word) mod 16 < 16"
  using unsigned_less [of b, where ?'a = nat] by simp_all

lemma hex_digits_eq:
  "unat (b :: 8 word) div 16 = unat (c :: 8 word) div 16 \<and> unat b mod 16 = unat c mod 16 \<longleftrightarrow> b = c"
  by (metis div_mult_mod_eq word_unat_eq_iff)

lemma hex_inj: "length bs = length cs \<Longrightarrow> hex bs = hex cs \<longleftrightarrow> bs = cs"
proof (induction bs cs rule: list_induct2)
  case (Cons b bs c cs)
  then show ?case
    using hex_digits_eq [of b c] by (auto simp: hex_def hex_char_inj unat_byte)
qed simp

lemma set_hex: "set (hex bs) \<subseteq> set ''0123456789abcdef''"
proof (induction bs)
  case (Cons b bs)
  then show ?case
    using hex_char_in [OF unat_byte(1), of b] hex_char_in [OF unat_byte(2), of b] by (auto simp: hex_def)
qed (simp add: hex_def)

lemma sixteen:
  assumes "length b = 16"
  obtains b0 b1 b2 b3 b4 b5 b6 b7 b8 b9 bA bB bC bD bE bF where
    "b = [b0, b1, b2, b3, b4, b5, b6, b7, b8, b9, bA, bB, bC, bD, bE, bF]"
  using assms that by (auto simp: numeral_eq_Suc length_Suc_conv)

lemma uuid_text_chars: "set (uuid_text b) \<subseteq> insert CHR ''-'' (set ''0123456789abcdef'')"
  unfolding uuid_text_def using set_hex by fastforce

lemma uuid_text_length: "length b = 16 \<Longrightarrow> length (uuid_text b) = 36"
  by (simp add: uuid_text_def)

lemma uuid_text_inj: "length b = 16 \<Longrightarrow> length c = 16 \<Longrightarrow> uuid_text b = uuid_text c \<longleftrightarrow> b = c"
proof -
  assume len: "length b = 16" "length c = 16"
  have "b = c" if "uuid_text b = uuid_text c"
  proof -
    have "take 4 b = take 4 c \<and> take 2 (drop 4 b) = take 2 (drop 4 c) \<and> take 2 (drop 6 b) = take 2 (drop 6 c) \<and>
        take 2 (drop 8 b) = take 2 (drop 8 c) \<and> drop 10 b = drop 10 c"
      using that len by (simp add: uuid_text_def hex_inj)
    then show ?thesis
      using len by (elim sixteen [of b] sixteen [of c]) simp_all
  qed
  then show "uuid_text b = uuid_text c \<longleftrightarrow> b = c" by blast
qed

text \<open>The version and the variant of RFC 4122, in the bits the code sets.\<close>

definition every_byte :: "(8 word \<Rightarrow> bool) \<Rightarrow> bool" where
  "every_byte P \<longleftrightarrow> list_all (\<lambda>n. P (word_of_nat n)) [0 ..< 256]"

lemma every_byte: "every_byte P \<Longrightarrow> P x"
proof -
  assume "every_byte P"
  moreover have "unat x \<in> set [0 ..< 256]" using unsigned_less [of x, where ?'a = nat] by simp
  ultimately have "P (word_of_nat (unat x))" unfolding every_byte_def list_all_iff by blast
  then show ?thesis by simp
qed

lemma version_digit: "unat ((x :: 8 word) AND 0x0f OR 0x40) div 16 = 4"
  by (rule every_byte [of "\<lambda>x. unat (x AND 0x0f OR 0x40) div 16 = 4"]) code_simp

lemma variant_digit: "unat ((x :: 8 word) AND 0x3f OR 0x80) div 16 \<in> {8, 9, 10, 11}"
  by (rule every_byte [of "\<lambda>x. unat (x AND 0x3f OR 0x80) div 16 \<in> {8, 9, 10, 11}"]) code_simp

lemma free_bits:
  "((x :: 8 word) AND 0x0f OR 0x40) AND 0x0f = x AND 0x0f" "(x AND 0x3f OR 0x80) AND 0x3f = x AND 0x3f"
  by (rule every_byte [of "\<lambda>x. (x AND 0x0f OR 0x40) AND 0x0f = x AND 0x0f"], code_simp)
    (rule every_byte [of "\<lambda>x. (x AND 0x3f OR 0x80) AND 0x3f = x AND 0x3f"], code_simp)

lemma NewUUID_form:
  assumes "NewUUID (Some b) = Some u" and "length b = 16"
  shows "length u = 36 \<and> set u \<subseteq> insert CHR ''-'' (set ''0123456789abcdef'') \<and>
    u ! 8 = CHR ''-'' \<and> u ! 13 = CHR ''-'' \<and> u ! 18 = CHR ''-'' \<and> u ! 23 = CHR ''-'' \<and>
    u ! 14 = CHR ''4'' \<and> u ! 19 \<in> set ''89ab''"
proof -
  have u: "u = uuid_text (uuid_bytes b)" using assms(1) by (simp add: NewUUID_def)
  have "length (uuid_bytes b) = 16" using assms(2) by (simp add: uuid_bytes_def)
  moreover have "u ! 8 = CHR ''-'' \<and> u ! 13 = CHR ''-'' \<and> u ! 18 = CHR ''-'' \<and> u ! 23 = CHR ''-'' \<and>
      u ! 14 = hex_char (unat (b ! 6 AND 0x0f OR 0x40) div 16) \<and>
      u ! 19 = hex_char (unat (b ! 8 AND 0x3f OR 0x80) div 16)"
    unfolding u using assms(2) by (elim sixteen [of b]) (simp add: uuid_text_def uuid_bytes_def hex_def)
  moreover have "hex_char n \<in> set ''89ab''" if "n \<in> {8, 9, 10, 11}" for n
    using that by (auto simp: hex_char_def)
  ultimately show ?thesis
    using uuid_text_length uuid_text_chars [of "uuid_bytes b"] version_digit [of "b ! 6"] variant_digit [of "b ! 8"]
    by (simp add: u hex_char_def)
qed

text \<open>Two identifiers are the same only when the 122 bits that are not fixed are.\<close>

lemma NewUUID_inj:
  assumes "length b = 16" and "length c = 16"
  shows "NewUUID (Some b) = NewUUID (Some c) \<longleftrightarrow>
    (\<forall>i < 16. i \<noteq> 6 \<longrightarrow> i \<noteq> 8 \<longrightarrow> b ! i = c ! i) \<and>
    b ! 6 AND 0x0f = c ! 6 AND 0x0f \<and> b ! 8 AND 0x3f = c ! 8 AND 0x3f"
proof -
  have or: "(x AND 0x0f OR 0x40 = y AND 0x0f OR 0x40) \<longleftrightarrow> (x AND 0x0f = y AND 0x0f)"
    "(x AND 0x3f OR 0x80 = y AND 0x3f OR 0x80) \<longleftrightarrow> (x AND 0x3f = y AND 0x3f)" for x y :: "8 word"
    by (metis free_bits)+
  have "NewUUID (Some b) = NewUUID (Some c) \<longleftrightarrow> uuid_bytes b = uuid_bytes c"
    using assms by (simp add: NewUUID_def uuid_text_inj uuid_bytes_def)
  also have "\<dots> \<longleftrightarrow> (\<forall>i < 16. uuid_bytes b ! i = uuid_bytes c ! i)"
    using assms by (simp add: list_eq_iff_nth_eq uuid_bytes_def)
  also have "\<dots> \<longleftrightarrow> (\<forall>i < 16. i \<noteq> 6 \<longrightarrow> i \<noteq> 8 \<longrightarrow> b ! i = c ! i) \<and>
      b ! 6 AND 0x0f = c ! 6 AND 0x0f \<and> b ! 8 AND 0x3f = c ! 8 AND 0x3f"
    using assms or by (auto simp: uuid_bytes_def nth_list_update)
  finally show ?thesis .
qed

section \<open>Files named by identifiers\<close>

lemma uuid_paths:
  assumes "NewUUID (Some b) = Some u" and "NewUUID (Some c) = Some v" and "u \<noteq> v"
  shows "{partialPath cfg u, downloadPath cfg u} \<inter> {partialPath cfg v, downloadPath cfg v} = {}"
proof -
  have "CHR ''.'' \<notin> set u" "CHR ''.'' \<notin> set v"
    using assms(1,2) uuid_text_chars [of "uuid_bytes b"] uuid_text_chars [of "uuid_bytes c"]
    by (auto simp: NewUUID_def)
  then show ?thesis using assms(3) by (auto simp: partialPath_def downloadPath_def)
qed

text \<open>A pull leaves the files of every other pull alone.\<close>

lemma pulls_do_not_meet:
  assumes "0 <s MaxDownloadBytes (h_cfg h)"
    and "\<And>old. files w (partialPath (h_cfg h) (ct_ConsumerPID t)) = Some old \<Longrightarrow> length old < 2 ^ 63"
    and "NewUUID (Some b) = Some (ct_ConsumerPID t)" and "NewUUID (Some c) = Some other"
    and "other \<noteq> ct_ConsumerPID t"
    and "run (pullTransferData h t addr) a w = (evs, started, w')"
  shows "files w' (partialPath (h_cfg h) other) = files w (partialPath (h_cfg h) other) \<and>
    files w' (downloadPath (h_cfg h) other) = files w (downloadPath (h_cfg h) other)"
  using run_pull_within [OF assms(1,2), of w t addr a] uuid_paths [OF assms(4,3,5), of "h_cfg h"] assms(6)
  by (auto simp: stored_within_def Let_def)

end
