(* ===== verification/IdleReader.thy ===== *)
theory IdleReader
  imports Pull
begin

text \<open>
  The reader a pull copies through (\<^verbatim>\<open>internal/dsp/idle_reader.go\<close>): a timer that every byte pushes
  out and that cancels the request when it runs out.  What the connection does is a schedule, the
  instants at which the reads under the reader return, and the shutdown of the connector.  The
  theory proves that the copy lasts as long as the gaps between bytes stay below the idle time,
  whatever its length and duration, that it breaks off in the first longer gap, and that everything
  a copy can bring is an answer \<open>Pull\<close> reckons with.
\<close>

section \<open>The reader and its timer\<close>

text \<open>\<open>ir_timer\<close> is the instant at which the timer's function runs, if it is still to run.\<close>

record idleTimeoutReader =
  ir_idle :: instant
  ir_timer :: "instant option"
  ir_fired :: bool

datatype read_error = ReadEOF | ReadBroken | ErrIdleTimeout

type_synonym reading = "8 word list \<times> read_error option"

definition newIdleTimeoutReader :: "instant \<Rightarrow> instant \<Rightarrow> idleTimeoutReader" where
  "newIdleTimeoutReader idle now = \<lparr>ir_idle = idle, ir_timer = Some (now + idle), ir_fired = False\<rparr>"

text \<open>The timer's own act: at its instant it cancels the context, unless the context has its cause.\<close>

definition elapse :: "instant \<Rightarrow> idleTimeoutReader \<times> cause option \<Rightarrow> idleTimeoutReader \<times> cause option" where
  "elapse now rc = (case ir_timer (fst rc) of
     None \<Rightarrow> rc
   | Some at \<Rightarrow>
       if now < at then rc
       else ((fst rc)\<lparr>ir_timer := None\<rparr>, Some (case snd rc of None \<Rightarrow> CauseIdle | Some c \<Rightarrow> c)))"

text \<open>\<^verbatim>\<open>Timer.Reset\<close>: whether the timer was still to run, and the timer set again.\<close>

definition reset_timer :: "instant \<Rightarrow> idleTimeoutReader \<Rightarrow> bool \<times> idleTimeoutReader" where
  "reset_timer now r = (ir_timer r \<noteq> None, r\<lparr>ir_timer := Some (now + ir_idle r)\<rparr>)"

text \<open>\<open>arrived\<close> is what the wrapped reader returns and \<open>now\<close> when.\<close>

definition Read :: "instant \<Rightarrow> reading \<Rightarrow> idleTimeoutReader \<Rightarrow> reading \<times> idleTimeoutReader" where
  "Read now arrived r =
     (if ir_fired r then (([], Some ErrIdleTimeout), r)
      else if fst arrived \<noteq> [] then
        (let (active, r') = reset_timer now r
         in if \<not> active then ((fst arrived, Some ErrIdleTimeout), r'\<lparr>ir_fired := True\<rparr>) else (arrived, r'))
      else (arrived, r))"

definition Stop :: "idleTimeoutReader \<Rightarrow> idleTimeoutReader" where
  "Stop r = r\<lparr>ir_timer := None\<rparr>"

text \<open>A reader that was stopped no longer cancels the request.\<close>

lemma elapse_Stop: "elapse now (Stop r, cause) = (Stop r, cause)"
  by (simp add: elapse_def Stop_def)

section \<open>The copy\<close>

datatype happening = Shutdown | Arrives "8 word list" "read_error option"

text \<open>How the pull tells the ends of its copy apart.\<close>

definition copy_cause :: "cause option \<Rightarrow> read_error \<Rightarrow> cause" where
  "copy_cause cause err =
     (if cause = Some CauseIdle \<or> err = ErrIdleTimeout then CauseIdle
      else if cause = Some CauseShutdown then CauseShutdown
      else CauseOther)"

text \<open>
  \<^verbatim>\<open>io.Copy\<close> from a \<^verbatim>\<open>LimitReader\<close> over the reader.  When nothing arrives any more, the read under
  the reader returns with the cancellation: the one that was, or the timer's.
\<close>

fun io_copy :: "nat \<Rightarrow> idleTimeoutReader \<times> cause option \<Rightarrow> (instant \<times> happening) list \<Rightarrow> 8 word list \<times> cause option" where
  "io_copy 0 rc es = ([], None)"
| "io_copy (Suc n) rc [] = ([], Some (case snd rc of None \<Rightarrow> CauseIdle | Some c \<Rightarrow> c))"
| "io_copy (Suc n) rc ((now, Shutdown) # es) =
     (let (r, cause) = elapse now rc
      in io_copy (Suc n) (r, Some (case cause of None \<Rightarrow> CauseShutdown | Some c \<Rightarrow> c)) es)"
| "io_copy (Suc n) rc ((now, Arrives bs err) # es) =
     (let (r, cause) = elapse now rc;
          (reading, r') = Read now (take (Suc n) bs, if Suc n < length bs then None else err) r
      in case snd reading of
           None \<Rightarrow>
             (let (more, end) = io_copy (Suc n - length (fst reading)) (r', cause) es in (fst reading @ more, end))
         | Some ReadEOF \<Rightarrow> (fst reading, None)
         | Some e \<Rightarrow> (fst reading, Some (copy_cause cause e)))"

section \<open>How long a copy lasts\<close>

text \<open>Bytes that keep coming: each chunk before the idle time has passed since the one before.\<close>

primrec steady :: "instant \<Rightarrow> instant \<Rightarrow> (instant \<times> 8 word list) list \<Rightarrow> bool" where
  "steady idle t0 [] \<longleftrightarrow> True"
| "steady idle t0 (c # cs) \<longleftrightarrow> snd c \<noteq> [] \<and> fst c < t0 + idle \<and> steady idle (fst c) cs"

definition chunks :: "(instant \<times> 8 word list) list \<Rightarrow> (instant \<times> happening) list" where
  "chunks cs = map (\<lambda>(t, bs). (t, Arrives bs None)) cs"

definition chunk_bytes :: "(instant \<times> 8 word list) list \<Rightarrow> 8 word list" where
  "chunk_bytes cs = concat (map snd cs)"

definition last_time :: "instant \<Rightarrow> (instant \<times> 8 word list) list \<Rightarrow> instant" where
  "last_time t0 cs = (if cs = [] then t0 else fst (last cs))"

abbreviation running :: "instant \<Rightarrow> instant \<Rightarrow> idleTimeoutReader \<times> cause option" where
  "running idle t \<equiv> (newIdleTimeoutReader idle t, None)"

lemma io_copy_chunk:
  assumes "bs \<noteq> []" and "t < t0 + idle" and "length bs < limit"
  shows "io_copy limit (running idle t0) ((t, Arrives bs None) # es) =
    (let (more, end) = io_copy (limit - length bs) (running idle t) es in (bs @ more, end))"
  using assms
  by (cases limit) (auto simp: elapse_def newIdleTimeoutReader_def Read_def reset_timer_def)

lemma io_copy_steady:
  assumes "steady idle t0 cs" and "length (chunk_bytes cs) < limit"
  shows "io_copy limit (running idle t0) (chunks cs @ es) =
    (let (more, end) = io_copy (limit - length (chunk_bytes cs)) (running idle (last_time t0 cs)) es
     in (chunk_bytes cs @ more, end))"
  using assms
proof (induction cs arbitrary: t0 limit)
  case Nil
  then show ?case by (simp add: chunks_def chunk_bytes_def last_time_def)
next
  case (Cons c cs)
  obtain t bs where c: "c = (t, bs)" by fastforce
  have chunk: "io_copy limit (running idle t0) ((t, Arrives bs None) # chunks cs @ es) =
      (let (more, end) = io_copy (limit - length bs) (running idle t) (chunks cs @ es) in (bs @ more, end))"
    using Cons.prems by (intro io_copy_chunk) (auto simp: c chunk_bytes_def)
  have rest: "io_copy (limit - length bs) (running idle t) (chunks cs @ es) =
      (let (more, end) = io_copy (limit - length bs - length (chunk_bytes cs)) (running idle (last_time t cs)) es
       in (chunk_bytes cs @ more, end))"
    using Cons.prems by (intro Cons.IH) (auto simp: c chunk_bytes_def)
  have "chunks (c # cs) = (t, Arrives bs None) # chunks cs" "chunk_bytes (c # cs) = bs @ chunk_bytes cs"
    "last_time t0 (c # cs) = last_time t cs"
    by (simp_all add: chunks_def chunk_bytes_def last_time_def c)
  then show ?case using chunk rest by (simp add: Let_def split: prod.splits)
qed

text \<open>
  A body whose bytes keep coming is copied whole, however long it is and however long it takes; one
  that pauses for the idle time or longer is broken off there, with what arrived and the idle
  timeout as its cause, whether more would have arrived or not.
\<close>

lemma steady_body_is_copied:
  assumes "steady idle t0 cs" and "length (chunk_bytes cs) < limit"
    and "length (chunk_bytes cs) + length bs < limit" and "t < last_time t0 cs + idle"
  shows "io_copy limit (running idle t0) (chunks cs @ [(t, Arrives bs (Some ReadEOF))]) = (chunk_bytes cs @ bs, None)"
proof -
  obtain n where n: "limit - length (chunk_bytes cs) = Suc n" using assms(2) by (cases "limit - length (chunk_bytes cs)") auto
  have "length bs < Suc n" using assms(3) n by linarith
  then have "io_copy (Suc n) (running idle (last_time t0 cs)) [(t, Arrives bs (Some ReadEOF))] = (bs, None)"
    using assms(4) by (simp add: elapse_def newIdleTimeoutReader_def Read_def reset_timer_def)
  then show ?thesis by (simp add: io_copy_steady [OF assms(1,2)] n)
qed

definition run_out :: "idleTimeoutReader \<times> cause option \<Rightarrow> bool" where
  "run_out rc \<longleftrightarrow> ir_timer (fst rc) = None \<and> snd rc = Some CauseIdle \<and> \<not> ir_fired (fst rc)"

lemma io_copy_run_out:
  assumes "run_out rc" and "\<forall>e \<in> set es. snd e \<noteq> Arrives [] (Some ReadEOF)"
  shows "\<exists>bs. io_copy (Suc n) rc es = (bs, Some CauseIdle)"
  using assms
proof (induction es arbitrary: rc)
  case Nil
  then show ?case by (simp add: run_out_def)
next
  case (Cons e es)
  obtain now what where e: "e = (now, what)" by fastforce
  have rc: "rc = (fst rc, Some CauseIdle)" using Cons.prems(1) by (metis run_out_def prod.collapse)
  show ?case
  proof (cases what)
    case Shutdown
    then have "io_copy (Suc n) rc (e # es) = io_copy (Suc n) rc es"
      using Cons.prems(1) e by (cases rc) (simp add: elapse_def run_out_def)
    then show ?thesis using Cons by simp
  next
    case (Arrives bs err)
    have "run_out (fst rc, Some CauseIdle)" using Cons.prems(1) rc by simp
    then show ?thesis
      using Cons Arrives e
      by (cases "bs = []"; cases err rule: option.exhaust; cases "the err")
        (auto simp: elapse_def Read_def reset_timer_def copy_cause_def run_out_def split: prod.splits)
  qed
qed

lemma paused_body_is_broken_off:
  assumes "steady idle t0 cs" and "length (chunk_bytes cs) < limit"
    and "\<forall>e \<in> set es. last_time t0 cs + idle \<le> fst e" and "\<forall>e \<in> set es. snd e \<noteq> Arrives [] (Some ReadEOF)"
  shows "\<exists>bs. io_copy limit (running idle t0) (chunks cs @ es) = (chunk_bytes cs @ bs, Some CauseIdle)"
proof -
  obtain n where n: "limit - length (chunk_bytes cs) = Suc n" using assms(2) by (cases "limit - length (chunk_bytes cs)") auto
  have "\<exists>bs. io_copy (Suc n) (running idle (last_time t0 cs)) es = (bs, Some CauseIdle)"
  proof (cases es)
    case Nil
    then show ?thesis by simp
  next
    case (Cons e es')
    obtain r where r: "elapse (fst e) (running idle (last_time t0 cs)) = (r, Some CauseIdle)"
      "run_out (r, Some CauseIdle)"
      using assms(3) Cons by (auto simp: elapse_def newIdleTimeoutReader_def run_out_def)
    then have "elapse (fst e) (r, Some CauseIdle) = (r, Some CauseIdle)" by (simp add: elapse_def run_out_def)
    then have "io_copy (Suc n) (running idle (last_time t0 cs)) es = io_copy (Suc n) (r, Some CauseIdle) es"
      using r(1) Cons by (cases e; cases "snd e") simp_all
    then show ?thesis using io_copy_run_out [OF r(2) assms(4)] by simp
  qed
  then obtain bs where "io_copy (Suc n) (running idle (last_time t0 cs)) es = (bs, Some CauseIdle)" by blast
  then show ?thesis by (simp add: io_copy_steady [OF assms(1,2)] n)
qed

section \<open>The copy as the pull's model has it\<close>

lemma sint_word_of_nat_small: "n < 2 ^ 63 \<Longrightarrow> sint (word_of_nat n :: int64) = int n"
  using signed_take_bit_int_eq_self [of 63 "int n"] by (simp add: signed_of_nat)

lemma Read_length: "Read now arrived r = (reading, r') \<Longrightarrow> length (fst reading) \<le> length (fst arrived)"
  by (auto simp: Read_def reset_timer_def split: if_splits)

lemma io_copy_length: "length (fst (io_copy n rc es)) \<le> n"
proof (induction n rc es rule: io_copy.induct)
  case (4 n rc now bs err es)
  obtain r cause where r: "elapse now rc = (r, cause)" by fastforce
  obtain reading r' where read: "Read now (take (Suc n) bs, if Suc n < length bs then None else err) r = (reading, r')"
    by fastforce
  have "length (fst reading) \<le> Suc n" using Read_length [OF read] by simp
  moreover have "length (fst (io_copy (Suc n - length (fst reading)) (r', cause) es)) \<le> Suc n - length (fst reading)"
    if "snd reading = None"
    using 4 [OF r [symmetric] refl read [symmetric] refl that] by simp
  ultimately show ?case by (auto simp: r read split: prod.splits option.splits read_error.splits)
qed (auto split: prod.splits)

text \<open>
  Whatever the schedule, the copy is the one \<open>Pull.copy_limited\<close> makes of an answer with those
  bytes and that end: the answers a pull is given there leave nothing out.
\<close>

lemma io_copy_is_copy_limited:
  assumes "io_copy n rc es = (bs, end)" and "n < 2 ^ 63"
    and "hr_Data resp = bs" and "hr_DataEnd resp = end"
  shows "copy_limited (word_of_nat n) resp = io_copy n rc es"
proof -
  have "length bs \<le> n" using io_copy_length [of n rc es] assms(1) by simp
  moreover have "nat (sint (word_of_nat n :: int64)) = n" using sint_word_of_nat_small [OF assms(2)] by simp
  moreover have "bs = [] \<and> end = None" if "n = 0" using assms(1) that by simp
  ultimately show ?thesis using assms(1,3,4) by (auto simp: copy_limited_def Let_def)
qed

end
