(* ===== verification/ConfigLoad.thy ===== *)
theory ConfigLoad
  imports Config Roster
begin

text \<open>
  Loading the configuration (\<^verbatim>\<open>Load\<close>, \<^verbatim>\<open>validate\<close> and \<^verbatim>\<open>validateDatasetID\<close> of
  \<^verbatim>\<open>internal/config/config.go\<close>): the defaults, the document, the environment, and the checks in
  the order the code makes them.  The YAML decoder, \<^verbatim>\<open>url.Parse\<close>, \<^verbatim>\<open>time.ParseDuration\<close>
  and the file system are parameters.  The theory proves what every loaded configuration
  satisfies.
\<close>

section \<open>Errors and loops\<close>

datatype dataset_error = IDRequired | IDNotURL | IDNotAbsolute | IDNotSegment

datatype config_error =
    YamlMalformed
  | EnvDevMode
  | EnvIdleTimeout
  | EnvMaxDownload
  | PublicURLRequired
  | PublicURLNotURL
  | PublicURLNotAbsolute
  | PublicURLNotHTTPS
  | PublicURLScheme string
  | PublicURLSlash
  | ParticipantIDRequired
  | DatasetInvalid nat dataset_error
  | SourceFileMissing nat
  | SourceFileDirectory nat
  | DuplicateID nat
  | PolicyNoDataset nat
  | PolicyOnOffer nat string
  | PolicyOnAgreement nat string
  | PolicyOnIdle nat string
  | TransferNoAgreement nat
  | TransferState nat nat string
  | InterruptNegative nat
  | DatasetTransferState nat nat string
  | ConsumerTransferNoAgreement nat
  | ConsumerTransferAfter nat string
  | ConsumerTransferState nat nat string
  | AuthOffOutsideDevMode
  | ParticipantKeyRequired
  | RosterRequired
  | RosterSignerRequired
  | DataDirRequired
  | MgmtTokenShort
  | IdleTimeoutNotPositive
  | MaxDownloadNotPositive

text \<open>A sequence of checks, each with its early return, and a loop of checks with its index.\<close>

primrec first_error :: "'e option list \<Rightarrow> 'e option" where
  "first_error [] = None"
| "first_error (e # es) = (case e of None \<Rightarrow> first_error es | Some x \<Rightarrow> Some x)"

primrec check_each :: "(nat \<Rightarrow> 'a \<Rightarrow> 'e option) \<Rightarrow> nat \<Rightarrow> 'a list \<Rightarrow> 'e option" where
  "check_each f i [] = None"
| "check_each f i (x # xs) = (case f i x of None \<Rightarrow> check_each f (Suc i) xs | Some e \<Rightarrow> Some e)"

lemma first_error_None [simp]: "first_error es = None \<longleftrightarrow> (\<forall>e \<in> set es. e = None)"
  by (induction es) (auto split: option.splits)

lemma check_each_passes:
  "check_each f i xs = None \<Longrightarrow> x \<in> set xs \<Longrightarrow> \<exists>j. f j x = None"
  by (induction xs arbitrary: i) (auto split: option.splits)

lemma check_each_None:
  "(\<And>j x. x \<in> set xs \<Longrightarrow> f j x = None) \<Longrightarrow> check_each f i xs = None"
  by (induction xs arbitrary: i) auto

section \<open>The environment of the loader\<close>

text \<open>
  What decoding a document into a configuration gives: \<^verbatim>\<open>io.EOF\<close> for an empty document leaves
  the configuration as it was.
\<close>

datatype yaml_result = Decoded Config | EmptyDocument | Malformed

record loader =
  ld_yaml :: "string \<Rightarrow> Config \<Rightarrow> yaml_result"
  ld_parse_url :: url_parser
  ld_parse_duration :: "string \<Rightarrow> int64 option"
  ld_stat :: "string \<Rightarrow> bool option"
  ld_getenv :: "string \<Rightarrow> string"

text \<open>\<^verbatim>\<open>strconv.ParseBool\<close>.\<close>

definition ParseBool :: "string \<Rightarrow> bool option" where
  "ParseBool s =
     (if s \<in> {''1'', ''t'', ''T'', ''TRUE'', ''true'', ''True''} then Some True
      else if s \<in> {''0'', ''f'', ''F'', ''FALSE'', ''false'', ''False''} then Some False
      else None)"

section \<open>Validation\<close>

definition minMgmtTokenLen :: nat where "minMgmtTokenLen = 16"

definition validateDatasetID :: "url_parser \<Rightarrow> string \<Rightarrow> dataset_error option" where
  "validateDatasetID parse_url ident =
     (if ident = '''' then Some IDRequired
      else (case parse_url ident of
         None \<Rightarrow> Some IDNotURL
       | Some (scheme, host, userinfo) \<Rightarrow>
           if scheme = '''' then Some IDNotAbsolute
           else if set ident \<inter> set (''/?# '' @ [CHR 0x09, CHR 0x0A]) \<noteq> {} then
             Some IDNotSegment
           else None))"

definition validOnOffer :: "string set" where
  "validOnOffer = {''accept'', ''passive'', ''reject'', ''counter''}"

definition validOnAgreement :: "string set" where
  "validOnAgreement = {''verify'', ''reject''}"

definition validOnIdle :: "string set" where
  "validOnIdle = {''wait'', ''abandon''}"

definition validTransferState :: "string set" where
  "validTransferState = {''STARTED'', ''SUSPENDED'', ''COMPLETED'', ''TERMINATED''}"

definition validAfterState :: "string set" where
  "validAfterState = {''REQUESTED'', ''STARTED'', ''SUSPENDED''}"

definition check_public_url :: "url_parser \<Rightarrow> Config \<Rightarrow> config_error option" where
  "check_public_url parse_url c =
     (if PublicURL c = '''' then Some PublicURLRequired
      else (case parse_url (PublicURL c) of
         None \<Rightarrow> Some PublicURLNotURL
       | Some (scheme, host, userinfo) \<Rightarrow>
           if host = '''' then Some PublicURLNotAbsolute
           else if scheme = ''http'' \<and> \<not> DevMode c then Some PublicURLNotHTTPS
           else if scheme \<noteq> ''http'' \<and> scheme \<noteq> ''https'' then Some (PublicURLScheme scheme)
           else if last (PublicURL c) = CHR ''/'' then Some PublicURLSlash
           else None))"

primrec check_datasets ::
  "loader \<Rightarrow> nat \<Rightarrow> string set \<Rightarrow> Dataset list \<Rightarrow> config_error option" where
  "check_datasets ld i seen [] = None"
| "check_datasets ld i seen (d # ds) = (case validateDatasetID (ld_parse_url ld) (d_ID d) of
     Some e \<Rightarrow> Some (DatasetInvalid i e)
   | None \<Rightarrow>
       if d_SourceFile d \<noteq> '''' \<and> ld_stat ld (d_SourceFile d) = None then Some (SourceFileMissing i)
       else if d_SourceFile d \<noteq> '''' \<and> ld_stat ld (d_SourceFile d) = Some True then
         Some (SourceFileDirectory i)
       else if d_ID d \<in> seen then Some (DuplicateID i)
       else check_datasets ld (Suc i) (insert (d_ID d) seen) ds)"

definition check_policy :: "nat \<Rightarrow> ConsumerPolicy \<Rightarrow> config_error option" where
  "check_policy i p =
     (if p_DatasetID p = '''' then Some (PolicyNoDataset i)
      else if p_OnOffer p \<noteq> '''' \<and> p_OnOffer p \<notin> validOnOffer then Some (PolicyOnOffer i (p_OnOffer p))
      else if p_OnAgreement p \<noteq> '''' \<and> p_OnAgreement p \<notin> validOnAgreement then
        Some (PolicyOnAgreement i (p_OnAgreement p))
      else if p_OnIdle p \<noteq> '''' \<and> p_OnIdle p \<notin> validOnIdle then Some (PolicyOnIdle i (p_OnIdle p))
      else None)"

definition check_sequence :: "(nat \<Rightarrow> string \<Rightarrow> config_error) \<Rightarrow> string list \<Rightarrow> config_error option" where
  "check_sequence err states =
     check_each (\<lambda>j s. if s \<in> validTransferState then None else Some (err j s)) 0 states"

definition check_transfer_policy :: "nat \<Rightarrow> TransferPolicy \<Rightarrow> config_error option" where
  "check_transfer_policy i p =
     (if tp_AgreementID p = '''' then Some (TransferNoAgreement i)
      else check_sequence (TransferState i) (tp_Sequence p))"

definition check_dataset_transfers :: "nat \<Rightarrow> Dataset \<Rightarrow> config_error option" where
  "check_dataset_transfers i d =
     (if d_SimulateInterruptAfterBytes d <s 0 then Some (InterruptNegative i)
      else check_sequence (DatasetTransferState i)
        (case d_TransferSequence d of None \<Rightarrow> [] | Some states \<Rightarrow> states))"

definition check_consumer_transfer_policy :: "nat \<Rightarrow> ConsumerTransferPolicy \<Rightarrow> config_error option" where
  "check_consumer_transfer_policy i p =
     (if cp_AgreementID p = '''' then Some (ConsumerTransferNoAgreement i)
      else if cp_After p \<noteq> '''' \<and> cp_After p \<notin> validAfterState then
        Some (ConsumerTransferAfter i (cp_After p))
      else check_sequence (ConsumerTransferState i) (cp_Sequence p))"

definition check_auth :: "Config \<Rightarrow> config_error option" where
  "check_auth c =
     (if \<not> AuthRequired c \<and> \<not> DevMode c then Some AuthOffOutsideDevMode
      else if AuthRequired c \<and> ParticipantKey c = '''' then Some ParticipantKeyRequired
      else if AuthRequired c \<and> RosterPath c = '''' then Some RosterRequired
      else if AuthRequired c \<and> RosterSigner c = '''' then Some RosterSignerRequired
      else None)"

definition check_limits :: "Config \<Rightarrow> config_error option" where
  "check_limits c =
     (if DataDir c = '''' then Some DataDirRequired
      else if MgmtToken c \<noteq> '''' \<and> length (MgmtToken c) < minMgmtTokenLen then Some MgmtTokenShort
      else if DataIdleTimeout c \<le>s 0 then Some IdleTimeoutNotPositive
      else if MaxDownloadBytes c \<le>s 0 then Some MaxDownloadNotPositive
      else None)"

definition validate :: "loader \<Rightarrow> Config \<Rightarrow> config_error option" where
  "validate ld c = first_error
     [check_public_url (ld_parse_url ld) c,
      if ParticipantID c = '''' then Some ParticipantIDRequired else None,
      check_datasets ld 0 {} (Datasets c),
      check_each check_policy 0 (ConsumerPolicies c),
      check_each check_transfer_policy 0 (TransferPolicies c),
      check_each check_dataset_transfers 0 (Datasets c),
      check_each check_consumer_transfer_policy 0 (ConsumerTransferPolicies c),
      check_auth c,
      check_limits c]"

section \<open>Loading\<close>

definition defaultDSPAddr :: string where "defaultDSPAddr = ''0.0.0.0:8080''"
definition defaultMgmtAddr :: string where "defaultMgmtAddr = ''127.0.0.1:8081''"
definition defaultDataIdleTimeout :: int64 where "defaultDataIdleTimeout = word_of_int (60 * second)"
definition defaultMaxDownloadBytes :: int64 where "defaultMaxDownloadBytes = push_bit 30 8"

definition default_config :: Config where
  "default_config = \<lparr>PublicURL = '''', ParticipantID = '''', Datasets = [], DevMode = False,
     DSPAddr = defaultDSPAddr, MgmtAddr = defaultMgmtAddr, MgmtToken = '''', DataDir = '''',
     DataIdleTimeout = defaultDataIdleTimeout, MaxDownloadBytes = defaultMaxDownloadBytes,
     ConsumerPolicies = [], TransferPolicies = [], ConsumerTransferPolicies = [],
     ParticipantKey = '''', RosterPath = '''', RosterSigner = '''', RequireAuth = None\<rparr>"

text \<open>An override of the environment: an unset and an empty variable are the same.\<close>

definition override :: "(string \<Rightarrow> string) \<Rightarrow> string \<Rightarrow> (string \<Rightarrow> Config \<Rightarrow> Config) \<Rightarrow> Config \<Rightarrow> Config" where
  "override getenv name put c = (if getenv name = '''' then c else put (getenv name) c)"

definition override_parsed ::
  "(string \<Rightarrow> string) \<Rightarrow> string \<Rightarrow> (string \<Rightarrow> 'v option) \<Rightarrow> config_error \<Rightarrow> ('v \<Rightarrow> Config \<Rightarrow> Config) \<Rightarrow>
   Config \<Rightarrow> config_error + Config" where
  "override_parsed getenv name parse err put c =
     (if getenv name = '''' then Inr c
      else (case parse (getenv name) of None \<Rightarrow> Inl err | Some v \<Rightarrow> Inr (put v c)))"

definition override_strings :: "(string \<Rightarrow> string) \<Rightarrow> Config \<Rightarrow> Config" where
  "override_strings getenv c0 =
     (let c1 = override getenv ''DSBOX_PUBLIC_URL'' (\<lambda>v c. c\<lparr>PublicURL := v\<rparr>) c0;
          c2 = override getenv ''DSBOX_PARTICIPANT_ID'' (\<lambda>v c. c\<lparr>ParticipantID := v\<rparr>) c1;
          c3 = override getenv ''DSBOX_DATA_DIR'' (\<lambda>v c. c\<lparr>DataDir := v\<rparr>) c2;
          c4 = override getenv ''DSBOX_DSP_ADDR'' (\<lambda>v c. c\<lparr>DSPAddr := v\<rparr>) c3;
          c5 = override getenv ''DSBOX_MGMT_ADDR'' (\<lambda>v c. c\<lparr>MgmtAddr := v\<rparr>) c4;
          c6 = override getenv ''DSBOX_PARTICIPANT_KEY'' (\<lambda>v c. c\<lparr>ParticipantKey := v\<rparr>) c5;
          c7 = override getenv ''DSBOX_ROSTER'' (\<lambda>v c. c\<lparr>RosterPath := v\<rparr>) c6;
          c8 = override getenv ''DSBOX_ROSTER_SIGNER'' (\<lambda>v c. c\<lparr>RosterSigner := v\<rparr>) c7
      in override getenv ''DSBOX_MGMT_TOKEN'' (\<lambda>v c. c\<lparr>MgmtToken := v\<rparr>) c8)"

definition Load :: "loader \<Rightarrow> string \<Rightarrow> config_error + Config" where
  "Load ld data =
     (let decoded = (case ld_yaml ld data default_config of
            Malformed \<Rightarrow> Inl YamlMalformed
          | EmptyDocument \<Rightarrow> Inr default_config
          | Decoded c \<Rightarrow> Inr c)
      in case decoded of
           Inl e \<Rightarrow> Inl e
         | Inr c0 \<Rightarrow>
      (case override_parsed (ld_getenv ld) ''DSBOX_DEV_MODE'' ParseBool EnvDevMode
              (\<lambda>v c. c\<lparr>DevMode := v\<rparr>) (override_strings (ld_getenv ld) c0) of
           Inl e \<Rightarrow> Inl e
         | Inr c1 \<Rightarrow>
      (case override_parsed (ld_getenv ld) ''DSBOX_DATA_IDLE_TIMEOUT'' (ld_parse_duration ld)
              EnvIdleTimeout (\<lambda>v c. c\<lparr>DataIdleTimeout := v\<rparr>) c1 of
           Inl e \<Rightarrow> Inl e
         | Inr c2 \<Rightarrow>
      (case override_parsed (ld_getenv ld) ''DSBOX_MAX_DOWNLOAD_BYTES'' ParseInt EnvMaxDownload
              (\<lambda>v c. c\<lparr>MaxDownloadBytes := v\<rparr>) c2 of
           Inl e \<Rightarrow> Inl e
         | Inr c3 \<Rightarrow>
      (case validate ld c3 of Some e \<Rightarrow> Inl e | None \<Rightarrow> Inr c3)))))"

section \<open>What a loaded configuration satisfies\<close>

lemma check_datasets_None:
  "check_datasets ld i seen ds = None \<Longrightarrow> distinct (map d_ID ds) \<and> d_ID ` set ds \<inter> seen = {} \<and>
   (\<forall>d \<in> set ds. validateDatasetID (ld_parse_url ld) (d_ID d) = None \<and>
     (d_SourceFile d \<noteq> '''' \<longrightarrow> ld_stat ld (d_SourceFile d) = Some False))"
proof (induction ds arbitrary: i seen)
  case (Cons d ds)
  then have "check_datasets ld (Suc i) (insert (d_ID d) seen) ds = None" "d_ID d \<notin> seen"
    "validateDatasetID (ld_parse_url ld) (d_ID d) = None"
    "d_SourceFile d \<noteq> '''' \<longrightarrow> ld_stat ld (d_SourceFile d) = Some False"
    by (auto split: option.splits if_splits)
  with Cons.IH [OF this(1)] show ?case by auto
qed simp

lemma validateDatasetID_None:
  "validateDatasetID parse_url ident = None \<longleftrightarrow> ident \<noteq> '''' \<and>
   (\<exists>scheme rest. parse_url ident = Some (scheme, rest) \<and> scheme \<noteq> '''') \<and>
   set ident \<inter> set (''/?# '' @ [CHR 0x09, CHR 0x0A]) = {}"
  by (auto simp: validateDatasetID_def split: option.splits if_splits)

lemma check_sequence_None: "check_sequence err states = None \<Longrightarrow> set states \<subseteq> validTransferState"
  by (auto simp: check_sequence_def dest!: check_each_passes split: if_splits)

text \<open>The stages a successful load went through.\<close>

lemma LoadE:
  assumes "Load ld data = Inr c"
  obtains c0 c1 c2 where
    "ld_yaml ld data default_config = Decoded c0 \<or>
      ld_yaml ld data default_config = EmptyDocument \<and> c0 = default_config"
    "override_parsed (ld_getenv ld) ''DSBOX_DEV_MODE'' ParseBool EnvDevMode
      (\<lambda>v c. c\<lparr>DevMode := v\<rparr>) (override_strings (ld_getenv ld) c0) = Inr c1"
    "override_parsed (ld_getenv ld) ''DSBOX_DATA_IDLE_TIMEOUT'' (ld_parse_duration ld)
      EnvIdleTimeout (\<lambda>v c. c\<lparr>DataIdleTimeout := v\<rparr>) c1 = Inr c2"
    "override_parsed (ld_getenv ld) ''DSBOX_MAX_DOWNLOAD_BYTES'' ParseInt EnvMaxDownload
      (\<lambda>v c. c\<lparr>MaxDownloadBytes := v\<rparr>) c2 = Inr c"
    "validate ld c = None"
  using assms unfolding Load_def Let_def
  by (cases "ld_yaml ld data default_config") (auto split: option.splits sum.splits)

lemma override_parsed_keeps:
  assumes "override_parsed getenv name parse err put c = Inr c'" and "\<And>v. field (put v c) = field c"
  shows "field c' = field c"
  using assms by (auto simp: override_parsed_def split: if_splits option.splits)

lemma override_strings_fields:
  "PublicURL (override_strings env c) = (if env ''DSBOX_PUBLIC_URL'' = '''' then PublicURL c else env ''DSBOX_PUBLIC_URL'')"
  "MgmtToken (override_strings env c) = (if env ''DSBOX_MGMT_TOKEN'' = '''' then MgmtToken c else env ''DSBOX_MGMT_TOKEN'')"
  "RequireAuth (override_strings env c) = RequireAuth c"
  by (simp_all add: override_strings_def override_def Let_def)

text \<open>The environment wins over the document, and never switches authentication.\<close>

lemma Load_environment:
  assumes "Load ld data = Inr c"
  obtains c0 where
    "ld_yaml ld data default_config = Decoded c0 \<or>
      ld_yaml ld data default_config = EmptyDocument \<and> c0 = default_config"
    "PublicURL c = (if ld_getenv ld ''DSBOX_PUBLIC_URL'' = '''' then PublicURL c0
      else ld_getenv ld ''DSBOX_PUBLIC_URL'')"
    "MgmtToken c = (if ld_getenv ld ''DSBOX_MGMT_TOKEN'' = '''' then MgmtToken c0
      else ld_getenv ld ''DSBOX_MGMT_TOKEN'')"
    "AuthRequired c = AuthRequired c0"
proof (rule LoadE [OF assms])
  fix c0 c1 c2
  assume doc: "ld_yaml ld data default_config = Decoded c0 \<or>
      ld_yaml ld data default_config = EmptyDocument \<and> c0 = default_config"
    and over: "override_parsed (ld_getenv ld) ''DSBOX_DEV_MODE'' ParseBool EnvDevMode
      (\<lambda>v c. c\<lparr>DevMode := v\<rparr>) (override_strings (ld_getenv ld) c0) = Inr c1"
    "override_parsed (ld_getenv ld) ''DSBOX_DATA_IDLE_TIMEOUT'' (ld_parse_duration ld)
      EnvIdleTimeout (\<lambda>v c. c\<lparr>DataIdleTimeout := v\<rparr>) c1 = Inr c2"
    "override_parsed (ld_getenv ld) ''DSBOX_MAX_DOWNLOAD_BYTES'' ParseInt EnvMaxDownload
      (\<lambda>v c. c\<lparr>MaxDownloadBytes := v\<rparr>) c2 = Inr c"
  have keep: "field c = field (override_strings (ld_getenv ld) c0)"
    if "\<And>v c. field (c\<lparr>DevMode := v\<rparr>) = field c" "\<And>v c. field (c\<lparr>DataIdleTimeout := v\<rparr>) = field c"
      "\<And>v c. field (c\<lparr>MaxDownloadBytes := v\<rparr>) = field c" for field :: "Config \<Rightarrow> 'f"
    using override_parsed_keeps [OF over(3), of field] override_parsed_keeps [OF over(2), of field]
      override_parsed_keeps [OF over(1), of field] that by simp
  show thesis
    by (rule that [OF doc])
      (simp_all add: keep [of PublicURL] keep [of MgmtToken] keep [of RequireAuth]
        override_strings_fields AuthRequired_def)
qed

lemma validated:
  assumes "validate ld c = None"
  shows "check_public_url (ld_parse_url ld) c = None" "ParticipantID c \<noteq> ''''"
    "check_datasets ld 0 {} (Datasets c) = None" "check_each check_policy 0 (ConsumerPolicies c) = None"
    "check_each check_transfer_policy 0 (TransferPolicies c) = None"
    "check_each check_dataset_transfers 0 (Datasets c) = None"
    "check_each check_consumer_transfer_policy 0 (ConsumerTransferPolicies c) = None"
    "check_auth c = None" "check_limits c = None"
  using assms unfolding validate_def first_error_None by (auto split: if_splits)

text \<open>The states the configured sequences may name.\<close>

lemma validated_sequences:
  assumes "validate ld c = None"
  shows "p \<in> set (TransferPolicies c) \<Longrightarrow> set (tp_Sequence p) \<subseteq> validTransferState"
    "q \<in> set (ConsumerTransferPolicies c) \<Longrightarrow> set (cp_Sequence q) \<subseteq> validTransferState"
    "d \<in> set (Datasets c) \<Longrightarrow> d_TransferSequence d = Some states \<Longrightarrow> set states \<subseteq> validTransferState"
  using check_each_passes [OF validated(5) [OF assms]] check_each_passes [OF validated(6) [OF assms]]
    check_each_passes [OF validated(7) [OF assms]]
  by (fastforce simp: check_transfer_policy_def check_consumer_transfer_policy_def check_dataset_transfers_def
      split: if_splits dest: check_sequence_None)+

text \<open>
  C35. A configuration is loaded only when its datasets are distinct absolute identifiers a path
  can name, with a readable file where they name one; every sequence it drives names states a
  transfer can be driven to; authentication is off only in development mode, and on it has a key,
  a roster and a signer; the public address is absolute, and encrypted outside development mode;
  and the management token, the idle timeout and the download limit are in their bounds.
\<close>

theorem loaded_configurations_are_valid:
  assumes "Load ld data = Inr c"
  shows "distinct (map d_ID (Datasets c)) \<and>
    (\<forall>d \<in> set (Datasets c). d_ID d \<noteq> '''' \<and>
       (\<exists>scheme rest. ld_parse_url ld (d_ID d) = Some (scheme, rest) \<and> scheme \<noteq> '''') \<and>
       set (d_ID d) \<inter> {CHR ''/'', CHR ''?'', CHR ''#'', CHR '' '', CHR 0x09, CHR 0x0A} = {} \<and>
       (d_SourceFile d \<noteq> '''' \<longrightarrow> ld_stat ld (d_SourceFile d) = Some False)) \<and>
    (\<forall>states \<in> set (map tp_Sequence (TransferPolicies c)) \<union> set (map cp_Sequence (ConsumerTransferPolicies c)) \<union>
       {states. \<exists>d \<in> set (Datasets c). d_TransferSequence d = Some states}.
       set states \<subseteq> {''STARTED'', ''SUSPENDED'', ''COMPLETED'', ''TERMINATED''}) \<and>
    (if AuthRequired c then '''' \<notin> {ParticipantKey c, RosterPath c, RosterSigner c} else DevMode c) \<and>
    (\<exists>scheme host userinfo. ld_parse_url ld (PublicURL c) = Some (scheme, host, userinfo) \<and> host \<noteq> '''' \<and>
       (scheme = ''https'' \<or> scheme = ''http'' \<and> DevMode c)) \<and>
    ParticipantID c \<noteq> '''' \<and> DataDir c \<noteq> '''' \<and> length (MgmtToken c) \<notin> {1..<16} \<and>
    0 < sint (DataIdleTimeout c) \<and> 0 < sint (MaxDownloadBytes c)"
proof (intro conjI)
  have valid: "validate ld c = None" by (rule LoadE [OF assms])
  note v = validated [OF valid]
  note ds = check_datasets_None [OF v(3)]
  show "distinct (map d_ID (Datasets c))" using ds by blast
  show "\<forall>d \<in> set (Datasets c). d_ID d \<noteq> '''' \<and>
       (\<exists>scheme rest. ld_parse_url ld (d_ID d) = Some (scheme, rest) \<and> scheme \<noteq> '''') \<and>
       set (d_ID d) \<inter> {CHR ''/'', CHR ''?'', CHR ''#'', CHR '' '', CHR 0x09, CHR 0x0A} = {} \<and>
       (d_SourceFile d \<noteq> '''' \<longrightarrow> ld_stat ld (d_SourceFile d) = Some False)"
    using ds by (auto simp: validateDatasetID_None)
  show "\<forall>states \<in> set (map tp_Sequence (TransferPolicies c)) \<union> set (map cp_Sequence (ConsumerTransferPolicies c)) \<union>
       {states. \<exists>d \<in> set (Datasets c). d_TransferSequence d = Some states}.
       set states \<subseteq> {''STARTED'', ''SUSPENDED'', ''COMPLETED'', ''TERMINATED''}"
    by (auto simp: validTransferState_def dest: validated_sequences [OF valid, THEN subsetD])
  show "if AuthRequired c then '''' \<notin> {ParticipantKey c, RosterPath c, RosterSigner c} else DevMode c"
    using v(8) by (auto simp: check_auth_def split: if_splits)
  show "\<exists>scheme host userinfo. ld_parse_url ld (PublicURL c) = Some (scheme, host, userinfo) \<and> host \<noteq> '''' \<and>
       (scheme = ''https'' \<or> scheme = ''http'' \<and> DevMode c)"
    using v(1) by (auto simp: check_public_url_def split: if_splits option.splits)
  show "ParticipantID c \<noteq> ''''" by (rule v(2))
  show "DataDir c \<noteq> ''''" "length (MgmtToken c) \<notin> {1..<16}" "0 < sint (DataIdleTimeout c)"
    "0 < sint (MaxDownloadBytes c)"
    using v(9) by (auto simp: check_limits_def minMgmtTokenLen_def word_sle_eq split: if_splits)
qed

text \<open>A document of one dataset, with the token in the environment.\<close>

definition example_loader :: loader where
  "example_loader = \<lparr>ld_yaml = (\<lambda>data c. Decoded (c\<lparr>PublicURL := ''https://p'', ParticipantID := ''p'',
       Datasets := [\<lparr>d_ID = ''urn:d1'', d_ValidityUntil = None, d_SourceFile = ''f'', d_TerminateOnVerify = False,
         d_TransferSequence = Some [''STARTED''], d_SimulateInterruptAfterBytes = 0\<rparr>],
       DataDir := ''/d'', ParticipantKey := ''k'', RosterPath := ''r'', RosterSigner := b64_encode (replicate 32 CHR ''k'')\<rparr>)),
     ld_parse_url = (\<lambda>u. if u = ''https://p'' then Some (''https'', ''p'', False) else Some (''urn'', '''', False)),
     ld_parse_duration = (\<lambda>s. None), ld_stat = (\<lambda>f. Some False),
     ld_getenv = (\<lambda>v. if v = ''DSBOX_MGMT_TOKEN'' then ''0123456789abcdef'' else '''')\<rparr>"

definition example_config :: Config where
  "example_config = default_config\<lparr>PublicURL := ''https://p'', ParticipantID := ''p'',
       Datasets := [\<lparr>d_ID = ''urn:d1'', d_ValidityUntil = None, d_SourceFile = ''f'', d_TerminateOnVerify = False,
         d_TransferSequence = Some [''STARTED''], d_SimulateInterruptAfterBytes = 0\<rparr>],
       DataDir := ''/d'', ParticipantKey := ''k'', RosterPath := ''r'', RosterSigner := b64_encode (replicate 32 CHR ''k''),
       MgmtToken := ''0123456789abcdef''\<rparr>"

lemma example_loads: "Load example_loader '''' = Inr example_config"
  using b64_encode_Nil [of "replicate 32 CHR ''k''"]
  by (auto simp add: Load_def example_loader_def override_parsed_def override_strings_def override_def Let_def
      example_config_def validate_def check_public_url_def validateDatasetID_def check_dataset_transfers_def
      check_sequence_def validTransferState_def check_auth_def AuthRequired_def default_config_def
      check_limits_def minMgmtTokenLen_def defaultDataIdleTimeout_def defaultMaxDownloadBytes_def second_def
      word_sle_eq)

theorem loaded_configurations_are_valid_witness:
  "distinct (map d_ID (Datasets example_config)) \<and> length (MgmtToken example_config) \<notin> {1..<16} \<and>
   0 < sint (MaxDownloadBytes example_config)"
  using loaded_configurations_are_valid [OF example_loads] by blast

end
