(* ===== verification/Keys.thy ===== *)
theory Keys
  imports Main
begin

text \<open>
  The signing keys on disk (\<^verbatim>\<open>internal/auth/key.go\<close>): generating a key file and loading one.
  The generator, PEM and PKCS#8 are parameters; the file system is a map from paths to contents.
  The theory proves that generating never replaces a file and that what is generated is loaded.
\<close>

definition pemKeyType :: string where "pemKeyType = ''PRIVATE KEY''"

record pem_block =
  pb_Type :: string
  pb_Bytes :: string

text \<open>What \<^verbatim>\<open>x509.ParsePKCS8PrivateKey\<close> can return: an Ed25519 key or one of another type.\<close>

datatype 'k parsed_key = Ed25519Key 'k | OtherKey

record ('k, 'p) key_codec =
  kc_generate :: "('p \<times> 'k) option"
  kc_marshal :: "'k \<Rightarrow> string option"
  kc_encode :: "pem_block \<Rightarrow> string"
  kc_decode :: "string \<Rightarrow> pem_block option"
  kc_parse :: "string \<Rightarrow> 'k parsed_key option"

datatype key_error =
    KeyNotGenerated
  | KeyNotEncoded
  | KeyFileExists string
  | KeyNotWritten string
  | KeyUnreadable string
  | KeyNotPEM string
  | KeyBlockType string string
  | KeyNotPKCS8 string
  | KeyNotEd25519 string

text \<open>
  \<^verbatim>\<open>O_EXCL\<close> fails on a file that is there; a write that fails leaves the file it created, with
  what was written of it.
\<close>

definition GenerateKeyFile ::
  "('k, 'p) key_codec \<Rightarrow> (string \<Rightarrow> nat option) \<Rightarrow> string \<Rightarrow> (string \<Rightarrow> string option) \<Rightarrow>
   (key_error + 'p) \<times> (string \<Rightarrow> string option)" where
  "GenerateKeyFile kc short_write path fs = (case kc_generate kc of
     None \<Rightarrow> (Inl KeyNotGenerated, fs)
   | Some (pub, priv) \<Rightarrow> (case kc_marshal kc priv of
       None \<Rightarrow> (Inl KeyNotEncoded, fs)
     | Some der \<Rightarrow>
         if fs path \<noteq> None then (Inl (KeyFileExists path), fs)
         else (let text = kc_encode kc \<lparr>pb_Type = pemKeyType, pb_Bytes = der\<rparr>
               in case short_write path of
                    Some n \<Rightarrow> (Inl (KeyNotWritten path), fs(path \<mapsto> take n text))
                  | None \<Rightarrow> (Inr pub, fs(path \<mapsto> text)))))"

definition LoadPrivateKey ::
  "('k, 'p) key_codec \<Rightarrow> string \<Rightarrow> (string \<Rightarrow> string option) \<Rightarrow> key_error + 'k" where
  "LoadPrivateKey kc path fs = (case fs path of
     None \<Rightarrow> Inl (KeyUnreadable path)
   | Some data \<Rightarrow> (case kc_decode kc data of
       None \<Rightarrow> Inl (KeyNotPEM path)
     | Some block \<Rightarrow>
         if pb_Type block \<noteq> pemKeyType then Inl (KeyBlockType path (pb_Type block))
         else (case kc_parse kc (pb_Bytes block) of
           None \<Rightarrow> Inl (KeyNotPKCS8 path)
         | Some (Ed25519Key k) \<Rightarrow> Inr k
         | Some OtherKey \<Rightarrow> Inl (KeyNotEd25519 path))))"

lemma GenerateKeyFile_keeps_files:
  "fs f = Some data \<Longrightarrow> snd (GenerateKeyFile kc short_write path fs) f = Some data"
  by (auto simp: GenerateKeyFile_def Let_def split: option.splits)

lemma generated_key_is_loaded:
  assumes "GenerateKeyFile kc short_write path fs = (Inr pub, fs')"
    and "\<And>der. kc_decode kc (kc_encode kc \<lparr>pb_Type = pemKeyType, pb_Bytes = der\<rparr>) =
      Some \<lparr>pb_Type = pemKeyType, pb_Bytes = der\<rparr>"
    and "\<And>p k der. kc_generate kc = Some (p, k) \<Longrightarrow> kc_marshal kc k = Some der \<Longrightarrow>
      kc_parse kc der = Some (Ed25519Key k)"
  shows "\<exists>priv. kc_generate kc = Some (pub, priv) \<and> LoadPrivateKey kc path fs' = Inr priv"
  using assms by (auto simp: GenerateKeyFile_def LoadPrivateKey_def Let_def split: option.splits if_splits)

end
