(* ===== verification/Startup.thy ===== *)
theory Startup
  imports Connector ConfigLoad Keys
begin

text \<open>
  Starting the connector (\<^verbatim>\<open>run\<close> of \<^verbatim>\<open>cmd/dsbox/main.go\<close>), from reading the
  configuration to the routers being served: what is read and checked, in which order, and what
  the connector that then serves is made of.  The process around it is in \<open>Process\<close>, what the
  opening of the database does in \<open>Migration\<close>.  The theory proves that a connector started on an
  empty database keeps the promises of the other theories for the whole of its life, and that no
  restart goes back to an older roster.
\<close>

datatype startup_error =
    ConfigUnreadable
  | ConfigRefused config_error
  | KeyRefused key_error
  | SignerNotBase64
  | SignerLength nat
  | RosterRefused roster_error
  | DataDirNotCreated
  | DatabaseNotOpened
  | VersionRefused store_error

text \<open>
  What the process finds: the file named by the \<^verbatim>\<open>-config\<close> flag, the environment of the loader,
  the other files, the codecs, the clock at the moment the roster is loaded, and whether the data
  directory, the database and the statement on it are available.
\<close>

record installation =
  in_config :: "string option"
  in_loader :: loader
  in_files :: "string \<Rightarrow> string option"
  in_codec :: "(string \<Rightarrow> string, string) key_codec"
  in_marshal :: "json \<Rightarrow> string"
  in_unmarshal :: "string \<Rightarrow> json option"
  in_verify :: "string \<Rightarrow> string \<Rightarrow> string \<Rightarrow> bool"
  in_loadedAt :: instant
  in_mkdir :: bool
  in_open :: bool
  in_io :: io

text \<open>\<^verbatim>\<open>var roster auth.Roster\<close>: the roster of a connector without authentication.\<close>

definition zero_Roster :: Roster where
  "zero_Roster = \<lparr>ro_keys = Map.empty, ro_addresses = Map.empty, ro_version = 0,
     ro_expiresAt = - 62135596800 * second\<rparr>"

definition authentication_material ::
  "installation \<Rightarrow> Config \<Rightarrow> startup_error + Roster \<times> (string \<Rightarrow> string) option" where
  "authentication_material inst cfg =
     (if \<not> AuthRequired cfg then Inr (zero_Roster, None)
      else (case LoadPrivateKey (in_codec inst) (ParticipantKey cfg) (in_files inst) of
         Inl e \<Rightarrow> Inl (KeyRefused e)
       | Inr signKey \<Rightarrow> (case b64_decode (RosterSigner cfg) of
           None \<Rightarrow> Inl SignerNotBase64
         | Some signerRaw \<Rightarrow>
             if length signerRaw \<noteq> PublicKeySize then Inl (SignerLength (length signerRaw))
             else (case LoadRoster (in_unmarshal inst) (in_marshal inst) (in_verify inst)
                      (ld_parse_url (in_loader inst)) (in_files inst (RosterPath cfg)) signerRaw
                      (in_loadedAt inst) of
               Inl e \<Rightarrow> Inl (RosterRefused e)
             | Inr roster \<Rightarrow> Inr (roster, Some signKey)))))"

definition start_connector :: "installation \<Rightarrow> store \<Rightarrow> (startup_error + connector) \<times> store" where
  "start_connector inst st = (case in_config inst of
     None \<Rightarrow> (Inl ConfigUnreadable, st)
   | Some data \<Rightarrow> (case Load (in_loader inst) data of
       Inl e \<Rightarrow> (Inl (ConfigRefused e), st)
     | Inr cfg \<Rightarrow> (case authentication_material inst cfg of
         Inl e \<Rightarrow> (Inl e, st)
       | Inr (roster, signKey) \<Rightarrow>
           if \<not> in_mkdir inst then (Inl DataDirNotCreated, st)
           else if \<not> in_open inst then (Inl DatabaseNotOpened, st)
           else (let c = \<lparr>cn_cfg = cfg, cn_roster = roster, cn_key = signKey, cn_marshal = in_marshal inst,
                          cn_unmarshal = in_unmarshal inst, cn_verify = in_verify inst\<rparr>
                 in if AuthRequired cfg then
                      (case RecordRosterVersion (sint (ro_version roster)) (in_io inst) st of
                         (Inl e, st') \<Rightarrow> (Inl (VersionRefused e), st')
                       | (Inr _, st') \<Rightarrow> (Inr c, st'))
                    else (Inr c, st)))))"

section \<open>What has been checked when the connector serves\<close>

lemma start_connectorD:
  assumes "start_connector inst st = (Inr c, st')"
  shows "\<exists>data. in_config inst = Some data \<and> Load (in_loader inst) data = Inr (cn_cfg c)"
    and "authentication_material inst (cn_cfg c) = Inr (cn_roster c, cn_key c)"
    and "if AuthRequired (cn_cfg c) then
           RecordRosterVersion (sint (ro_version (cn_roster c))) (in_io inst) st = (Inr (), st')
         else st' = st"
  using assms
  by (auto simp: start_connector_def Let_def split: option.splits sum.splits if_splits prod.splits)

lemma RecordRosterVersion_accepts:
  assumes "RecordRosterVersion v i s = (Inr (), s')"
  shows "i = IoOk" "roster_version s' = Some v" "s' = s\<lparr>roster_version := Some v\<rparr>"
    "roster_version s = Some x \<Longrightarrow> x \<le> v"
  using assms by (cases i; auto simp: RecordRosterVersion_def split: option.splits if_splits)+

text \<open>
  Restarts.  A process may stop at any moment, and with it every goroutine; the database stays.
  The next one may read another configuration and another roster: the records made under the
  old one are still those of listed participants when the new roster still lists them, at the
  address they had.
\<close>

definition keeps_participants :: "connector \<Rightarrow> connector \<Rightarrow> bool" where
  "keeps_participants c c' \<longleftrightarrow> (AuthRequired (cn_cfg c') \<longrightarrow> AuthRequired (cn_cfg c) \<and>
     (\<forall>p. KeyFor (cn_roster c) p \<noteq> None \<longrightarrow> KeyFor (cn_roster c') p \<noteq> None) \<and>
     (\<forall>p a. AddressFor (cn_roster c) p = Some a \<longrightarrow> AddressFor (cn_roster c') p = Some a))"

lemma listed_kept:
  "keeps_participants c c' \<Longrightarrow> listed (newHandler c) p a \<Longrightarrow> listed (newHandler c') p a"
  by (auto simp: keeps_participants_def listed_def newHandler_def Let_def)

lemma conn_invar_restart:
  assumes "conn_invar (newHandler c) s" and kept: "keeps_participants c c'"
  shows "conn_invar (newHandler c') (s\<lparr>roster_version := v\<rparr>)"
proof -
  have same: "find_agreement k (s\<lparr>roster_version := v\<rparr>) = find_agreement k s"
    "find_negotiation k (s\<lparr>roster_version := v\<rparr>) = find_negotiation k s"
    "find_consumer k (s\<lparr>roster_version := v\<rparr>) = find_consumer k s" for k by simp_all
  have "consumer_ok (newHandler c) s m \<Longrightarrow> consumer_ok (newHandler c') (s\<lparr>roster_version := v\<rparr>) m" for m
    unfolding consumer_ok_def same using listed_kept [OF kept] by blast
  moreover have "transfer_ok (newHandler c) s t \<Longrightarrow> transfer_ok (newHandler c') (s\<lparr>roster_version := v\<rparr>) t" for t
    unfolding transfer_ok_def same using kept by (auto simp: keeps_participants_def newHandler_def Let_def)
  moreover have "consumer_transfer_ok (newHandler c) s t \<Longrightarrow>
      consumer_transfer_ok (newHandler c') (s\<lparr>roster_version := v\<rparr>) t" for t
    unfolding consumer_transfer_ok_def same using listed_kept [OF kept] by blast
  moreover have "agreement_ok s a \<Longrightarrow> agreement_ok (s\<lparr>roster_version := v\<rparr>) a" for a
    unfolding agreement_ok_def same .
  ultimately show ?thesis
    using assms(1) by (auto simp: conn_invar_def store_wf_def elim!: all_rows_mono)
qed

lemma keeps_participants_refl [simp]: "keeps_participants c c"
  by (simp add: keeps_participants_def)

text \<open>
  The life of a database: the first connector finds it empty, each serves messages for a while and
  stops wherever it is, and the next is started on what it left.
\<close>

inductive life :: "connector \<Rightarrow> store \<Rightarrow> bool" where
  first: "start_connector inst empty_store = (Inr c, s) \<Longrightarrow> life c s"
| serve: "life c (db w) \<Longrightarrow> reachable (message c) (w, [], []) (w', ps, tr) \<Longrightarrow> life c (db w')"
| restart: "life c s \<Longrightarrow> start_connector inst s = (Inr c', s') \<Longrightarrow> keeps_participants c c' \<Longrightarrow> life c' s'"

text \<open>What starting does to the store, whether it succeeds or not.\<close>

lemma start_connector_store:
  "\<exists>v. snd (start_connector inst s) = s\<lparr>roster_version := v\<rparr>"
proof (cases "start_connector inst s")
  case (Pair res s')
  have same: "\<exists>v. s = s\<lparr>roster_version := v\<rparr>" by (rule exI [of _ "roster_version s"]) simp
  have "\<exists>v. snd (RecordRosterVersion x i s) = s\<lparr>roster_version := v\<rparr>" for x i
    using same by (cases i) (auto simp: RecordRosterVersion_def split: option.splits)
  then show ?thesis
    using same by (auto simp: start_connector_def Let_def split: option.splits sum.splits prod.splits)
      (metis snd_conv)+
qed

lemma start_connector_ratchet:
  assumes "start_connector inst s = (Inr c, s')" and "AuthRequired (cn_cfg c)"
  shows "roster_version s' = Some (sint (ro_version (cn_roster c)))"
    and "roster_version s = Some x \<Longrightarrow> x \<le> sint (ro_version (cn_roster c))"
proof -
  have "RecordRosterVersion (sint (ro_version (cn_roster c))) (in_io inst) s = (Inr (), s')"
    using start_connectorD(3) [OF assms(1)] assms(2) by simp
  then show "roster_version s' = Some (sint (ro_version (cn_roster c)))"
    and "roster_version s = Some x \<Longrightarrow> x \<le> sint (ro_version (cn_roster c))"
    using RecordRosterVersion_accepts by blast+
qed

lemma life_invar:
  "life c s \<Longrightarrow> conn_invar (newHandler c) s \<and>
    (AuthRequired (cn_cfg c) \<longrightarrow> (\<exists>v. roster_version s = Some v \<and> sint (ro_version (cn_roster c)) \<le> v))"
proof (induction rule: life.induct)
  case (first inst c s)
  then show ?case
    using start_connector_ratchet(1) [OF first] start_connector_store [of inst empty_store]
      conn_invar_restart [OF conn_invar_empty keeps_participants_refl, of c] by auto
next
  case (serve c w w' ps tr)
  then have "rely (newHandler c) w w'"
    using reachable_promise(2) [OF serve.hyps(2) start_safe] by simp
  then show ?case
    using serve.IH by (fastforce simp: rely_def evolves_def roster_step_def split: option.splits)
next
  case (restart c s inst c' s')
  then show ?case
    using start_connector_ratchet(1) [OF restart.hyps(2)] start_connector_store [of inst s]
      conn_invar_restart [of c s c'] by auto
qed

text \<open>
  C4. Through the whole life of a database, over any number of restarts, wherever each process
  stopped, whatever messages it served and whichever rosters replaced each other, as long as they
  keep the participants listed, the connector's invariant holds.
\<close>

theorem restarts_keep_the_promises:
  assumes "life c s"
  shows "conn_invar (newHandler c) s"
  using life_invar [OF assms] by simp

text \<open>
  A connector that runs with a roster is never replaced by one that runs with an older roster:
  whatever it served in between, starting with a lower version is refused.
\<close>

lemma restarts_never_go_back:
  assumes "life c s" and "AuthRequired (cn_cfg c)"
    and "start_connector inst s = (Inr c', s')" and "AuthRequired (cn_cfg c')"
  shows "ro_version (cn_roster c) \<le>s ro_version (cn_roster c')"
  using life_invar [OF assms(1)] assms(2) start_connector_ratchet(2) [OF assms(3,4)]
  by (fastforce simp: word_sle_eq)

section \<open>An installation\<close>

definition example_installation :: installation where
  "example_installation = \<lparr>in_config = Some '''', in_loader = example_loader,
     in_files = [''k'' \<mapsto> ''pem'', ''r'' \<mapsto> ''s''],
     in_codec = \<lparr>kc_generate = None, kc_marshal = (\<lambda>k. None), kc_encode = (\<lambda>b. ''pem''),
       kc_decode = (\<lambda>s. Some \<lparr>pb_Type = ''PRIVATE KEY'', pb_Bytes = ''''\<rparr>),
       kc_parse = (\<lambda>s. Some (Ed25519Key (\<lambda>m. ''g'')))\<rparr>,
     in_marshal = (\<lambda>j. ''''), in_unmarshal = example_files, in_verify = (\<lambda>k m s. s = ''g''),
     in_loadedAt = 0, in_mkdir = True, in_open = True, in_io = IoOk\<rparr>"

definition example_started :: connector where
  "example_started = \<lparr>cn_cfg = example_config,
     cn_roster = \<lparr>ro_keys = [''c'' \<mapsto> replicate 32 CHR ''k''], ro_addresses = Map.empty, ro_version = 1,
       ro_expiresAt = 86400 * second\<rparr>,
     cn_key = Some (\<lambda>m. ''g''), cn_marshal = (\<lambda>j. ''''), cn_unmarshal = example_files,
     cn_verify = (\<lambda>k m s. s = ''g'')\<rparr>"

lemma example_starts:
  assumes "roster_version s \<in> {None, Some 1}"
  shows "start_connector example_installation s = (Inr example_started, s\<lparr>roster_version := Some 1\<rparr>)"
proof -
  have "LoadPrivateKey (in_codec example_installation) ''k'' (in_files example_installation) = Inr (\<lambda>m. ''g'')"
    by (simp add: LoadPrivateKey_def example_installation_def pemKeyType_def)
  moreover have "AuthRequired example_config" "ParticipantKey example_config = ''k''"
    "RosterPath example_config = ''r''" "RosterSigner example_config = b64_encode (replicate 32 CHR ''k'')"
    by (simp_all add: example_config_def default_config_def AuthRequired_def)
  ultimately have "authentication_material example_installation example_config =
      Inr (cn_roster example_started, cn_key example_started)"
    using example_roster_loads [of "ld_parse_url example_loader" "replicate 32 CHR ''k''"]
    by (simp add: authentication_material_def b64_round_trip PublicKeySize_def example_started_def
        example_installation_def)
  then show ?thesis
    using assms example_loads \<open>AuthRequired example_config\<close>
    by (auto simp: start_connector_def example_installation_def example_started_def Let_def
        RecordRosterVersion_def)
qed

lemma example_life: "life example_started (empty_store\<lparr>roster_version := Some 1\<rparr>)"
  by (rule life.first [where inst = example_installation], rule example_starts)
    (simp add: empty_store_def)

theorem restarts_keep_the_promises_witness:
  "conn_invar (newHandler example_started) (empty_store\<lparr>roster_version := Some 1\<rparr>)"
  by (rule restarts_keep_the_promises [OF example_life])

end
