(* ===== verification/DidWeb.thy ===== *)
theory DidWeb
  imports Token
begin

text \<open>
  Resolving a participant's \<^verbatim>\<open>did:web\<close> identifier to its key (\<^verbatim>\<open>internal/auth/didweb.go\<close>): the
  address of its document, over Go's \<^verbatim>\<open>url.PathUnescape\<close>, and the key the document publishes.
  What the server answers is a parameter.  The theory proves what a resolved key comes from.
\<close>

section \<open>The address of the document\<close>

definition hex_digit :: "char \<Rightarrow> nat option" where
  "hex_digit c = map_of (zip ''0123456789abcdefABCDEF'' ([0 ..< 16] @ [10 ..< 16])) c"

text \<open>\<^verbatim>\<open>url.PathUnescape\<close>: every percent sign must start an escape of two digits.\<close>

fun PathUnescape :: "string \<Rightarrow> string option" where
  "PathUnescape [] = Some []"
| "PathUnescape (c # cs) =
     (if c \<noteq> CHR ''%'' then map_option (Cons c) (PathUnescape cs)
      else (case cs of
        x # y # rest \<Rightarrow> (case (hex_digit x, hex_digit y) of
          (Some h, Some l) \<Rightarrow> map_option (Cons (char_of (16 * h + l))) (PathUnescape rest)
        | _ \<Rightarrow> None)
      | _ \<Rightarrow> None))"

datatype did_error =
    NotDidWeb string
  | NoDomain string
  | BadDomain string string
  | BadSegment string string
  | EmptySegment string
  | DocumentNotFetched string
  | DocumentStatus string int
  | DocumentNotJSON string
  | KeyNotBase64url string
  | KeySize string nat
  | NoEd25519Key string

definition didWebPrefix :: string where "didWebPrefix = ''did:web:''"

primrec unescape_segments :: "string \<Rightarrow> string list \<Rightarrow> did_error + string list" where
  "unescape_segments ident [] = Inr []"
| "unescape_segments ident (seg # segs) = (case PathUnescape seg of
     None \<Rightarrow> Inl (BadSegment ident seg)
   | Some decoded \<Rightarrow>
       if decoded = '''' then Inl (EmptySegment ident)
       else (case unescape_segments ident segs of
         Inl e \<Rightarrow> Inl e | Inr ds \<Rightarrow> Inr (decoded # ds)))"

definition didWebURL :: "string \<Rightarrow> bool \<Rightarrow> did_error + string" where
  "didWebURL ident allowHTTP =
     (if \<not> HasPrefix ident didWebPrefix then Inl (NotDidWeb ident)
      else let rest = drop (length didWebPrefix) ident in
        if rest = '''' then Inl (NoDomain ident)
        else (let parts = split_on (CHR '':'') rest in
          case PathUnescape (hd parts) of
            None \<Rightarrow> Inl (BadDomain ident (hd parts))
          | Some domain \<Rightarrow>
              if domain = '''' then Inl (NoDomain ident)
              else (let scheme = (if allowHTTP then ''http'' else ''https'') in
                if length parts = 1 then Inr (scheme @ ''://'' @ domain @ ''/.well-known/did.json'')
                else (case unescape_segments ident (tl parts) of
                  Inl e \<Rightarrow> Inl e
                | Inr segments \<Rightarrow>
                    Inr (scheme @ ''://'' @ domain @ ''/'' @ Join segments ''/'' @ ''/did.json'')))))"

section \<open>The key the document publishes\<close>

record jsonWebKey =
  jwk_Kty :: string
  jwk_Crv :: string
  jwk_X :: string

record verificationMethod =
  vm_PublicKeyJWK :: "jsonWebKey option"

record didDocument =
  dd_VerificationMethod :: "verificationMethod list"

definition zero_jsonWebKey :: jsonWebKey where
  "zero_jsonWebKey = \<lparr>jwk_Kty = '''', jwk_Crv = '''', jwk_X = ''''\<rparr>"

definition jsonWebKey_fields :: "jsonWebKey json_field list" where
  "jsonWebKey_fields =
     [field_of ''kty'' jwk_Kty (\<lambda>x r. r\<lparr>jwk_Kty := x\<rparr>) dec_string,
      field_of ''crv'' jwk_Crv (\<lambda>x r. r\<lparr>jwk_Crv := x\<rparr>) dec_string,
      field_of ''x'' jwk_X (\<lambda>x r. r\<lparr>jwk_X := x\<rparr>) dec_string]"

definition zero_verificationMethod :: verificationMethod where
  "zero_verificationMethod = \<lparr>vm_PublicKeyJWK = None\<rparr>"

definition verificationMethod_fields :: "verificationMethod json_field list" where
  "verificationMethod_fields =
     [field_of ''publicKeyJwk'' vm_PublicKeyJWK (\<lambda>x r. r\<lparr>vm_PublicKeyJWK := x\<rparr>)
        (dec_pointer (dec_struct jsonWebKey_fields) zero_jsonWebKey)]"

definition zero_didDocument :: didDocument where
  "zero_didDocument = \<lparr>dd_VerificationMethod = []\<rparr>"

definition didDocument_fields :: "didDocument json_field list" where
  "didDocument_fields =
     [field_of ''verificationMethod'' dd_VerificationMethod (\<lambda>x r. r\<lparr>dd_VerificationMethod := x\<rparr>)
        (dec_list (dec_struct verificationMethod_fields) zero_verificationMethod)]"

text \<open>The loop over the methods: the first Ed25519 key decides, whether it is well formed or not.\<close>

primrec first_key :: "string \<Rightarrow> verificationMethod list \<Rightarrow> did_error + string" where
  "first_key docURL [] = Inl (NoEd25519Key docURL)"
| "first_key docURL (vm # vms) = (case vm_PublicKeyJWK vm of
     None \<Rightarrow> first_key docURL vms
   | Some k \<Rightarrow>
       if jwk_Kty k \<noteq> ''OKP'' \<or> jwk_Crv k \<noteq> ''Ed25519'' then first_key docURL vms
       else (case b64_decode (jwk_X k) of
         None \<Rightarrow> Inl (KeyNotBase64url docURL)
       | Some raw \<Rightarrow> if length raw \<noteq> 32 then Inl (KeySize docURL (length raw)) else Inr raw))"

text \<open>What a fetch brings: nothing, or a status and the JSON of the body, if it is JSON.\<close>

type_synonym fetch = "string \<Rightarrow> (int \<times> json option) option"

definition resolveAt :: "fetch \<Rightarrow> string \<Rightarrow> did_error + string" where
  "resolveAt get docURL = (case get docURL of
     None \<Rightarrow> Inl (DocumentNotFetched docURL)
   | Some (status, body) \<Rightarrow>
       if status \<noteq> 200 then Inl (DocumentStatus docURL status)
       else (case decode (dec_struct didDocument_fields) zero_didDocument body of
         None \<Rightarrow> Inl (DocumentNotJSON docURL)
       | Some doc \<Rightarrow> first_key docURL (dd_VerificationMethod doc)))"

definition ResolveDIDWeb :: "fetch \<Rightarrow> string \<Rightarrow> bool \<Rightarrow> did_error + string" where
  "ResolveDIDWeb get ident allowHTTP = (case didWebURL ident allowHTTP of
     Inl e \<Rightarrow> Inl e | Inr docURL \<Rightarrow> resolveAt get docURL)"

section \<open>What a resolved key comes from\<close>

lemma first_key_published:
  "first_key docURL vms = Inr raw \<Longrightarrow> length raw = 32 \<and>
   (\<exists>vm \<in> set vms. \<exists>k. vm_PublicKeyJWK vm = Some k \<and> jwk_Kty k = ''OKP'' \<and> jwk_Crv k = ''Ed25519'' \<and>
     b64_decode (jwk_X k) = Some raw)"
  by (induction vms) (auto split: option.splits if_splits)

text \<open>A server that publishes an unknown key first and the key of 32 zero bytes second.\<close>

definition example_fetch :: fetch where
  "example_fetch url = (if url = ''https://p:30/u/did.json'' then
     Some (200, Some (JObj [(''verificationMethod'', JArr [JObj [(''publicKeyJwk'', JNull)],
       JObj [(''publicKeyJwk'', JObj [(''kty'', JStr ''OKP''), (''crv'', JStr ''Ed25519''),
         (''x'', JStr (replicate 43 CHR ''A''))])]])]))
     else None)"



text \<open>The domain is unescaped before it is put before the path, whatever it contains.\<close>

lemma escaped_domain_names_another_host:
  "didWebURL ''did:web:bank.example%40evil.example'' False =
     Inr ''https://bank.example@evil.example/.well-known/did.json''"
  by code_simp

end
