(* ===== verification/Operator.thy ===== *)
theory Operator
  imports Keys ConfigLoad DidWeb
begin

text \<open>
  The operator's command (\<^verbatim>\<open>cmd/dsops/main.go\<close>) with the flag sets of Go's \<^verbatim>\<open>flag\<close> package it
  parses its arguments with: generating a key, minting a credential, signing a roster, resolving a
  did:web identifier.  Its output is the text printed; the files are a map, the codecs, the clock
  and the fetch parameters.  The theory proves that what the command prints fits together: a
  connector whose roster lists the key printed by \<^verbatim>\<open>keygen\<close> accepts the token printed by
  \<^verbatim>\<open>token\<close>.
\<close>

section \<open>Flags\<close>

datatype flag_kind = BoolFlag | ValueFlag

text \<open>A flag set: names with their kind and the values \<^verbatim>\<open>Set\<close> accepts.\<close>

type_synonym flag_set = "(string \<times> flag_kind \<times> (string \<Rightarrow> bool)) list"

datatype flag_error =
    FlagSyntax string
  | FlagUnknown string
  | FlagHelp
  | FlagNeedsArgument string
  | FlagInvalid string string

definition flag_value :: "string \<Rightarrow> string \<times> string option" where
  "flag_value name = (case split_first (CHR ''='') name of
     None \<Rightarrow> (name, None) | Some (n, v) \<Rightarrow> (n, Some v))"

text \<open>The values set, the last first, and the arguments that are left.\<close>

fun parse_flags ::
  "flag_set \<Rightarrow> string list \<Rightarrow> (string \<times> string) list \<Rightarrow> flag_error + (string \<times> string) list \<times> string list" where
  "parse_flags fs [] vs = Inr (vs, [])"
| "parse_flags fs (a # rest) vs =
     (if length a < 2 \<or> hd a \<noteq> CHR ''-'' then Inr (vs, a # rest)
      else if a = ''--'' then Inr (vs, rest)
      else (let name = (if a ! 1 = CHR ''-'' then drop 2 a else drop 1 a) in
        if name = '''' \<or> hd name = CHR ''-'' \<or> hd name = CHR ''='' then Inl (FlagSyntax a)
        else (case map_of fs (fst (flag_value name)) of
          None \<Rightarrow>
            if fst (flag_value name) = ''help'' \<or> fst (flag_value name) = ''h'' then Inl FlagHelp
            else Inl (FlagUnknown (fst (flag_value name)))
        | Some (kind, valid) \<Rightarrow> (case snd (flag_value name) of
            Some v \<Rightarrow>
              if valid v then parse_flags fs rest ((fst (flag_value name), v) # vs)
              else Inl (FlagInvalid (fst (flag_value name)) v)
          | None \<Rightarrow>
              if kind = BoolFlag then parse_flags fs rest ((fst (flag_value name), ''true'') # vs)
              else (case rest of
                [] \<Rightarrow> Inl (FlagNeedsArgument (fst (flag_value name)))
              | v # rest' \<Rightarrow>
                  if valid v then parse_flags fs rest' ((fst (flag_value name), v) # vs)
                  else Inl (FlagInvalid (fst (flag_value name)) v))))))"

definition string_flag :: "string \<Rightarrow> string \<times> flag_kind \<times> (string \<Rightarrow> bool)" where
  "string_flag name = (name, ValueFlag, \<lambda>v. True)"

definition given :: "(string \<times> string) list \<Rightarrow> string \<Rightarrow> string \<Rightarrow> string" where
  "given vs name unset = (case map_of vs name of None \<Rightarrow> unset | Some v \<Rightarrow> v)"

section \<open>The subcommands\<close>

datatype operator_error =
    Usage
  | UnknownSubcommand string
  | FlagsRefused flag_error
  | FlagRequired string
  | KeyFailed key_error
  | NotMinted
  | UnknownVerb
  | RosterFailed roster_error
  | OneIdentifier
  | NotResolved did_error
  | NotPrinted

record operator_env =
  oe_codec :: "(string \<Rightarrow> string, string) key_codec"
  oe_short_write :: "string \<Rightarrow> nat option"
  oe_now :: instant
  oe_marshal :: "json \<Rightarrow> string"
  oe_unmarshal :: "string \<Rightarrow> json option"
  oe_parse_duration :: "string \<Rightarrow> int64 option"
  oe_fetch :: fetch
  oe_out :: bool

type_synonym file_map = "string \<Rightarrow> string option"

text \<open>\<^verbatim>\<open>fmt.Fprintln\<close>.\<close>

definition print_line :: "operator_env \<Rightarrow> string \<Rightarrow> operator_error + string" where
  "print_line env s = (if oe_out env then Inr (s @ [CHR 0x0A]) else Inl NotPrinted)"

definition keygen :: "operator_env \<Rightarrow> string list \<Rightarrow> file_map \<Rightarrow> (operator_error + string) \<times> file_map" where
  "keygen env args fs = (case parse_flags [string_flag ''out''] args [] of
     Inl e \<Rightarrow> (Inl (FlagsRefused e), fs)
   | Inr (vs, rest) \<Rightarrow>
       if given vs ''out'' '''' = '''' then (Inl (FlagRequired ''keygen''), fs)
       else (case GenerateKeyFile (oe_codec env) (oe_short_write env) (given vs ''out'' '''') fs of
         (Inl e, fs') \<Rightarrow> (Inl (KeyFailed e), fs')
       | (Inr pub, fs') \<Rightarrow> (print_line env (b64_encode pub), fs')))"

definition token :: "operator_env \<Rightarrow> string list \<Rightarrow> file_map \<Rightarrow> operator_error + string" where
  "token env args fs = (case parse_flags [string_flag ''key'', string_flag ''iss'', string_flag ''aud'',
       (''ttl'', ValueFlag, \<lambda>v. oe_parse_duration env v \<noteq> None)] args [] of
     Inl e \<Rightarrow> Inl (FlagsRefused e)
   | Inr (vs, rest) \<Rightarrow>
       (let key = given vs ''key'' ''''; iss = given vs ''iss'' ''''; aud = given vs ''aud'' '''';
            ttl = (case map_of vs ''ttl'' of None \<Rightarrow> 300 * second
              | Some v \<Rightarrow> (case oe_parse_duration env v of None \<Rightarrow> 0 | Some d \<Rightarrow> sint d))
        in if key = '''' \<or> iss = '''' \<or> aud = '''' then Inl (FlagRequired ''token'')
           else (case LoadPrivateKey (oe_codec env) key fs of
             Inl e \<Rightarrow> Inl (KeyFailed e)
           | Inr priv \<Rightarrow> (case Mint (oe_marshal env) (Some priv) iss aud (oe_now env) ttl of
               None \<Rightarrow> Inl NotMinted
             | Some tok \<Rightarrow> print_line env tok))))"

definition roster :: "operator_env \<Rightarrow> string list \<Rightarrow> file_map \<Rightarrow> operator_error + string" where
  "roster env args fs =
     (if args = [] \<or> hd args \<noteq> ''sign'' then Inl UnknownVerb
      else (case parse_flags [string_flag ''roster'', string_flag ''key''] (tl args) [] of
        Inl e \<Rightarrow> Inl (FlagsRefused e)
      | Inr (vs, rest) \<Rightarrow>
          if given vs ''roster'' '''' = '''' \<or> given vs ''key'' '''' = '''' then Inl (FlagRequired ''roster sign'')
          else (case LoadPrivateKey (oe_codec env) (given vs ''key'' '''') fs of
            Inl e \<Rightarrow> Inl (KeyFailed e)
          | Inr priv \<Rightarrow> (case SignRoster (oe_unmarshal env) (oe_marshal env) priv
                (fs (given vs ''roster'' '''')) (oe_now env) of
              Inl e \<Rightarrow> Inl (RosterFailed e)
            | Inr sig \<Rightarrow> print_line env sig))))"

definition resolve :: "operator_env \<Rightarrow> string list \<Rightarrow> operator_error + string" where
  "resolve env args = (case parse_flags [(''allow-http'', BoolFlag, \<lambda>v. ParseBool v \<noteq> None)] args [] of
     Inl e \<Rightarrow> Inl (FlagsRefused e)
   | Inr (vs, rest) \<Rightarrow>
       if length rest \<noteq> 1 then Inl OneIdentifier
       else (case ResolveDIDWeb (oe_fetch env) (hd rest)
                (ParseBool (given vs ''allow-http'' ''false'') = Some True) of
         Inl e \<Rightarrow> Inl (NotResolved e)
       | Inr pub \<Rightarrow> print_line env (b64_encode pub)))"

definition operator_run ::
  "operator_env \<Rightarrow> string list \<Rightarrow> file_map \<Rightarrow> (operator_error + string) \<times> file_map" where
  "operator_run env args fs =
     (if args = [] then (Inl Usage, fs)
      else if hd args = ''keygen'' then keygen env (tl args) fs
      else if hd args = ''token'' then (token env (tl args) fs, fs)
      else if hd args = ''roster'' then (roster env (tl args) fs, fs)
      else if hd args = ''resolve'' then (resolve env (tl args), fs)
      else (Inl (UnknownSubcommand (hd args)), fs))"

section \<open>The commands fit together\<close>

lemma parse_given:
  "parse_flags [string_flag ''out''] [''-out'', path] [] = Inr ([(''out'', path)], [])"
  "parse_flags [string_flag ''key'', string_flag ''iss'', string_flag ''aud'', (''ttl'', ValueFlag, valid)]
     [''-key'', path, ''-iss'', iss, ''-aud'', aud] [] =
   Inr ([(''aud'', aud), (''iss'', iss), (''key'', path)], [])"
  by (simp_all add: string_flag_def flag_value_def)

declare parse_flags.simps [simp del]

lemma keygen_out:
  "operator_run env [''keygen'', ''-out'', path] fs =
     (if path = '''' then (Inl (FlagRequired ''keygen''), fs)
      else (case GenerateKeyFile (oe_codec env) (oe_short_write env) path fs of
        (Inl e, fs') \<Rightarrow> (Inl (KeyFailed e), fs')
      | (Inr pub, fs') \<Rightarrow> (print_line env (b64_encode pub), fs')))"
  unfolding operator_run_def keygen_def by (simp add: parse_given given_def)

lemma token_out:
  "operator_run env [''token'', ''-key'', path, ''-iss'', iss, ''-aud'', aud] fs =
     (if path = '''' \<or> iss = '''' \<or> aud = '''' then Inl (FlagRequired ''token'')
      else (case LoadPrivateKey (oe_codec env) path fs of
        Inl e \<Rightarrow> Inl (KeyFailed e)
      | Inr priv \<Rightarrow> (case Mint (oe_marshal env) (Some priv) iss aud (oe_now env) (300 * second) of
          None \<Rightarrow> Inl NotMinted
        | Some tok \<Rightarrow> print_line env tok)), fs)"
  unfolding operator_run_def token_def list.sel by (simp only: parse_given) (simp add: given_def split: sum.split)

text \<open>
  The flag parser stops at the first argument that is no flag: in the order the usage text gives,
  the flag of \<^verbatim>\<open>resolve\<close> is a second argument and the command is refused.
\<close>

lemma flag_after_identifier:
  assumes "2 \<le> length did" and "hd did \<noteq> CHR ''-''"
  shows "operator_run env [''resolve'', did, ''-allow-http''] fs = (Inl OneIdentifier, fs)"
  using assms by (simp add: operator_run_def resolve_def parse_flags.simps)

lemma print_line_Inr: "print_line env s = Inr out \<longleftrightarrow> oe_out env \<and> out = s @ [CHR 0x0A]"
  by (auto simp: print_line_def)

text \<open>
  C25. A participant whose roster entry carries the key printed by \<^verbatim>\<open>dsops keygen\<close> is
  authenticated by the token printed by \<^verbatim>\<open>dsops token\<close> with the file that command wrote, from its
  minting until a minute after the five minutes it is valid for, by the audience it names.
\<close>

theorem operator_credentials_are_accepted:
  assumes keygen: "operator_run env [''keygen'', ''-out'', path] fs = (Inr printed, fs')"
    and minted: "fst (operator_run env [''token'', ''-key'', path, ''-iss'', iss, ''-aud'', aud] fs') = Inr output"
    and codec: "\<And>der. kc_decode (oe_codec env) (kc_encode (oe_codec env)
        \<lparr>pb_Type = pemKeyType, pb_Bytes = der\<rparr>) = Some \<lparr>pb_Type = pemKeyType, pb_Bytes = der\<rparr>"
      "\<And>pub k der. kc_generate (oe_codec env) = Some (pub, k) \<Longrightarrow>
        kc_marshal (oe_codec env) k = Some der \<Longrightarrow> kc_parse (oe_codec env) der = Some (Ed25519Key k)"
    and pair: "\<And>pub priv m. kc_generate (oe_codec env) = Some (pub, priv) \<Longrightarrow> verify pub m (priv m)"
    and json: "unmarshal (oe_marshal env (json_of_header jwt_header_of_mint)) = Some (json_of_header jwt_header_of_mint)"
      "unmarshal (oe_marshal env (json_of_claims (claims_of_mint iss aud (oe_now env) (300 * second)))) =
        Some (json_of_claims (claims_of_mint iss aud (oe_now env) (300 * second)))"
    and entry: "keyFor iss = b64_decode (butlast printed)"
    and clocks: "clock_ok (oe_now env + 300 * second)" "clock_ok later"
    and window: "later div second - 60 < (oe_now env + 300 * second) div second"
      "(oe_now env + 300 * second) div second \<le> later div second + 3600"
  shows "output \<noteq> '''' \<and> last output = CHR 0x0A \<and>
    Verify unmarshal verify (butlast output) keyFor aud later = Inr iss"
proof -
  obtain pub where pub: "GenerateKeyFile (oe_codec env) (oe_short_write env) path fs = (Inr pub, fs')"
    "printed = b64_encode pub @ [CHR 0x0A]"
    using keygen by (auto simp: keygen_out print_line_Inr split: if_splits prod.splits sum.splits)
  obtain priv where
    priv: "kc_generate (oe_codec env) = Some (pub, priv)" "LoadPrivateKey (oe_codec env) path fs' = Inr priv"
    using generated_key_is_loaded [OF pub(1)] codec by blast
  obtain tok where tok: "Mint (oe_marshal env) (Some priv) iss aud (oe_now env) (300 * second) = Some tok"
    "output = tok @ [CHR 0x0A]"
    using minted priv(2) by (auto simp: token_out print_line_Inr split: if_splits option.splits)
  have "keyFor iss = Some pub" using entry pub(2) by (simp add: b64_round_trip)
  moreover have "signing_pair priv verify pub" using pair [OF priv(1)] by (simp add: signing_pair_def)
  ultimately have "Verify unmarshal verify tok keyFor aud later = Inr iss"
    using json clocks window by (intro Mint_Verify [OF tok(1), where unmarshal = unmarshal and pub = pub])
  then show ?thesis using tok(2) by simp
qed

text \<open>An operator whose Ed25519 is a mirror: a signature is the message reversed.\<close>

definition example_operator :: operator_env where
  "example_operator = \<lparr>
     oe_codec = \<lparr>kc_generate = Some (replicate 32 CHR ''k'', rev), kc_marshal = \<lambda>k. Some ''der'',
       kc_encode = pb_Bytes, kc_decode = \<lambda>text. Some \<lparr>pb_Type = pemKeyType, pb_Bytes = text\<rparr>,
       kc_parse = \<lambda>der. Some (Ed25519Key rev)\<rparr>,
     oe_short_write = \<lambda>path. None, oe_now = 0,
     oe_marshal = \<lambda>j. if j = json_of_header jwt_header_of_mint then ''h'' else ''c'',
     oe_unmarshal = \<lambda>s. None, oe_parse_duration = \<lambda>s. None,
     oe_fetch = \<lambda>url. None, oe_out = True\<rparr>"

lemma example_operator_runs:
  "operator_run example_operator [''keygen'', ''-out'', ''k''] (\<lambda>p. None) =
     (Inr (b64_encode (replicate 32 CHR ''k'') @ [CHR 0x0A]), [''k'' \<mapsto> ''der''])"
  "operator_run example_operator [''token'', ''-key'', ''k'', ''-iss'', ''p'', ''-aud'', ''c''] [''k'' \<mapsto> ''der''] =
     (Inr (b64_encode ''h'' @ ''.'' @ b64_encode ''c'' @ ''.'' @
        b64_encode (rev (b64_encode ''h'' @ ''.'' @ b64_encode ''c'')) @ [CHR 0x0A]), [''k'' \<mapsto> ''der''])"
proof -
  have "json_of_header jwt_header_of_mint \<noteq> json_of_claims (claims_of_mint ''p'' ''c'' 0 (300 * second))"
    by (simp add: json_of_header_def json_of_claims_def)
  then show "operator_run example_operator [''token'', ''-key'', ''k'', ''-iss'', ''p'', ''-aud'', ''c'']
      [''k'' \<mapsto> ''der''] =
     (Inr (b64_encode ''h'' @ ''.'' @ b64_encode ''c'' @ ''.'' @
        b64_encode (rev (b64_encode ''h'' @ ''.'' @ b64_encode ''c'')) @ [CHR 0x0A]), [''k'' \<mapsto> ''der''])"
    by (simp add: token_out example_operator_def LoadPrivateKey_def Mint_def Let_def print_line_def)
qed (simp add: keygen_out example_operator_def GenerateKeyFile_def print_line_def)

theorem operator_credentials_are_accepted_witness:
  "Verify (\<lambda>s. if s = ''h'' then Some (json_of_header jwt_header_of_mint)
       else Some (json_of_claims (claims_of_mint ''p'' ''c'' 0 (300 * second)))) (\<lambda>k m s. s = rev m)
     (butlast (b64_encode ''h'' @ ''.'' @ b64_encode ''c'' @ ''.'' @
        b64_encode (rev (b64_encode ''h'' @ ''.'' @ b64_encode ''c'')) @ [CHR 0x0A]))
     (\<lambda>p. Some (replicate 32 CHR ''k'')) ''c'' (200 * second) = Inr ''p''"
proof -
  have "json_of_header jwt_header_of_mint \<noteq> json_of_claims (claims_of_mint ''p'' ''c'' 0 (300 * second))"
    by (simp add: json_of_header_def json_of_claims_def)
  then show ?thesis
    using operator_credentials_are_accepted [OF example_operator_runs(1), of "''p''" "''c''" _ "\<lambda>k m s. s = rev m"
      "\<lambda>s. if s = ''h'' then Some (json_of_header jwt_header_of_mint)
       else Some (json_of_claims (claims_of_mint ''p'' ''c'' 0 (300 * second)))"
      "\<lambda>p. Some (replicate 32 CHR ''k'')" "200 * second", unfolded example_operator_runs(2) fst_conv, OF refl]
    by (simp add: example_operator_def clock_ok_def second_def b64_round_trip)
qed

end
