(* ===== verification/Process.thy ===== *)
theory Process
  imports Startup Operator
begin

text \<open>
  The connector's process (\<^verbatim>\<open>main\<close>, \<^verbatim>\<open>run\<close>, \<^verbatim>\<open>serve\<close> and \<^verbatim>\<open>drainPulls\<close> of
  \<^verbatim>\<open>cmd/dsbox/main.go\<close>, \<^verbatim>\<open>version.go\<close>) around the start \<open>Startup\<close> models: its flags, the build
  it names, what ends it, the shutdown and its exit status.  What happens while it serves is a
  parameter: which of the signal and the listeners' failures came first, which servers did not
  shut down in time, and how long each pull took to stop.  The theory proves what the exit status
  means and that no process leaves without waiting for its pulls.
\<close>

section \<open>The build\<close>

record build_info =
  bi_Settings :: "(string \<times> string) list"
  bi_Version :: string

definition shortRevisionLen :: nat where
  "shortRevisionLen = 7"

definition vcs_settings :: "(string \<times> string) list \<Rightarrow> string \<times> bool" where
  "vcs_settings settings = fold (\<lambda>(key, val) (revision, modified).
     if key = ''vcs.revision'' then (val, modified)
     else if key = ''vcs.modified'' then (revision, val = ''true'')
     else (revision, modified)) settings ('''', False)"

definition buildVersion :: "build_info option \<Rightarrow> string" where
  "buildVersion info = (case info of
     None \<Rightarrow> ''unknown''
   | Some bi \<Rightarrow>
       (let (revision, modified) = vcs_settings (bi_Settings bi) in
        if revision \<noteq> '''' then
          (let short = (if shortRevisionLen < length revision then take shortRevisionLen revision else revision)
           in if modified then short @ ''-dirty'' else short)
        else if bi_Version bi \<noteq> '''' \<and> bi_Version bi \<noteq> ''(devel)'' then bi_Version bi
        else ''unknown''))"

text \<open>The version in the log is never empty, and one of a working tree is what git abbreviates to.\<close>

lemma buildVersion_nonempty: "buildVersion info \<noteq> ''''"
  by (auto simp: buildVersion_def Let_def shortRevisionLen_def split: option.splits prod.splits)

lemma buildVersion_working_tree:
  assumes "vcs_settings (bi_Settings bi) = (revision, False)" and "revision \<noteq> ''''"
  shows "buildVersion (Some bi) = take 7 revision"
  using assms by (simp add: buildVersion_def shortRevisionLen_def)

section \<open>Serving and stopping\<close>

text \<open>How \<^verbatim>\<open>ListenAndServe\<close> returns; what the goroutine sends on \<^verbatim>\<open>failed\<close>.\<close>

datatype listener_end = ServerClosed | ServerFailed string

definition serve :: "listener_end \<Rightarrow> string option" where
  "serve outcome = (case outcome of ServerClosed \<Rightarrow> None | ServerFailed e \<Rightarrow> Some e)"

definition pullDrainBudget :: instant where
  "pullDrainBudget = 5 * second"

text \<open>
  \<open>stopping\<close> is how long after its cancellation each pull in flight takes to end; a pull that ends
  at the moment the budget does may be seen first or not.
\<close>

definition drainPulls :: "bool \<Rightarrow> instant list \<Rightarrow> instant \<Rightarrow> bool" where
  "drainPulls seen_first stopping within =
     list_all (\<lambda>d. d < within \<or> (seen_first \<and> d = within)) stopping"

datatype process_error = NotStarted startup_error | ListenerFailed string

datatype log_line =
    ConnectorStarted string string string string bool
  | SignalReceived
  | ForcedShutdown string
  | PullsAbandoned
  | ConnectorStopped process_error

text \<open>
  \<open>li_first\<close> is what the select takes: \<open>None\<close> the signal, else how a listener's server ended.  A
  server that was closed sends nothing, so it is never what the select takes.
\<close>

record lifetime =
  li_first :: "listener_end option"
  li_forced :: "string list"
  li_stopping :: "instant list"
  li_seen_first :: bool

definition shutdown_log :: "lifetime \<Rightarrow> log_line list" where
  "shutdown_log lt =
     (if li_first lt = None then [SignalReceived] else []) @ map ForcedShutdown (li_forced lt) @
     (if drainPulls (li_seen_first lt) (li_stopping lt) pullDrainBudget then [] else [PullsAbandoned])"

definition stop_error :: "lifetime \<Rightarrow> string option" where
  "stop_error lt = (case li_first lt of None \<Rightarrow> None | Some outcome \<Rightarrow> serve outcome)"

record process =
  pr_read :: "string \<Rightarrow> string option"
  pr_installation :: installation
  pr_build :: "build_info option"
  pr_life :: lifetime

text \<open>
  What a process prints, logs, exits with and leaves in the database.  \<^verbatim>\<open>flag.Parse\<close> exits with 2
  when the arguments are refused, and with 0 when help is asked for.
\<close>

definition connector_main ::
  "process \<Rightarrow> string list \<Rightarrow> store \<Rightarrow> (int \<times> string \<times> log_line list) \<times> store" where
  "connector_main pr args st =
     (case parse_flags [string_flag ''config'', (''version'', BoolFlag, \<lambda>v. ParseBool v \<noteq> None)] args [] of
       Inl e \<Rightarrow> ((if e = FlagHelp then 0 else 2, '''', []), st)
     | Inr (vs, rest) \<Rightarrow>
         (let version = buildVersion (pr_build pr) in
          if ParseBool (given vs ''version'' ''false'') = Some True then ((0, version @ [CHR 0x0A], []), st)
          else (case start_connector ((pr_installation pr)\<lparr>in_config := pr_read pr (given vs ''config'' ''config.yaml'')\<rparr>) st of
            (Inl e, st') \<Rightarrow> ((1, '''', [ConnectorStopped (NotStarted e)]), st')
          | (Inr c, st') \<Rightarrow>
              (let started = ConnectorStarted version (PublicURL (cn_cfg c)) (DSPAddr (cn_cfg c)) (MgmtAddr (cn_cfg c))
                     (DevMode (cn_cfg c))
               in (case stop_error (pr_life pr) of
                 None \<Rightarrow> ((0, '''', started # shutdown_log (pr_life pr)), st')
               | Some e \<Rightarrow>
                   ((1, '''', started # shutdown_log (pr_life pr) @ [ConnectorStopped (ListenerFailed e)]), st'))))))"

section \<open>What the exit status means\<close>

text \<open>
  A process that served exits with 0 exactly when the signal stopped it; it leaves a pull behind
  only when one took longer than the budget, and then says so.
\<close>

lemma drainPulls_only:
  "drainPulls b stopping within \<Longrightarrow> \<forall>d \<in> set stopping. d \<le> within"
  "\<not> drainPulls b stopping within \<Longrightarrow> \<exists>d \<in> set stopping. within \<le> d"
  by (auto simp: drainPulls_def list_all_iff Ball_def Bex_def not_less intro: less_imp_le)

lemma served_exit:
  assumes "connector_main pr args st = ((status, out, log), st')"
    and "ConnectorStarted v u d m dev \<in> set log" and "li_first (pr_life pr) \<noteq> Some ServerClosed"
  shows "(status = 0 \<longleftrightarrow> SignalReceived \<in> set log) \<and> status \<in> {0, 1} \<and>
    (PullsAbandoned \<notin> set log \<longrightarrow> (\<forall>d \<in> set (li_stopping (pr_life pr)). d \<le> pullDrainBudget)) \<and>
    (PullsAbandoned \<in> set log \<longrightarrow> (\<exists>d \<in> set (li_stopping (pr_life pr)). pullDrainBudget \<le> d))"
proof -
  have "PullsAbandoned \<in> set log \<longleftrightarrow>
      \<not> drainPulls (li_seen_first (pr_life pr)) (li_stopping (pr_life pr)) pullDrainBudget"
    "(status = 0 \<longleftrightarrow> SignalReceived \<in> set log) \<and> status \<in> {0, 1}"
    using assms
    by (auto simp: connector_main_def Let_def shutdown_log_def stop_error_def serve_def
        split: sum.splits prod.splits if_splits option.splits listener_end.splits)
  then show ?thesis using drainPulls_only by blast
qed

text \<open>Only a process that started the connector touches the database, and only its roster version.\<close>

lemma RecordRosterVersion_only:
  "RecordRosterVersion v i st = (r, st') \<Longrightarrow> st' = st\<lparr>roster_version := roster_version st'\<rparr>"
  by (cases i) (auto simp: RecordRosterVersion_def split: option.splits if_splits)

lemma start_connector_only:
  "start_connector inst st = (r, st') \<Longrightarrow> st' = st\<lparr>roster_version := roster_version st'\<rparr>"
  unfolding start_connector_def Let_def
  by (auto dest: RecordRosterVersion_only split: option.splits sum.splits prod.splits if_splits)

lemma database_before_serving:
  assumes "connector_main pr args st = ((status, out, log), st')"
  shows "st' = st\<lparr>roster_version := roster_version st'\<rparr>"
  using assms
  by (auto simp: connector_main_def Let_def dest: start_connector_only
      split: sum.splits prod.splits if_splits option.splits)

end
