(* ===== verification/Callback.thy ===== *)
theory Callback
  imports Ranges Roster
begin

text \<open>
  The guard of the addresses this connector sends to (\<^verbatim>\<open>validateCallbackURL\<close> and
  \<^verbatim>\<open>isDisallowedCallbackIP\<close> of \<^verbatim>\<open>internal/dsp/callback.go\<close>) over the predicates of Go's
  \<^verbatim>\<open>net.IP\<close>, a list of 4 or of 16 bytes.  \<^verbatim>\<open>url.Parse\<close>, \<^verbatim>\<open>net.ParseIP\<close> and the
  resolver are parameters.  The theory proves which address blocks the byte tests stand for, in
  every form an address can be written in, and that an accepted address leads to none of them.
\<close>

type_synonym ip = "8 word list"

section \<open>Addresses\<close>

definition v4InV6Prefix :: ip where
  "v4InV6Prefix = replicate 10 0 @ [0xff, 0xff]"

definition To4 :: "ip \<Rightarrow> ip option" where
  "To4 a = (if length a = 4 then Some a
     else if length a = 16 \<and> take 12 a = v4InV6Prefix then Some (drop 12 a) else None)"

definition IPv4zero :: ip where "IPv4zero = v4InV6Prefix @ replicate 4 0"
definition IPv6unspecified :: ip where "IPv6unspecified = replicate 16 0"
definition IPv6loopback :: ip where "IPv6loopback = replicate 15 0 @ [1]"

text \<open>\<^verbatim>\<open>IP.Equal\<close>: an IPv4 address and its IPv4-mapped form are equal.\<close>

definition Equal :: "ip \<Rightarrow> ip \<Rightarrow> bool" where
  "Equal a b =
     (if length a = length b then a = b
      else if length a = 4 \<and> length b = 16 then take 12 b = v4InV6Prefix \<and> a = drop 12 b
      else length a = 16 \<and> length b = 4 \<and> take 12 a = v4InV6Prefix \<and> drop 12 a = b)"

definition IsUnspecified :: "ip \<Rightarrow> bool" where
  "IsUnspecified a \<longleftrightarrow> Equal a IPv4zero \<or> Equal a IPv6unspecified"

definition IsLoopback :: "ip \<Rightarrow> bool" where
  "IsLoopback a = (case To4 a of Some a4 \<Rightarrow> a4 ! 0 = 127 | None \<Rightarrow> Equal a IPv6loopback)"

definition IsLinkLocalMulticast :: "ip \<Rightarrow> bool" where
  "IsLinkLocalMulticast a = (case To4 a of
     Some a4 \<Rightarrow> a4 ! 0 = 224 \<and> a4 ! 1 = 0 \<and> a4 ! 2 = 0
   | None \<Rightarrow> length a = 16 \<and> a ! 0 = 0xff \<and> and (a ! 1) 0x0f = 0x02)"

definition IsLinkLocalUnicast :: "ip \<Rightarrow> bool" where
  "IsLinkLocalUnicast a = (case To4 a of
     Some a4 \<Rightarrow> a4 ! 0 = 169 \<and> a4 ! 1 = 254
   | None \<Rightarrow> length a = 16 \<and> a ! 0 = 0xfe \<and> and (a ! 1) 0xc0 = 0x80)"

definition isDisallowedCallbackIP :: "ip \<Rightarrow> bool" where
  "isDisallowedCallbackIP a \<longleftrightarrow>
     IsLoopback a \<or> IsLinkLocalUnicast a \<or> IsLinkLocalMulticast a \<or> IsUnspecified a"

section \<open>The guard\<close>

text \<open>
  \<^verbatim>\<open>URL.Hostname\<close>: the host without a valid optional port and without the brackets of an IPv6
  literal.
\<close>

definition validOptionalPort :: "string \<Rightarrow> bool" where
  "validOptionalPort port = (case port of
     [] \<Rightarrow> True
   | c # ds \<Rightarrow> c = CHR '':'' \<and> set ds \<subseteq> set ''0123456789'')"

definition Hostname :: "string \<Rightarrow> string" where
  "Hostname hostport =
     (let host = (case split_last (CHR '':'') hostport of
            None \<Rightarrow> hostport
          | Some (before, after) \<Rightarrow> if validOptionalPort (CHR '':'' # after) then before else hostport)
      in if host \<noteq> [] \<and> hd host = CHR ''['' \<and> last host = CHR '']'' then butlast (tl host) else host)"

datatype callback_error =
  CallbackNotURL | CallbackScheme string | CallbackNoHost | CallbackUnresolved string | CallbackDisallowed string ip

text \<open>The addresses a host stands for: the literal itself, or what the resolver answers.\<close>

definition callback_ips :: "(string \<Rightarrow> ip option) \<Rightarrow> (string \<Rightarrow> ip list option) \<Rightarrow> string \<Rightarrow> ip list option" where
  "callback_ips ParseIP lookupIP host = (case ParseIP host of Some a \<Rightarrow> Some [a] | None \<Rightarrow> lookupIP host)"

definition validateCallbackURL ::
  "url_parser \<Rightarrow> (string \<Rightarrow> ip option) \<Rightarrow> (string \<Rightarrow> ip list option) \<Rightarrow> string \<Rightarrow> callback_error option" where
  "validateCallbackURL parse_url ParseIP lookupIP raw = (case parse_url raw of
     None \<Rightarrow> Some CallbackNotURL
   | Some (scheme, hostport, userinfo) \<Rightarrow>
       if scheme \<noteq> ''http'' \<and> scheme \<noteq> ''https'' then Some (CallbackScheme scheme)
       else let host = Hostname hostport in
         if host = '''' then Some CallbackNoHost
         else (case callback_ips ParseIP lookupIP host of
           None \<Rightarrow> Some (CallbackUnresolved host)
         | Some ips \<Rightarrow> map_option (CallbackDisallowed host) (find isDisallowedCallbackIP ips)))"

section \<open>What the guard keeps out\<close>

text \<open>
  The numeric value of an address and the block of the addresses that share the first \<open>n\<close> bits of
  a network of \<open>w\<close> bits: the reading of \<^verbatim>\<open>a.b.c.d/n\<close>.
\<close>

definition ip_value :: "ip \<Rightarrow> nat" where
  "ip_value a = foldl (\<lambda>v b. v * 256 + unat b) 0 a"

definition in_block :: "nat \<Rightarrow> nat \<Rightarrow> nat \<Rightarrow> nat \<Rightarrow> bool" where
  "in_block w v net n \<longleftrightarrow> v div 2 ^ (w - n) = net div 2 ^ (w - n)"

lemma unat8 [simp]: "unat (b :: 8 word) < 256"
  using unsigned_less [of b] by simp

lemma byte_eq: "n < 256 \<Longrightarrow> unat (b :: 8 word) = n \<longleftrightarrow> b = word_of_nat n"
  by (auto simp: unat_of_nat take_bit_eq_mod)

lemma ip_value_snoc: "ip_value (a @ [b]) = ip_value a * 256 + unat b"
  by (simp add: ip_value_def)

lemma ip_value_div: "ip_value (a @ b) div 256 ^ length b = ip_value a"
proof (induction b rule: rev_induct)
  case (snoc c b)
  have "(m * 256 + unat c) div 256 = m" for m
    using unat8 [of c] by (simp add: div_add1_eq)
  then have "ip_value (a @ b @ [c]) div 256 = ip_value (a @ b)"
    using ip_value_snoc [of "a @ b" c] by (simp only: append_assoc)
  then show ?case
    using snoc.IH by (simp only: div_mult2_eq length_append_singleton power_Suc)
qed simp

text \<open>The first one, two and three bytes of an address.\<close>

lemma ip_value_bytes:
  "ip_value [a] = unat a" "ip_value [a, b] = unat a * 256 + unat b"
  "ip_value [a, b, c] = (unat a * 256 + unat b) * 256 + unat c"
  by (simp_all add: ip_value_def)

lemma two_bytes:
  assumes "x < 256" and "n < 256"
  shows "m * 256 + x = k * 256 + n \<longleftrightarrow> m = k \<and> x = (n :: nat)"
proof
  assume eq: "m * 256 + x = k * 256 + n"
  have "m = (m * 256 + x) div 256" using assms(1) by (simp add: div_add1_eq)
  also have "\<dots> = k" unfolding eq using assms(2) by (simp add: div_add1_eq)
  finally show "m = k \<and> x = n" using eq by simp
qed simp

lemma three_bytes:
  "b < 256 \<Longrightarrow> c < 256 \<Longrightarrow> y < 256 \<Longrightarrow> z < 256 \<Longrightarrow>
   65536 * a + b * 256 + c = 65536 * x + y * 256 + z \<longleftrightarrow> a = x \<and> b = y \<and> c = (z :: nat)"
  using two_bytes [of c z "a * 256 + b" "x * 256 + y"] two_bytes [of b y a x] by (simp add: algebra_simps)

text \<open>The four blocks of IPv4: this host, the local link and its multicast, and no address.\<close>

definition local4 :: "nat \<Rightarrow> bool" where
  "local4 v \<longleftrightarrow> in_block 32 v (ip_value [127, 0, 0, 0]) 8 \<or> in_block 32 v (ip_value [169, 254, 0, 0]) 16 \<or>
     in_block 32 v (ip_value [224, 0, 0, 0]) 24 \<or> v = 0"

lemma To4E:
  assumes "To4 ip = Some a4"
  obtains a b c d where "a4 = [a, b, c, d]" "ip = a4 \<or> ip = v4InV6Prefix @ a4"
proof -
  have "length a4 = 4" using assms by (auto simp: To4_def split: if_splits)
  then obtain a b c d where "a4 = [a, b, c, d]"
    by (auto simp: numeral_eq_Suc length_Suc_conv)
  moreover have "ip = a4 \<or> ip = v4InV6Prefix @ a4"
    using assms by (auto simp: To4_def split: if_splits) (metis append_take_drop_id)
  ultimately show thesis using that by blast
qed

lemma in_block4:
  "in_block 32 (ip_value [a, b, c, d]) (ip_value [x, y, z, u]) 8 \<longleftrightarrow> a = x"
  "in_block 32 (ip_value [a, b, c, d]) (ip_value [x, y, z, u]) 16 \<longleftrightarrow> a = x \<and> b = y"
  "in_block 32 (ip_value [a, b, c, d]) (ip_value [x, y, z, u]) 24 \<longleftrightarrow> a = x \<and> b = y \<and> c = z"
  using ip_value_div [of "[a]" "[b, c, d]"] ip_value_div [of "[a, b]" "[c, d]"]
    ip_value_div [of "[a, b, c]" "[d]"] ip_value_div [of "[x]" "[y, z, u]"]
    ip_value_div [of "[x, y]" "[z, u]"] ip_value_div [of "[x, y, z]" "[u]"]
  by (simp_all add: in_block_def ip_value_bytes two_bytes three_bytes word_unat_eq_iff)

lemma disallowed4:
  assumes "To4 ip = Some a4"
  shows "isDisallowedCallbackIP ip \<longleftrightarrow> local4 (ip_value a4)"
proof (rule To4E [OF assms])
  fix a b c d assume a4: "a4 = [a, b, c, d]" and ip: "ip = a4 \<or> ip = v4InV6Prefix @ a4"
  have "IsUnspecified ip \<longleftrightarrow> a = 0 \<and> b = 0 \<and> c = 0 \<and> d = 0"
    using ip by (auto simp: a4 IsUnspecified_def Equal_def IPv4zero_def IPv6unspecified_def
        v4InV6Prefix_def numeral_eq_Suc)
  moreover have "IsLoopback ip \<longleftrightarrow> a = 127" "IsLinkLocalUnicast ip \<longleftrightarrow> a = 169 \<and> b = 254"
    "IsLinkLocalMulticast ip \<longleftrightarrow> a = 224 \<and> b = 0 \<and> c = 0"
    by (simp_all add: IsLoopback_def IsLinkLocalUnicast_def IsLinkLocalMulticast_def assms a4 numeral_eq_Suc)
  moreover have "ip_value a4 = 0 \<longleftrightarrow> a = 0 \<and> b = 0 \<and> c = 0 \<and> d = 0"
    by (auto simp: ip_value_def a4 unat_eq_0)
  ultimately show ?thesis by (auto simp: isDisallowedCallbackIP_def local4_def in_block4 a4)
qed

text \<open>
  IPv6 addresses that are not IPv4-mapped: loopback, none, the block \<^verbatim>\<open>fe80::/10\<close> of the local
  link, and its multicast, whatever the flags of the multicast address.
\<close>

definition local6 :: "ip \<Rightarrow> bool" where
  "local6 a \<longleftrightarrow> a = IPv6loopback \<or> a = IPv6unspecified \<or>
     in_block 128 (ip_value a) (ip_value ([0xfe, 0x80] @ replicate 14 0)) 10 \<or>
     a ! 0 = 0xff \<and> unat (a ! 1) mod 16 = 2"

lemma byte_masks:
  "and x 0xc0 = 0x80 \<longleftrightarrow> unat x div 64 = 2" "and x 0x0f = 0x02 \<longleftrightarrow> unat x mod 16 = 2" for x :: "8 word"
proof -
  have "\<forall>n \<in> set [0..<256]. (and (word_of_nat n :: 8 word) 0xc0 = 0x80 \<longleftrightarrow> n div 64 = 2) \<and>
    (and (word_of_nat n :: 8 word) 0x0f = 0x02 \<longleftrightarrow> n mod 16 = 2)" by code_simp
  moreover have "unat x \<in> set [0..<256]" using unat8 by simp
  ultimately have "(and (word_of_nat (unat x) :: 8 word) 0xc0 = 0x80 \<longleftrightarrow> unat x div 64 = 2) \<and>
    (and (word_of_nat (unat x) :: 8 word) 0x0f = 0x02 \<longleftrightarrow> unat x mod 16 = 2)" by (rule bspec)
  then show "and x 0xc0 = 0x80 \<longleftrightarrow> unat x div 64 = 2" "and x 0x0f = 0x02 \<longleftrightarrow> unat x mod 16 = 2" by simp_all
qed

lemma in_block_fe80:
  assumes "length ip = 16"
  shows "in_block 128 (ip_value ip) (ip_value ([0xfe, 0x80] @ replicate 14 0)) 10 \<longleftrightarrow>
    ip ! 0 = 0xfe \<and> unat (ip ! 1) div 64 = 2"
proof -
  have split: "ip = [ip ! 0, ip ! 1] @ drop 2 ip"
    using assms Cons_nth_drop_Suc [of 0 ip] Cons_nth_drop_Suc [of 1 ip]
    by (metis One_nat_def Suc_1 append_Cons append_Nil drop0 numeral_less_iff one_less_numeral_iff
        semiring_norm(76) zero_less_numeral)
  have two: "ip_value (x @ y) div 2 ^ 118 = ip_value x div 64" if "length y = 14" for x y
    using ip_value_div [of x y] that div_mult2_eq [of "ip_value (x @ y)" "256 ^ 14" 64] by simp
  have "ip_value ip div 2 ^ 118 = (unat (ip ! 0) * 256 + unat (ip ! 1)) div 64"
    using two [of "drop 2 ip" "[ip ! 0, ip ! 1]"] assms split by (simp add: ip_value_bytes)
  moreover have "ip_value ([0xfe, 0x80] @ replicate 14 0) div 2 ^ 118 = 1018"
    using two [of "replicate 14 0" "[0xfe, 0x80]"] by (simp add: ip_value_bytes)
  moreover have "(x * 256 + y) div 64 = 1018 \<longleftrightarrow> x = 254 \<and> y div 64 = 2" if "y < 256" for x y :: nat
  proof -
    have "(x * 256 + y) div 64 = x * 4 + y div 64"
      using div_mult_self3 [of 64 "x * 4" y] by simp
    moreover have "y div 64 < 4" using that by (simp add: div_less_iff_less_mult)
    moreover have "x * 4 + q = 1018 \<longleftrightarrow> x = 254 \<and> q = 2" if "q < 4" for q :: nat
      using that by (cases x "254 :: nat" rule: linorder_cases) auto
    ultimately show ?thesis by simp
  qed
  ultimately show ?thesis by (simp add: in_block_def byte_eq)
qed

lemma disallowed6:
  assumes "To4 ip = None" and "length ip = 16"
  shows "isDisallowedCallbackIP ip \<longleftrightarrow> local6 ip"
proof -
  have "IsUnspecified ip \<longleftrightarrow> ip = IPv6unspecified" "IsLoopback ip \<longleftrightarrow> ip = IPv6loopback"
    using assms by (auto simp: To4_def IsUnspecified_def IsLoopback_def Equal_def IPv4zero_def
        IPv6unspecified_def IPv6loopback_def v4InV6Prefix_def)
  then show ?thesis
    unfolding isDisallowedCallbackIP_def IsLinkLocalUnicast_def IsLinkLocalMulticast_def local6_def
      in_block_fe80 [OF assms(2)] byte_masks
    using assms by auto
qed

text \<open>
  An address by which this connector would reach itself or its own link.  Every address a resolver
  or a literal gives has 4 or 16 bytes.
\<close>

definition reaches_this_host :: "ip \<Rightarrow> bool" where
  "reaches_this_host ip = (case To4 ip of Some a4 \<Rightarrow> local4 (ip_value a4) | None \<Rightarrow> local6 ip)"

lemma isDisallowedCallbackIP_blocks:
  "length ip \<in> {4, 16} \<Longrightarrow> isDisallowedCallbackIP ip \<longleftrightarrow> reaches_this_host ip"
  using disallowed4 disallowed6 by (auto simp: reaches_this_host_def To4_def split: option.splits if_splits)

text \<open>
  C36. The guard lets an address through exactly when it is an http or https address with a host,
  and every address the host stands for, written in either form, lies outside the blocks by which
  this connector would reach itself or its own link.
\<close>

theorem guarded_addresses_stay_off_this_host:
  assumes "\<And>host ips ip. callback_ips ParseIP lookupIP host = Some ips \<Longrightarrow> ip \<in> set ips \<Longrightarrow> length ip \<in> {4, 16}"
  shows "validateCallbackURL parse_url ParseIP lookupIP raw = None \<longleftrightarrow>
    (\<exists>scheme hostport userinfo ips. parse_url raw = Some (scheme, hostport, userinfo) \<and>
       scheme \<in> {''http'', ''https''} \<and> Hostname hostport \<noteq> '''' \<and>
       callback_ips ParseIP lookupIP (Hostname hostport) = Some ips \<and>
       (\<forall>ip \<in> set ips. \<not> reaches_this_host ip))"
  using assms
  by (auto simp: validateCallbackURL_def Let_def find_None_iff isDisallowedCallbackIP_blocks
      split: option.splits if_splits)

text \<open>The management listener written as an IPv4-mapped literal, and an address of the network.\<close>

definition example_ParseIP :: "string \<Rightarrow> ip option" where
  "example_ParseIP host = (if host = ''::ffff:127.0.0.1'' then Some (v4InV6Prefix @ [127, 0, 0, 1])
     else if host = ''10.0.0.7'' then Some [10, 0, 0, 7] else None)"

definition example_parse_url :: url_parser where
  "example_parse_url raw = (if raw = ''http://[::ffff:127.0.0.1]:8081/health''
     then Some (''http'', ''[::ffff:127.0.0.1]:8081'', False)
     else if raw = ''http://10.0.0.7/dsp'' then Some (''http'', ''10.0.0.7'', False) else None)"

theorem guarded_addresses_stay_off_this_host_witness:
  "validateCallbackURL example_parse_url example_ParseIP (\<lambda>h. None) ''http://[::ffff:127.0.0.1]:8081/health'' \<noteq> None \<and>
   validateCallbackURL example_parse_url example_ParseIP (\<lambda>h. None) ''http://10.0.0.7/dsp'' = None"
proof -
  have sized: "length ip \<in> {4, 16}" if "callback_ips example_ParseIP (\<lambda>h. None) host = Some ips" "ip \<in> set ips"
    for host ips ip
    using that by (auto simp: callback_ips_def example_ParseIP_def v4InV6Prefix_def split: if_splits)
  have "Hostname ''[::ffff:127.0.0.1]:8081'' = ''::ffff:127.0.0.1''" "Hostname ''10.0.0.7'' = ''10.0.0.7''"
    by code_simp+
  moreover have "reaches_this_host (v4InV6Prefix @ [127, 0, 0, 1])" "\<not> reaches_this_host [10, 0, 0, 7]"
    by (simp_all add: reaches_this_host_def To4_def v4InV6Prefix_def
        local4_def in_block_def ip_value_def)
  moreover have "validateCallbackURL example_parse_url example_ParseIP (\<lambda>h. None) raw = None \<longleftrightarrow>
      (\<exists>scheme hostport userinfo ips. example_parse_url raw = Some (scheme, hostport, userinfo) \<and>
         scheme \<in> {''http'', ''https''} \<and> Hostname hostport \<noteq> '''' \<and>
         callback_ips example_ParseIP (\<lambda>h. None) (Hostname hostport) = Some ips \<and>
         (\<forall>ip \<in> set ips. \<not> reaches_this_host ip))" for raw
    by (rule guarded_addresses_stay_off_this_host) (rule sized)
  ultimately show ?thesis
    by (simp add: example_parse_url_def callback_ips_def example_ParseIP_def ex_bool_eq)
qed

end
