(* ===== verification/OutgoingAddresses.thy ===== *)
theory OutgoingAddresses
  imports Demonstration Callback
begin

text \<open>
  Where the connector sends.  Every outgoing request of the handlers and of their goroutines goes
  to an address \<^verbatim>\<open>validateCallbackURL\<close> admitted: the one a message named, the one the roster
  lists, or the base address of a consumer negotiation, which was admitted before it was stored.
  \<open>checked\<close> is this discipline as a judgement on programs, with a rule for every statement and
  every helper; a history of the connector is then extended by the admissions made in it.
\<close>

section \<open>Where a program may send\<close>

text \<open>The addresses the consumer's negotiations are on record with.\<close>

definition bases :: "store \<Rightarrow> string set" where
  "bases s = c_ProviderBaseURL ` set (consumer_negotiations s)"

definition under :: "string \<Rightarrow> string \<Rightarrow> bool" where
  "under base url \<longleftrightarrow> (\<exists>path. url = base @ path \<and> (path = '''' \<or> hd path = CHR ''/''))"

text \<open>An address that continues one of \<open>U\<close>, if at all, with a path.\<close>

definition covered :: "string set \<Rightarrow> string \<Rightarrow> bool" where
  "covered U url \<longleftrightarrow> (\<exists>base \<in> U. under base url)"

lemma underI: "under base base" "under base (base @ CHR ''/'' # path)"
  unfolding under_def by (rule exI [of _ "''''"], simp, rule exI [of _ "CHR ''/'' # path"], simp)

lemma coveredI: "base \<in> U \<Longrightarrow> covered U base" "base \<in> U \<Longrightarrow> covered U (base @ CHR ''/'' # path)"
  unfolding covered_def by (blast intro: underI)+

lemma covered_mono: "covered U url \<Longrightarrow> U \<subseteq> V \<Longrightarrow> covered V url"
  by (auto simp: covered_def)

text \<open>
  \<open>checked p U\<close>: with the addresses \<open>U\<close> admitted and those on record, each request of \<open>p\<close> and of
  all it starts goes under an address that is admitted by then, and no other address gets on
  record.
\<close>

primrec checked :: "prog \<Rightarrow> string set \<Rightarrow> bool" where
  "checked Done U \<longleftrightarrow> True"
| "checked (Respond r p) U \<longleftrightarrow> checked p U"
| "checked (Go q p) U \<longleftrightarrow> checked q U \<and> checked p U"
| "checked (Sleep d p) U \<longleftrightarrow> checked p U"
| "checked (Now f) U \<longleftrightarrow> (\<forall>t. checked (f t) U)"
| "checked (Uuid f) U \<longleftrightarrow> (\<forall>u. checked (f u) U)"
| "checked (AllowURL u f) U \<longleftrightarrow> checked (f True) (insert u U) \<and> checked (f False) U"
| "checked (Http q f) U \<longleftrightarrow> covered U (hq_URL q) \<and> (\<forall>r. checked (f r) U)"
| "checked (Act u k) U \<longleftrightarrow> (\<forall>i w. bases (db (u i w)) \<subseteq> bases (db w) \<union> U \<and>
     checked (k i w) (U \<union> bases (db w)))"

lemma checked_mono: "checked p U \<Longrightarrow> U \<subseteq> V \<Longrightarrow> checked p V"
proof (induction p arbitrary: U V)
  case (Now f)
  show ?case using Now.prems by (simp; blast intro: Now.IH [OF rangeI])
next
  case (Uuid f)
  show ?case using Uuid.prems by (simp; blast intro: Uuid.IH [OF rangeI])
next
  case (AllowURL u f)
  have "checked (f True) (insert u V)"
    using AllowURL.prems by - (rule AllowURL.IH [OF rangeI, of True "insert u U"], auto)
  moreover have "checked (f False) V"
    using AllowURL.prems by - (rule AllowURL.IH [OF rangeI, of False U], auto)
  ultimately show ?case by simp
next
  case (Http q f)
  show ?case using Http.prems by (simp; blast intro: Http.IH [OF rangeI] covered_mono)
next
  case (Act u k)
  have "checked (k i w) (V \<union> bases (db w))" for i w
    using Act.prems by - (rule Act.IH [OF rangeI rangeI, of i w "U \<union> bases (db w)"], auto)
  then show ?case using Act.prems by fastforce
qed (simp_all, blast+)

lemma checked_grows: "checked p {} \<Longrightarrow> checked p U"
  by (rule checked_mono) auto

section \<open>Statements and the addresses on record\<close>

lemma bases_simps [simp]:
  "bases (s\<lparr>negotiations := a\<rparr>) = bases s" "bases (s\<lparr>agreements := b\<rparr>) = bases s"
  "bases (s\<lparr>transfer_processes := c\<rparr>) = bases s" "bases (s\<lparr>consumer_transfer_processes := d\<rparr>) = bases s"
  "bases (s\<lparr>roster_version := e\<rparr>) = bases s"
  by (simp_all add: bases_def)

lemma bases_driver: "bases (snd out) = bases s \<Longrightarrow> bases (snd (driver i out s)) = bases s"
  by (cases i) auto

lemma bases_insert:
  "insert_row c_ConsumerPID n (consumer_negotiations s) = Some rows \<Longrightarrow>
     bases (s\<lparr>consumer_negotiations := rows\<rparr>) = insert (c_ProviderBaseURL n) (bases s)"
  by (auto simp: bases_def insert_row_def image_iff split: option.splits)

lemma bases_update:
  assumes "update_where c_ConsumerPID pid P f (consumer_negotiations s) = Some rows"
    and "\<And>r. c_ProviderBaseURL (f r) = c_ProviderBaseURL r"
  shows "bases (s\<lparr>consumer_negotiations := rows\<rparr>) = bases s"
proof -
  have "map c_ProviderBaseURL rows = map c_ProviderBaseURL (consumer_negotiations s)"
    using assms by (auto simp: update_where_def update_rows_def split: if_splits)
  from arg_cong [OF this, of set] show ?thesis by (simp add: bases_def)
qed

lemma bases_kept [simp]:
  "bases (snd (Create n i s)) = bases s" "bases (snd (SetState pid from to t i s)) = bases s"
  "bases (snd (SetRerequested pid i s)) = bases s"
  "bases (snd (SetConsumerState pid from to t i s)) = bases s"
  "bases (snd (SetConsumerProviderPID pid ppid t i s)) = bases s"
  "bases (snd (CreateAgreement a i s)) = bases s"
  "bases (snd (CreateAgreementIfNegotiationAgreed pid sts a i s)) = bases s"
  "bases (snd (CreateTransfer tp i s)) = bases s" "bases (snd (SetTransferState pid from to t i s)) = bases s"
  "bases (snd (CreateConsumerTransfer ct i s)) = bases s"
  "bases (snd (SetConsumerTransferState pid from to t i s)) = bases s"
  "bases (snd (SetConsumerTransferProviderPID pid ppid t i s)) = bases s"
  "bases (snd (SetConsumerTransferExpectedBytes pid bytes i s)) = bases s"
  "bases (snd (RecordConsumerTransferOutcome pid bytes path at failure i s)) = bases s"
  "bases (snd (Get pid i s)) = bases s" "bases (snd (GetAgreement aid i s)) = bases s"
  "bases (snd (GetTransfer pid i s)) = bases s" "bases (snd (GetConsumerTransfer pid i s)) = bases s"
  unfolding store_defs
  by (auto intro!: bases_driver split: option.split simp: bases_update)


section \<open>The rules of the statements\<close>

named_theorems checked_rules

lemma checked_call:
  assumes "\<And>i s. bases (snd (f i s)) = bases s" and "\<And>x. checked (k x) U"
  shows "checked (call f k) U"
proof -
  have "checked (k x) (U \<union> A)" for x A by (rule checked_mono [OF assms(2)]) simp
  then show ?thesis using assms(1) by (simp add: call_def)
qed

lemma checked_query [checked_rules]: "(\<And>x. checked (k x) U) \<Longrightarrow> checked (call (query g) k) U"
  by (rule checked_call) simp_all

lemmas checked_statements [checked_rules] = bases_kept [THEN checked_call]

lemma checked_GetConsumer [checked_rules]:
  assumes "\<And>e. checked (k (Inl e)) U" and "checked (k (Inr None)) U"
    and "\<And>n. checked (k (Inr (Some n))) (insert (c_ProviderBaseURL n) U)"
  shows "checked (call (GetConsumer pid) k) U"
proof -
  have "checked (k (fst (GetConsumer pid i s))) (U \<union> bases s)" for i s
  proof (cases "fst (GetConsumer pid i s)")
    case (Inl e)
    then show ?thesis using checked_mono [OF assms(1)] by auto
  next
    case (Inr found)
    show ?thesis
    proof (cases found)
      case None
      then show ?thesis using Inr checked_mono [OF assms(2)] by auto
    next
      case (Some n)
      then have "n \<in> set (consumer_negotiations s)"
        using Inr select_row_set [of c_ConsumerPID pid "consumer_negotiations s" n]
        by (auto simp: GetConsumer_def query_result split: if_splits)
      then show ?thesis using Inr Some checked_mono [OF assms(3) [of n], of "U \<union> bases s"]
        by (auto simp: bases_def)
    qed
  qed
  then show ?thesis by (simp add: call_def GetConsumer_def)
qed

lemma checked_CreateConsumer [checked_rules]:
  assumes "c_ProviderBaseURL n \<in> U" and "\<And>x. checked (k x) U"
  shows "checked (call (CreateConsumer n) k) U"
proof -
  have "bases (snd (CreateConsumer n i s)) \<subseteq> bases s \<union> U" for i s
    using assms(1) bases_insert [of n s]
    by (cases i) (auto simp: CreateConsumer_def split: option.splits)
  moreover have "checked (k x) (U \<union> A)" for x A by (rule checked_mono [OF assms(2)]) simp
  ultimately show ?thesis by (simp add: call_def)
qed

lemma checked_Act_files [checked_rules]:
  assumes "\<And>i w. db (u i w) = db w" and "\<And>i w. checked (k i w) U"
  shows "checked (Act u k) U"
  using assms checked_mono [OF assms(2), of "U \<union> A" for A] by auto

lemma checked_sys [checked_rules]:
  "(\<And>w. db (u w) = db w) \<Longrightarrow> (\<And>b. checked (k b) U) \<Longrightarrow> checked (sys u k) U"
  unfolding sys_def by (rule checked_Act_files) auto

section \<open>The plumbing\<close>

lemma checked_answers [simp]:
  "checked (writeError ty st reason) U" "checked (writeJSON st v k) U = checked k U"
  "checked (WriteHeader st k) U = checked k U" "checked (refuseExpiredRoster ty) U"
  "checked (writeStateUpdateError pid e) U" "checked (writeTransferStateUpdateError pid e) U"
  by (simp_all add: writeError_def writeJSON_def WriteHeader_def refuseExpiredRoster_def
      writeStateUpdateError_def writeTransferStateUpdateError_def)

lemma checked_plumbing [checked_rules]:
  "checked k U \<Longrightarrow> checked (checkEnvelope ty ctx got want k) U"
  "checked k U \<Longrightarrow> checked (refuseIfNotParty r ty stored auth k) U"
  "(\<And>m. checked (km m) U) \<Longrightarrow> checked (decode_body ty rs flds z r km) U"
  "(\<And>b. checked (kb b) U) \<Longrightarrow> checked (usable h kb) U"
  "(\<And>x. checked (kx x) U) \<Longrightarrow> checked (newMessageID kx) U"
  by (auto simp: checkEnvelope_def refuseIfNotParty_def decode_body_def usable_def newMessageID_def
      split: option.splits)

lemma checked_mint [checked_rules]:
  "(\<And>x. checked (k x) U) \<Longrightarrow> checked (mintOutboundCredential h aud k) U"
  by (auto simp: mintOutboundCredential_def intro!: checked_rules split: option.splits)

lemma post_URL [simp]: "hq_URL (post url body au) = url"
  by (simp add: post_def)

lemma checked_push_attempts:
  "covered U url \<Longrightarrow> (\<And>x. checked (k x) U) \<Longrightarrow> checked (push_attempts h url v aud ds k) U"
  by (induction ds) (auto simp: attemptPush_def intro!: checked_mint)

lemma checked_sends [checked_rules]:
  "covered U url \<Longrightarrow> (\<And>x. checked (k x) U) \<Longrightarrow> checked (pushCallback h url v aud k) U"
  "base \<in> U \<Longrightarrow> (\<And>y. checked (ky y) U) \<Longrightarrow> checked (sendInitialRequest h base msg aud ky) U"
  "base \<in> U \<Longrightarrow> (\<And>y. checked (ky y) U) \<Longrightarrow> checked (sendTransferRequest h base tmsg aud ky) U"
  unfolding pushCallback_def
  by (auto simp: sendInitialRequest_def sendTransferRequest_def consumerRequestPath_def
      transferRequestPath_def intro!: checked_push_attempts checked_mint coveredI)


section \<open>The consumer's negotiations\<close>

lemma checked_dialAddress [checked_rules]:
  assumes "a \<in> U" and "\<And>u. checked (k u) (insert u U)"
  shows "checked (dialAddress h ty p a k) U"
  using assms(2) [of a] assms by (simp add: dialAddress_def insert_absorb split: option.splits)

lemma checked_requireKnown [checked_rules]:
  "checked k U \<Longrightarrow> checked (requireKnown h ty p k) U"
  by (simp add: requireKnown_def)

lemma covered_consumerPath: "base \<in> U \<Longrightarrow> covered U (base @ consumerPath pid what)"
  by (auto simp: consumerPath_def intro: coveredI)

lemma checked_consumer_sends [checked_rules]:
  assumes "c_ProviderBaseURL n \<in> U" and "\<And>x. checked (k x) U"
  shows "checked (sendCounterRequest h n k) U" "checked (sendAcceptedEvent h n k) U"
    "checked (sendVerification h n k) U" "checked (sendConsumerTermination h n k) U"
  using assms
  by (auto simp: sendCounterRequest_def sendAcceptedEvent_def sendVerification_def
      sendConsumerTermination_def intro!: checked_rules covered_consumerPath)

lemma checked_lookupConsumer [checked_rules]:
  "(\<And>n. checked (k n) (insert (c_ProviderBaseURL n) U)) \<Longrightarrow> checked (lookupConsumer h r k) U"
  by (auto simp: lookupConsumer_def intro!: checked_rules)

lemma checked_resolveProviderPID [checked_rules]:
  assumes "\<And>ppid. checked (k (n\<lparr>c_ProviderPID := ppid\<rparr>)) U"
  shows "checked (resolveProviderPID n k) U"
proof -
  have "checked (k n) U" using assms [of "c_ProviderPID n"] by simp
  then show ?thesis
    using assms checked_mono [OF assms subset_insertI] by (auto simp: resolveProviderPID_def intro!: checked_rules)
qed

lemma checked_consumer_goroutines:
  assumes "c_ProviderBaseURL n \<in> U"
  shows "checked (startNegotiation h n) U" "checked (reactToOffer h n un) U"
    "checked (reactToAgreement h n un wt) U"
  using assms by (auto simp: startNegotiation_def reactToOffer_def reactToAgreement_def Let_def
      intro!: checked_rules split: option.splits sum.splits)

lemma checked_negotiation_consumer:
  "checked (handleInitiate h r) U" "checked (handleOffers h r) U" "checked (handleAgreement h r) U"
  "checked (handleConsumerFinalizedEvent h r n) U" "checked (handleConsumerTermination h r n) U"
  by (auto simp: handleInitiate_def handleOffers_def handleAgreement_def
      handleConsumerFinalizedEvent_def handleConsumerTermination_def Let_def
      intro!: checked_rules checked_consumer_goroutines split: option.splits sum.splits)


section \<open>The provider's negotiations\<close>

lemma checked_insert: "checked p U \<Longrightarrow> checked p (insert u U)"
  by (rule checked_mono) auto

lemma checked_pushAndStore [checked_rules]:
  assumes "checked k U"
  shows "checked (pushAndStore h neg st path msg k) U"
  using assms checked_insert [OF assms]
  by (auto simp: pushAndStore_def Let_def intro!: checked_rules coveredI)

lemma checked_provider_goroutines [simp]:
  "checked (delayedTerminate h n) U" "checked (dispatch h n out) U"
proof -
  show *: "checked (delayedTerminate h n) U" for n
    by (auto simp: delayedTerminate_def intro!: checked_rules split: option.splits sum.splits)
  show "checked (dispatch h n out) U"
    by (auto simp: dispatch_def * intro!: checked_rules)
qed

lemma checked_lookup [checked_rules]:
  "(\<And>n. checked (k n) U) \<Longrightarrow> checked (lookup h r k) U"
  by (auto simp: lookup_def intro!: checked_rules split: sum.splits option.splits)

lemma checked_byRole [checked_rules]:
  assumes "\<And>n. checked (f n) U" and "\<And>n. checked (g n) U"
  shows "checked (byRole r f g) U"
  using assms checked_insert [OF assms(1)] checked_insert [OF assms(2)]
  by (auto simp: byRole_def intro!: checked_rules split: sum.splits option.splits)

lemma checked_negotiation:
  "checked (handleContractRequest h r) U" "checked (handleReRequest h r) U"
  "checked (handleEvent h r) U" "checked (handleVerification h r) U"
  "checked (handleTermination h r) U" "checked (handleGetNegotiation h r) U"
  by (auto simp: handleContractRequest_def handleReRequest_def handleEvent_def handleProviderAcceptedEvent_def
      handleVerification_def handleTermination_def handleProviderTermination_def
      handleGetNegotiation_def Let_def
      intro!: checked_rules checked_negotiation_consumer split: option.splits sum.splits)

section \<open>Transfers and catalogs\<close>

lemma checked_pull [simp]: "checked (pullTransferData h t addr) U"
proof -
  have fin: "checked (pull_finish pid o') V" for pid o' V
    by (auto simp: pull_finish_def intro!: checked_rules)
  have place: "checked (pull_place h name n remaining expected o' (pull_finish pid)) V"
    for name n remaining expected o' pid V
    by (auto simp: pull_place_def fin Let_def intro!: checked_rules)
  have copy: "checked (pull_copy h name existing expected resp o' (pull_finish pid)) V"
    for name existing expected resp o' pid V
    by (auto simp: pull_copy_def Let_def case_prod_beta fin place intro!: checked_rules)
  have response: "checked (pull_response h t existing resp o' (pull_finish pid)) V"
    for existing resp o' pid V
    by (auto simp: pull_response_def Let_def case_prod_beta fin copy discardPartial_def intro!: checked_rules)
  have request: "checked (pull_request h t endpoint existing o' (pull_finish pid)) (insert endpoint V)"
    for endpoint existing o' pid V
    by (auto simp: pull_request_def fin response intro!: checked_rules coveredI split: http_result.split)
  show ?thesis
    by (auto simp: pullTransferData_def pull_body_def Let_def fin request intro!: checked_rules split: option.splits)
qed

lemma checked_pushConsumerStep [checked_rules]:
  assumes "\<And>b. checked (k b) U"
  shows "checked (pushConsumerStep h t to k) U"
  using assms checked_insert [OF assms]
  by (auto simp: pushConsumerStep_def Let_def intro!: checked_rules coveredI split: option.splits sum.splits)

lemma checked_drive_consumer_steps [simp]: "checked (drive_consumer_steps h sts later t) U"
  by (induction sts arbitrary: later t) (auto simp: Let_def intro!: checked_rules)

lemma checked_maybeDriveConsumerTransfer [simp]: "checked (maybeDriveConsumerTransfer h t st) U"
  by (simp add: maybeDriveConsumerTransfer_def driveConsumerTransfer_def Let_def case_prod_beta)

lemma checked_requestTransfer: "ct_ProviderBaseURL t \<in> U \<Longrightarrow> checked (requestTransfer h t) U"
  by (auto simp: requestTransfer_def onTransferRequestAcknowledged_def intro!: checked_rules
      split: option.splits sum.splits)

lemma checked_handleTransferInitiate: "checked (handleTransferInitiate h r) U"
  by (auto simp: handleTransferInitiate_def Let_def intro!: checked_rules checked_requestTransfer
      split: option.splits sum.splits)

lemma checked_transferStepMessage [checked_rules]:
  "(\<And>m. checked (k m) U) \<Longrightarrow> checked (transferStepMessage h t to k) U"
  by (auto simp: transferStepMessage_def hasSourceFor_def intro!: checked_rules
      split: option.splits sum.splits)

lemma checked_pushTransferStep [checked_rules]:
  assumes "\<And>b. checked (k b) U"
  shows "checked (pushTransferStep h t to k) U"
  using assms checked_insert [OF assms]
  by (auto simp: pushTransferStep_def Let_def intro!: checked_rules coveredI split: option.splits sum.splits)

lemma checked_drive_transfer_steps [simp]: "checked (drive_transfer_steps h sts t) U"
  by (induction sts arbitrary: t) (auto intro!: checked_rules)

lemma checked_driveTransfer [simp]: "checked (driveTransfer h t) U"
  by (auto simp: driveTransfer_def Let_def intro!: checked_rules)

lemma checked_lookupTransfer [checked_rules]:
  "(\<And>t. checked (k t) U) \<Longrightarrow> checked (lookupTransfer h r k) U"
  by (auto simp: lookupTransfer_def intro!: checked_rules split: option.splits sum.splits)

lemma checked_setTransferState [checked_rules]:
  "(\<And>x. checked (k x) U) \<Longrightarrow> checked (call (setTransferState t st to at) k) U"
  by (auto simp: setTransferState_def intro!: checked_rules)

lemma checked_applyTransition: "checked (applyTransition h r ty rule to) U"
  by (auto simp: applyTransition_def Let_def intro!: checked_rules split: sum.splits)

lemma checked_transfer:
  "checked (handleTransferRequest h r) U" "checked (handleTransferStart h r) U"
  "checked (handleTransferCompletion h r) U" "checked (handleTransferSuspension h r) U"
  "checked (handleTransferTermination h r) U" "checked (handleGetTransfer h r) U"
  by (auto simp: handleTransferRequest_def handleTransferStart_def handleTransferCompletion_def
      handleTransferSuspension_def handleTransferTermination_def handleGetTransfer_def Let_def
      intro!: checked_rules checked_applyTransition split: option.splits sum.splits)

lemma checked_handleData: "checked (handleData h r) U"
  by (auto simp: handleData_def datasetFor_def serve_file_def Let_def intro!: checked_rules
      split: option.splits sum.splits)

lemma checked_fetchCatalog [checked_rules]:
  "base \<in> U \<Longrightarrow> (\<And>c. checked (k c) U) \<Longrightarrow> checked (fetchCatalog h base aud k) U"
  by (auto simp: fetchCatalog_def consumerCatalogPath_def intro!: checked_rules coveredI)

lemma checked_catalog:
  "checked (handleCatalogRequest h r) U" "checked (handleDatasetRequest h r) U"
  "checked handleVersion U" "checked (handleCatalogLookup h r) U"
  by (auto simp: handleCatalogRequest_def handleDatasetRequest_def handleVersion_def
      handleCatalogLookup_def intro!: checked_rules split: option.splits)

lemma checked_management:
  "checked (health h) U" "checked (importAgreement r) U"
  "checked listAgreements U" "checked listTransfers U"
  by (auto simp: health_def importAgreement_def http_error_def listAgreements_def listTransfers_def Let_def
      ListAgreements_def ListTransfers_def ListConsumerTransfers_def
      intro!: checked_rules split: option.splits sum.splits)

lemma checked_authenticated: "checked k U \<Longrightarrow> checked (authenticated token r k) U"
  by (auto simp: authenticated_def split: option.splits)

section \<open>The two listeners\<close>

lemma checked_requireParticipant:
  "(\<And>r'. checked (k r') U) \<Longrightarrow> checked (requireParticipant c r k) U"
  by (auto simp: requireParticipant_def refuse_def intro!: checked_rules split: option.splits sum.splits)

lemma checked_serve_mux:
  "(\<And>m pat f r'. (m, pat, f) \<in> set routes \<Longrightarrow> checked (f h r') U) \<Longrightarrow>
     checked (serve_mux routes h m path r) U"
  by (rule serve_mux_cases [of routes h m path r]) auto

lemma checked_protocol_routes: "(m, pat, f) \<in> set protocol_routes \<Longrightarrow> checked (f h r) U"
  by (auto simp: protocol_routes_def Let_def checked_catalog checked_negotiation
      checked_negotiation_consumer checked_transfer checked_handleData)

lemma checked_management_routes: "(m, pat, f) \<in> set (management_routes token) \<Longrightarrow> checked (f h r) U"
  by (auto simp: management_routes_def checked_management checked_catalog
      checked_handleTransferInitiate checked_negotiation_consumer intro!: checked_authenticated)

lemma checked_message: "message c p \<Longrightarrow> checked p U"
  by (auto simp: message_def protocol_router_def management_router_def checked_catalog(3)
      intro!: checked_requireParticipant checked_serve_mux
      intro: checked_protocol_routes checked_management_routes)


section \<open>A history with its admissions\<close>

text \<open>
  The guard's answers are no longer arbitrary: a program that asks for an address gets the verdict
  of \<open>validateCallbackURL\<close> over what the resolver answers at that moment, and an admission is
  recorded with those answers.  Resolved addresses have 4 or 16 bytes.
\<close>

type_synonym admissions = "(string \<times> (string \<Rightarrow> ip list option)) set"

definition resolves :: "(string \<Rightarrow> ip list option) \<Rightarrow> bool" where
  "resolves lookupIP \<longleftrightarrow> (\<forall>host ips. lookupIP host = Some ips \<longrightarrow> (\<forall>ip \<in> set ips. length ip \<in> {4, 16}))"

primrec question :: "prog \<Rightarrow> string option" where
  "question Done = None"
| "question (Respond r p) = None"
| "question (Go q p) = None"
| "question (Sleep d p) = None"
| "question (Now f) = None"
| "question (Uuid f) = None"
| "question (AllowURL u f) = Some u"
| "question (Http q f) = None"
| "question (Act u k) = None"

inductive watched ::
  "url_parser \<Rightarrow> (string \<Rightarrow> ip option) \<Rightarrow> (prog \<Rightarrow> bool) \<Rightarrow> system \<times> admissions \<Rightarrow> system \<times> admissions \<Rightarrow> bool"
  for parse_url ParseIP entry c0 where
  start: "watched parse_url ParseIP entry c0 c0"
| arrive: "watched parse_url ParseIP entry c0 ((w, ps, tr), A) \<Longrightarrow> entry p \<Longrightarrow>
     watched parse_url ParseIP entry c0 ((w, ps @ [p], tr), A)"
| perform: "watched parse_url ParseIP entry c0 ((w, ps, tr), A) \<Longrightarrow> i < length ps \<Longrightarrow>
     advance (ps ! i) a w = (p', new, evs, w') \<Longrightarrow> question (ps ! i) = None \<Longrightarrow>
     watched parse_url ParseIP entry c0 ((w', ps[i := p'] @ new, tr @ evs), A)"
| ask: "watched parse_url ParseIP entry c0 ((w, ps, tr), A) \<Longrightarrow> i < length ps \<Longrightarrow>
     ps ! i = AllowURL u f \<Longrightarrow> resolves lookupIP \<Longrightarrow>
     allowed \<longleftrightarrow> validateCallbackURL parse_url ParseIP lookupIP u = None \<Longrightarrow>
     watched parse_url ParseIP entry c0
       ((w, ps[i := f allowed], tr), A \<union> {(u', l). allowed \<and> u' = u \<and> l = lookupIP})"

lemma watched_reachable: "watched parse_url ParseIP entry c0 c \<Longrightarrow> reachable entry (fst c0) (fst c)"
proof (induction rule: watched.induct)
  case (ask w ps tr A i u f lookupIP allowed)
  have "advance (ps ! i) (undefined\<lparr>an_Allow := allowed\<rparr>) w = (f allowed, [], [], w)"
    using ask.hyps(3) by simp
  from sys_step.perform [OF ask.hyps(2) this, of entry tr] ask.IH show ?case
    by (auto intro: reachable.step)
qed (auto intro: reachable.intros sys_step.intros)

definition watched_ok :: "url_parser \<Rightarrow> (string \<Rightarrow> ip option) \<Rightarrow> system \<times> admissions \<Rightarrow> bool" where
  "watched_ok parse_url ParseIP c \<longleftrightarrow> (case c of ((w, ps, tr), A) \<Rightarrow>
     bases (db w) \<subseteq> fst ` A \<and> (\<forall>p \<in> set ps. checked p (fst ` A)) \<and>
     (\<forall>q. Sent q \<in> set tr \<longrightarrow> covered (fst ` A) (hq_URL q)) \<and>
     (\<forall>(u, lookupIP) \<in> A. resolves lookupIP \<and> validateCallbackURL parse_url ParseIP lookupIP u = None))"

lemma advance_checked:
  assumes "advance p a w = (p', new, evs, w')" and "checked p U" and "bases (db w) \<subseteq> U" and "question p = None"
  shows "bases (db w') \<subseteq> U \<and> (\<forall>q \<in> insert p' (set new). checked q U) \<and>
    (\<forall>q. Sent q \<in> set evs \<longrightarrow> covered U (hq_URL q))"
proof (cases p)
  case (Act u k)
  then have "checked (k (an_Io a) w) (U \<union> bases (db w))" "bases (db (u (an_Io a) w)) \<subseteq> bases (db w) \<union> U"
    using assms(2) by simp_all
  moreover have "U \<union> bases (db w) = U" using assms(3) by auto
  ultimately show ?thesis using Act assms(1,3) by auto
qed (use assms in auto)

lemma watched_invariant:
  assumes "watched parse_url ParseIP entry c0 c" and "watched_ok parse_url ParseIP c0"
    and "\<And>p U. entry p \<Longrightarrow> checked p U"
  shows "watched_ok parse_url ParseIP c"
  using assms(1)
proof (induction rule: watched.induct)
  case start
  show ?case by (rule assms(2))
next
  case (arrive w ps tr A p)
  then show ?case using assms(3) by (auto simp: watched_ok_def)
next
  case (perform w ps tr A i a p' new evs w')
  have ok: "watched_ok parse_url ParseIP ((w, ps, tr), A)" by (rule perform.IH)
  then have "checked (ps ! i) (fst ` A)" "bases (db w) \<subseteq> fst ` A"
    using perform.hyps(2) by (auto simp: watched_ok_def)
  note step = advance_checked [OF perform.hyps(3) this perform.hyps(4)]
  have "\<forall>q \<in> set (ps[i := p'] @ new). checked q (fst ` A)"
    using ok step set_update_subset_insert [of ps i p'] by (auto simp: watched_ok_def)
  then show ?case using ok step by (auto simp: watched_ok_def)
next
  case (ask w ps tr A i u f lookupIP allowed)
  let ?A = "A \<union> {(u', l). allowed \<and> u' = u \<and> l = lookupIP}"
  have ok: "watched_ok parse_url ParseIP ((w, ps, tr), A)" by (rule ask.IH)
  have more: "fst ` A \<subseteq> fst ` ?A" by auto
  have "checked (ps ! i) (fst ` A)" using ok nth_mem [OF ask.hyps(2)] by (simp add: watched_ok_def)
  then have "checked (AllowURL u f) (fst ` A)" using ask.hyps(3) by simp
  then have "checked (f allowed) (fst ` ?A)"
    by (cases allowed) (auto simp: image_Un elim: checked_mono)
  then have "\<forall>q \<in> set (ps[i := f allowed]). checked q (fst ` ?A)"
    using ok checked_mono [OF _ more] set_update_subset_insert [of ps i "f allowed"] by (fastforce simp: watched_ok_def)
  then show ?case using ok ask.hyps(4,5) covered_mono [OF _ more] more by (auto simp: watched_ok_def)
qed


text \<open>The law of \<^verbatim>\<open>url.Parse\<close>: a path after an address with a host is not part of the host.\<close>

definition keeps_host :: "url_parser \<Rightarrow> bool" where
  "keeps_host parse_url \<longleftrightarrow> (\<forall>base url scheme hostport userinfo x.
     parse_url base = Some (scheme, hostport, userinfo) \<longrightarrow> hostport \<noteq> '''' \<longrightarrow> under base url \<longrightarrow>
     parse_url url = Some x \<longrightarrow> x = (scheme, hostport, userinfo))"

lemma Hostname_Nil [simp]: "Hostname '''' = ''''"
  by code_simp

text \<open>
  C8. Whatever requests arrive and however the handlers and goroutines interleave, every request
  this connector sends goes to an http or https address with a host, and that host stood for no
  address of this host or its own link when the guard admitted it.
\<close>

theorem requests_stay_off_this_host:
  assumes "watched parse_url ParseIP (message c) ((w, [], []), A0) ((w', ps, tr), A)"
    and "bases (db w) \<subseteq> fst ` A0"
    and "\<forall>(u, lookupIP) \<in> A0. resolves lookupIP \<and> validateCallbackURL parse_url ParseIP lookupIP u = None"
    and "resolves (\<lambda>host. map_option (\<lambda>ip. [ip]) (ParseIP host))" and "keeps_host parse_url"
    and "Sent q \<in> set tr" and "parse_url (hq_URL q) = Some (scheme, hostport, userinfo)"
  shows "scheme \<in> {''http'', ''https''} \<and> Hostname hostport \<noteq> '''' \<and>
    (\<exists>(u, lookupIP) \<in> A. under u (hq_URL q) \<and>
       (\<exists>ips. callback_ips ParseIP lookupIP (Hostname hostport) = Some ips \<and>
          (\<forall>ip \<in> set ips. \<not> reaches_this_host ip)))"
proof -
  have "watched_ok parse_url ParseIP ((w', ps, tr), A)"
    using watched_invariant [OF assms(1) _ checked_message] assms(2,3) by (simp add: watched_ok_def)
  then obtain u lookupIP where u: "(u, lookupIP) \<in> A" "under u (hq_URL q)" "resolves lookupIP"
    "validateCallbackURL parse_url ParseIP lookupIP u = None"
    using assms(6) by (force simp: watched_ok_def covered_def)
  have addresses: "length ip \<in> {4, 16}" if "callback_ips ParseIP lookupIP host = Some ips" "ip \<in> set ips" for host ips ip
    using that u(3) assms(4) by (force simp: callback_ips_def resolves_def split: option.splits)
  from u(4) obtain s hp ui ips where base: "parse_url u = Some (s, hp, ui)" "s \<in> {''http'', ''https''}"
    "Hostname hp \<noteq> ''''" "callback_ips ParseIP lookupIP (Hostname hp) = Some ips"
    "\<forall>ip \<in> set ips. \<not> isDisallowedCallbackIP ip"
    by (auto simp: validateCallbackURL_def Let_def find_None_iff split: option.splits if_splits)
  have "hp \<noteq> ''''" using base(3) by auto
  then have same: "scheme = s" "hostport = hp"
    using assms(5) base(1) u(2) assms(7) unfolding keeps_host_def by blast+
  have "\<forall>ip \<in> set ips. \<not> reaches_this_host ip"
    using base(5) addresses [OF base(4)] isDisallowedCallbackIP_blocks by blast
  then show ?thesis
    using base u(1,2) unfolding same by blast
qed


section \<open>A history with a request\<close>

text \<open>One step of a single program, computed.\<close>

lemma watched_single:
  assumes "watched parse_url ParseIP entry c0 ((w, [p], tr), A)" and "question p = None"
  shows "watched parse_url ParseIP entry c0
    ((snd (snd (snd (advance p a w))), fst (advance p a w) # fst (snd (advance p a w)),
      tr @ fst (snd (snd (advance p a w)))), A)"
  using watched.perform [OF assms(1), where i = 0 and a = a and p' = "fst (advance p a w)"
      and new = "fst (snd (advance p a w))" and evs = "fst (snd (snd (advance p a w)))"] assms(2) by simp

lemma watched_admitted:
  assumes "watched parse_url ParseIP entry c0 ((w, [AllowURL u f], tr), A)" and "resolves lookupIP"
    and "validateCallbackURL parse_url ParseIP lookupIP u = None"
  shows "watched parse_url ParseIP entry c0 ((w, [f True], tr), insert (u, lookupIP) A)"
proof -
  have "A \<union> {(u', l). True \<and> u' = u \<and> l = lookupIP} = insert (u, lookupIP) A" by auto
  then show ?thesis
    using watched.ask [OF assms(1), where i = 0 and u = u and f = f and lookupIP = lookupIP and allowed = True] assms(2,3)
    by simp
qed

definition demo_parse_url :: url_parser where
  "demo_parse_url raw = (if raw = ''http://c'' \<or> HasPrefix raw ''http://c/'' then Some (''http'', ''c'', False) else None)"

definition demo_lookupIP :: "string \<Rightarrow> ip list option" where
  "demo_lookupIP host = (if host = ''c'' then Some [[10, 0, 0, 7]] else None)"

lemma demo_admitted:
  "resolves demo_lookupIP" "validateCallbackURL demo_parse_url (\<lambda>h. None) demo_lookupIP ''http://c'' = None"
  "keeps_host demo_parse_url"
proof -
  show "resolves demo_lookupIP" by (simp add: resolves_def demo_lookupIP_def)
  show "validateCallbackURL demo_parse_url (\<lambda>h. None) demo_lookupIP ''http://c'' = None" by code_simp
  show "keeps_host demo_parse_url" by (auto simp: keeps_host_def demo_parse_url_def split: if_splits)
qed

definition demo_lookup_request :: request where
  "demo_lookup_request = demo_request\<lparr>rq_Authorization := ''Bearer secret'', rq_ProviderID := ''c''\<rparr>"

lemma demo_handler_lookup:
  "h_providerAddress (newHandler demo_connector) = Some (AddressFor (cn_roster demo_connector))"
  "\<exists>known. h_knownParticipant (newHandler demo_connector) = Some known \<and> known ''c''"
  "\<exists>check. h_guard (newHandler demo_connector) = Some check \<and> check 0"
  "AuthRequired (h_cfg (newHandler demo_connector))"
  "AddressFor (cn_roster demo_connector) ''c'' = Some ''http://c''"
  by (simp_all add: newHandler_def Let_def demo_connector_def demo_cfg_def AuthRequired_def KeyFor_def AddressFor_def UsableAt_def)


lemma demo_lookup_program:
  "management_router demo_connector ''GET'' [''catalog''] demo_lookup_request =
     handleCatalogLookup (newHandler demo_connector) (demo_lookup_request\<lparr>rq_ID := ''''\<rparr>)"
proof -
  have token: "cutBearerPrefix ''Bearer secret'' = Some ''secret''" by code_simp
  show ?thesis
    by (simp add: management_router_def management_routes_def serve_mux_def method_matches_def token
        authenticated_def demo_lookup_request_def demo_connector_def demo_cfg_def)
qed

lemma demo_lookup_asks:
  "\<exists>F G. fst (advance (handleCatalogLookup (newHandler demo_connector) (demo_lookup_request\<lparr>rq_ID := ''''\<rparr>)) demo_answer w) =
     AllowURL ''http://c'' F \<and> F True = fetchCatalog (newHandler demo_connector) ''http://c'' ''c'' G"
  using demo_handler_lookup
  by (auto simp: handleCatalogLookup_def usable_def requireKnown_def demo_answer_def
      demo_lookup_request_def)

lemma demo_lookup_sends:
  "\<exists>q F. fst (advance (fst (advance (fetchCatalog (newHandler demo_connector) ''http://c'' ''c'' G) demo_answer w)) demo_answer w) =
     Http q F \<and> hq_URL q = ''http://c/catalog/request''"
  using demo_handler_lookup
  by (auto simp: fetchCatalog_def mintOutboundCredential_def usable_def demo_answer_def
      consumerCatalogPath_def split: option.splits)

lemma demo_lookup_silent:
  "question (handleCatalogLookup (newHandler demo_connector) r) = None"
  "snd (advance (handleCatalogLookup (newHandler demo_connector) r) a w) = ([], [], w)"
  "question (fetchCatalog (newHandler demo_connector) base aud G) = None"
  "snd (advance (fetchCatalog (newHandler demo_connector) base aud G) a w) = ([], [], w)"
  "an_Now a = 0 \<Longrightarrow> question (fst (advance (fetchCatalog (newHandler demo_connector) base ''c'' G) a w)) = None"
  "an_Now a = 0 \<Longrightarrow> snd (advance (fst (advance (fetchCatalog (newHandler demo_connector) base ''c'' G) a w)) a w) = ([], [], w)"
  using demo_handler_lookup
  by (auto simp: handleCatalogLookup_def fetchCatalog_def mintOutboundCredential_def usable_def)

lemma demo_watched:
  "\<exists>w' ps q. watched demo_parse_url (\<lambda>h. None) (message demo_connector)
     ((demo_world, [], []), {(''http://c'', demo_lookupIP)})
     ((w', ps, [Sent q]), {(''http://c'', demo_lookupIP)}) \<and> hq_URL q = ''http://c/catalog/request''"
proof -
  let ?w = "watched demo_parse_url (\<lambda>h. None) (message demo_connector) ((demo_world, [], []), {(''http://c'', demo_lookupIP)})"
  let ?A = "{(''http://c'', demo_lookupIP)}"
  let ?p = "handleCatalogLookup (newHandler demo_connector) (demo_lookup_request\<lparr>rq_ID := ''''\<rparr>)"
  have "message demo_connector ?p" unfolding demo_lookup_program [symmetric] message_def by blast
  moreover have "?w ((demo_world, [], []), ?A)" by (rule watched.start)
  ultimately have "?w ((demo_world, [?p], []), ?A)" using watched.arrive by fastforce
  note asked = watched_single [OF this demo_lookup_silent(1), of demo_answer, unfolded demo_lookup_silent(2)]
  obtain F G where F: "fst (advance ?p demo_answer demo_world) = AllowURL ''http://c'' F"
    "F True = fetchCatalog (newHandler demo_connector) ''http://c'' ''c'' G"
    using demo_lookup_asks by blast
  have "?w ((demo_world, [fetchCatalog (newHandler demo_connector) ''http://c'' ''c'' G], []), ?A)"
    using watched_admitted [OF asked [unfolded F(1), simplified] demo_admitted(1,2)] F(2) by simp
  note minted = watched_single [OF this demo_lookup_silent(3), of demo_answer, unfolded demo_lookup_silent(4), simplified]
  have now: "an_Now demo_answer = 0" by (simp add: demo_answer_def)
  note signed = watched_single [OF minted demo_lookup_silent(5) [OF now], of demo_answer,
      unfolded demo_lookup_silent(6) [OF now], simplified]
  obtain q k where q: "fst (advance (fst (advance (fetchCatalog (newHandler demo_connector) ''http://c'' ''c'' G)
      demo_answer demo_world)) demo_answer demo_world) = Http q k" "hq_URL q = ''http://c/catalog/request''"
    using demo_lookup_sends by blast
  from watched_single [OF signed [unfolded q(1)], of demo_answer] show ?thesis using q(2) by auto
qed

theorem requests_stay_off_this_host_witness:
  "\<exists>q :: HttpRequest. hq_URL q = ''http://c/catalog/request'' \<and>
    (\<exists>(u, lookupIP) \<in> {(''http://c'', demo_lookupIP)}. under u (hq_URL q) \<and>
       (\<exists>ips. callback_ips (\<lambda>h. None) lookupIP ''c'' = Some ips \<and> (\<forall>ip \<in> set ips. \<not> reaches_this_host ip)))"
proof -
  obtain w' ps q where q: "watched demo_parse_url (\<lambda>h. None) (message demo_connector)
     ((demo_world, [], []), {(''http://c'', demo_lookupIP)})
     ((w', ps, [Sent q]), {(''http://c'', demo_lookupIP)})" "hq_URL q = ''http://c/catalog/request''"
    using demo_watched by blast
  have "bases (db demo_world) \<subseteq> fst ` {(''http://c'', demo_lookupIP)}"
    by (simp add: bases_def demo_world_def demo_store_def demo_verified_def empty_store_def)
  moreover have "demo_parse_url (hq_URL q) = Some (''http'', ''c'', False)" unfolding q(2) by code_simp
  moreover have "Hostname ''c'' = ''c''" by code_simp
  ultimately show ?thesis
    using requests_stay_off_this_host [OF q(1), of q "''http''" "''c''" False] demo_admitted q(2)
    by (intro exI [of _ q]) (simp add: resolves_def)
qed

end
