(* ===== verification/MdScript.thy ===== *)
theory MdScript
  imports GoStrings
begin

text \<open>
  The script extracted from a document (\<^verbatim>\<open>cmd/mdscript/main.go\<close>): the scan of \<^verbatim>\<open>extract\<close>
  with its state, and the readers of fences and info strings.  The lines are those of
  \<^verbatim>\<open>bufio.Scanner\<close>, whose failure is a flag.  The theory proves that the scan is the document's
  blocks, each rendered, and that the here-document of a file block ends where the block does: it
  reads back the lines of the document.
\<close>

definition heredocDelimiter :: string where "heredocDelimiter = ''EOF''"

definition newline :: string where "newline = [CHR 0x0A]"

datatype blockMode = skip | verbatim | literalFile | expandedFile

record shape =
  commands :: nat
  files_written :: nat
  expansions :: nat

section \<open>Fences\<close>

definition openFence :: "string \<Rightarrow> (string \<times> string) option" where
  "openFence text =
     (let t = TrimLeft text '' '';
          run = takeWhile (\<lambda>c. c = CHR 0x60) t
      in if length run < 3 then None else Some (run, TrimSpace (drop (length run) t)))"

definition closesFence :: "string \<Rightarrow> string \<Rightarrow> bool" where
  "closesFence text fence =
     (let t = TrimSpace text in t \<noteq> '''' \<and> length fence \<le> length t \<and> Trim t [CHR 0x60] = '''')"

text \<open>The switch over the fields of an info string, with the index of each.\<close>

definition info_field :: "nat \<times> string \<Rightarrow> string \<times> string \<times> bool \<Rightarrow> string \<times> string \<times> bool" where
  "info_field fi acc = (case fi of (i, f) \<Rightarrow> case acc of (lang, title, expand) \<Rightarrow>
     if f = ''expand'' then (lang, title, True)
     else if HasPrefix f ''title='' then (lang, drop 6 f, expand)
     else if i = 0 then (f, title, expand)
     else acc)"

definition parseInfo :: "string \<Rightarrow> string \<times> string \<times> bool" where
  "parseInfo info = fold info_field (enumerate 0 (Fields info)) ('''', '''', False)"

section \<open>The scan\<close>

datatype extract_error = DelimiterLine nat | BackslashLine nat | ScanFailed | Unterminated

record scan =
  sc_out :: string
  sc_shape :: shape
  sc_block :: blockMode
  sc_fence :: string
  sc_inBlock :: bool

definition block_mode :: "string \<times> string \<times> bool \<Rightarrow> blockMode" where
  "block_mode info = (case info of (lang, title, expand) \<Rightarrow>
     if title \<noteq> '''' \<and> expand then expandedFile
     else if title \<noteq> '''' then literalFile
     else if lang = ''sh'' then verbatim
     else skip)"

definition count_block :: "blockMode \<Rightarrow> shape \<Rightarrow> shape" where
  "count_block m sh = (case m of
     expandedFile \<Rightarrow> sh\<lparr>files_written := files_written sh + 1, expansions := expansions sh + 1\<rparr>
   | literalFile \<Rightarrow> sh\<lparr>files_written := files_written sh + 1\<rparr>
   | verbatim \<Rightarrow> sh\<lparr>commands := commands sh + 1\<rparr>
   | skip \<Rightarrow> sh)"

definition opening_text :: "blockMode \<Rightarrow> string \<Rightarrow> string" where
  "opening_text m title = (case m of
     expandedFile \<Rightarrow> ''cat > '' @ title @ '' <<'' @ heredocDelimiter @ newline
   | literalFile \<Rightarrow> ''cat > '' @ title @ '' <<'' @ [CHR 0x27] @ heredocDelimiter @ [CHR 0x27] @ newline
   | verbatim \<Rightarrow> ''''
   | skip \<Rightarrow> '''')"

definition closing_text :: "blockMode \<Rightarrow> string" where
  "closing_text m = (if m = literalFile \<or> m = expandedFile then heredocDelimiter @ newline else '''')"

text \<open>One line of the document, the \<open>k\<close>-th.\<close>

definition scan_line :: "nat \<Rightarrow> string \<Rightarrow> scan \<Rightarrow> extract_error + scan" where
  "scan_line k text s =
     (if \<not> sc_inBlock s then
        (case openFence text of
           None \<Rightarrow> Inr s
         | Some (f, info) \<Rightarrow>
             (let m = block_mode (parseInfo info)
              in Inr (s\<lparr>sc_inBlock := True, sc_fence := f, sc_block := m,
                   sc_shape := count_block m (sc_shape s),
                   sc_out := sc_out s @ opening_text m (fst (snd (parseInfo info)))\<rparr>)))
      else if closesFence text (sc_fence s) then
        Inr (s\<lparr>sc_inBlock := False, sc_block := skip, sc_out := sc_out s @ closing_text (sc_block s)\<rparr>)
      else if sc_block s = literalFile \<or> sc_block s = expandedFile then
        (if TrimRight text [CHR '' '', CHR 0x09] = heredocDelimiter then Inl (DelimiterLine k)
         else if sc_block s = expandedFile \<and> HasSuffix text [CHR 0x5C] then Inl (BackslashLine k)
         else Inr (s\<lparr>sc_out := sc_out s @ text @ newline\<rparr>))
      else if sc_block s = verbatim then Inr (s\<lparr>sc_out := sc_out s @ text @ newline\<rparr>)
      else Inr s)"

primrec scan_lines :: "nat \<Rightarrow> string list \<Rightarrow> scan \<Rightarrow> extract_error + scan" where
  "scan_lines k [] s = Inr s"
| "scan_lines k (l # ls) s = (case scan_line k l s of
     Inl e \<Rightarrow> Inl e | Inr s' \<Rightarrow> scan_lines (Suc k) ls s')"

definition script_header :: "string \<Rightarrow> string" where
  "script_header name = ''# Generated by cmd/mdscript from '' @ name @ ''. Do not edit.'' @ newline"

definition start_scan :: "string \<Rightarrow> scan" where
  "start_scan name = \<lparr>sc_out = script_header name, sc_shape = \<lparr>commands = 0, files_written = 0, expansions = 0\<rparr>,
     sc_block = skip, sc_fence = '''', sc_inBlock = False\<rparr>"

definition extract_doc :: "string \<Rightarrow> string list \<Rightarrow> bool \<Rightarrow> extract_error + string \<times> shape" where
  "extract_doc name doc scan_failed = (case scan_lines 1 doc (start_scan name) of
     Inl e \<Rightarrow> Inl e
   | Inr s \<Rightarrow>
       if scan_failed then Inl ScanFailed
       else if sc_inBlock s then Inl Unterminated
       else Inr (sc_out s, sc_shape s))"

text \<open>
  The command: a document is what the scanner reads of its file, and the write of the script may
  fail before the file is truncated or after some of it is written.
\<close>

datatype write_outcome = Written | NotOpened | WrittenUpTo nat

datatype mdscript_error = MdUsage | NotRead string | NotExtracted extract_error | ScriptNotWritten string

definition mdscript_run ::
  "(string \<Rightarrow> (string list \<times> bool) option) \<Rightarrow> write_outcome \<Rightarrow> string list \<Rightarrow> (string \<Rightarrow> string option) \<Rightarrow>
   (mdscript_error + shape) \<times> (string \<Rightarrow> string option)" where
  "mdscript_run document write args fs =
     (if length args \<noteq> 2 then (Inl MdUsage, fs)
      else (case document (args ! 0) of
        None \<Rightarrow> (Inl (NotRead (args ! 0)), fs)
      | Some (doc, scan_failed) \<Rightarrow> (case extract_doc (args ! 0) doc scan_failed of
          Inl e \<Rightarrow> (Inl (NotExtracted e), fs)
        | Inr (script, sh) \<Rightarrow> (case write of
            Written \<Rightarrow> (Inr sh, fs(args ! 1 \<mapsto> script))
          | NotOpened \<Rightarrow> (Inl (ScriptNotWritten (args ! 1)), fs)
          | WrittenUpTo n \<Rightarrow> (Inl (ScriptNotWritten (args ! 1)), fs(args ! 1 \<mapsto> take n script))))))"

text \<open>A document that is refused leaves the script of an earlier run as it was.\<close>

lemma refused_document_writes_nothing:
  "mdscript_run document write args fs = (Inl (NotExtracted e), fs') \<Longrightarrow> fs' = fs"
  by (auto simp: mdscript_run_def split: if_splits option.splits sum.splits prod.splits write_outcome.splits)

lemma mdscript_run_succeeds:
  "mdscript_run document write [source, target] fs = (Inr sh, fs') \<longleftrightarrow> write = Written \<and>
    (\<exists>doc failed script. document source = Some (doc, failed) \<and> extract_doc source doc failed = Inr (script, sh) \<and>
      fs' = fs(target \<mapsto> script))"
  by (auto simp: mdscript_run_def split: option.splits sum.splits prod.splits write_outcome.splits)

section \<open>The blocks of a document\<close>

text \<open>
  A document without the scan's state: outside a block, the next opening fence; from there, the
  lines up to the first that closes it.
\<close>

record md_block =
  mb_info :: "string \<times> string \<times> bool"
  mb_body :: "string list"

function md_blocks :: "string list \<Rightarrow> md_block list option" where
  "md_blocks doc = (case doc of
     [] \<Rightarrow> Some []
   | l # ls \<Rightarrow> (case openFence l of
       None \<Rightarrow> md_blocks ls
     | Some (f, info) \<Rightarrow> (case dropWhile (\<lambda>x. \<not> closesFence x f) ls of
         [] \<Rightarrow> None
       | close # rest \<Rightarrow>
           map_option (Cons \<lparr>mb_info = parseInfo info, mb_body = takeWhile (\<lambda>x. \<not> closesFence x f) ls\<rparr>)
             (md_blocks rest))))"
  by pat_completeness auto
termination
proof (relation "measure length", simp, simp)
  fix doc l ls x f info close rest
  assume "doc = l # ls" "dropWhile (\<lambda>x. \<not> closesFence x f) ls = close # rest"
  then show "(rest, doc) \<in> measure length"
    using length_dropWhile_le [of "\<lambda>x. \<not> closesFence x f" ls] by simp
qed

declare md_blocks.simps [simp del]

definition mode :: "md_block \<Rightarrow> blockMode" where "mode b = block_mode (mb_info b)"

definition is_file :: "md_block \<Rightarrow> bool" where
  "is_file b \<longleftrightarrow> mode b = literalFile \<or> mode b = expandedFile"

text \<open>A body a heredoc can carry.\<close>

definition line_ok :: "blockMode \<Rightarrow> string \<Rightarrow> bool" where
  "line_ok m l \<longleftrightarrow> (m = literalFile \<or> m = expandedFile \<longrightarrow> TrimRight l [CHR '' '', CHR 0x09] \<noteq> heredocDelimiter) \<and>
     (m = expandedFile \<longrightarrow> \<not> HasSuffix l [CHR 0x5C])"

definition block_ok :: "md_block \<Rightarrow> bool" where
  "block_ok b \<longleftrightarrow> (\<forall>l \<in> set (mb_body b). line_ok (mode b) l)"

definition text_lines :: "string list \<Rightarrow> string" where
  "text_lines ls = concat (map (\<lambda>l. l @ newline) ls)"

definition render :: "md_block \<Rightarrow> string" where
  "render b = (if mode b = skip then '''' else
     opening_text (mode b) (fst (snd (mb_info b))) @ text_lines (mb_body b) @ closing_text (mode b))"

section \<open>The scan is the document's blocks, rendered\<close>

lemma scan_body:
  assumes "sc_inBlock s" and "\<forall>l \<in> set body. \<not> closesFence l (sc_fence s)"
    and "\<forall>l \<in> set body. line_ok (sc_block s) l"
  shows "scan_lines k (body @ ls) s = scan_lines (k + length body) ls
    (s\<lparr>sc_out := sc_out s @ (if sc_block s = skip then '''' else text_lines body)\<rparr>)"
  using assms
proof (induction body arbitrary: k s)
  case (Cons l body)
  then have "scan_line k l s = Inr (s\<lparr>sc_out := sc_out s @ (if sc_block s = skip then '''' else l @ newline)\<rparr>)"
    by (cases "sc_block s") (auto simp: scan_line_def line_ok_def)
  then show ?case
    using Cons.IH [of "s\<lparr>sc_out := sc_out s @ (if sc_block s = skip then '''' else l @ newline)\<rparr>" "Suc k"] Cons.prems
    by (auto simp: text_lines_def)
qed (simp add: text_lines_def)

lemma scan_body_refused:
  assumes "sc_inBlock s" and "\<forall>l \<in> set body. \<not> closesFence l (sc_fence s)"
    and "\<not> (\<forall>l \<in> set body. line_ok (sc_block s) l)"
  shows "\<exists>e. scan_lines k (body @ ls) s = Inl e"
  using assms
proof (induction body arbitrary: k s)
  case (Cons l body)
  show ?case
  proof (cases "line_ok (sc_block s) l")
    case True
    with Cons.prems have "scan_line k l s = Inr (s\<lparr>sc_out := sc_out s @ (if sc_block s = skip then '''' else l @ newline)\<rparr>)"
      by (cases "sc_block s") (auto simp: scan_line_def line_ok_def)
    then show ?thesis
      using Cons.IH [of "s\<lparr>sc_out := sc_out s @ (if sc_block s = skip then '''' else l @ newline)\<rparr>" "Suc k"] Cons.prems True
      by auto
  next
    case False
    with Cons.prems show ?thesis by (auto simp: scan_line_def line_ok_def)
  qed
qed simp

text \<open>The state an opening fence leaves, and what the block it opens does to the scan.\<close>

definition opened :: "string \<Rightarrow> string \<times> string \<times> bool \<Rightarrow> scan \<Rightarrow> scan" where
  "opened f info s = s\<lparr>sc_inBlock := True, sc_fence := f, sc_block := block_mode info,
     sc_shape := count_block (block_mode info) (sc_shape s),
     sc_out := sc_out s @ opening_text (block_mode info) (fst (snd info))\<rparr>"

lemma scan_opening:
  "\<not> sc_inBlock s \<Longrightarrow> openFence l = Some (f, info) \<Longrightarrow>
   scan_lines k (l # ls) s = scan_lines (Suc k) ls (opened f (parseInfo info) s)"
  by (simp add: scan_line_def opened_def Let_def)

lemma scan_closing:
  assumes "sc_inBlock s" and "closesFence l (sc_fence s)"
  shows "scan_lines k (l # ls) s = scan_lines (Suc k) ls
    (s\<lparr>sc_inBlock := False, sc_block := skip, sc_out := sc_out s @ closing_text (sc_block s)\<rparr>)"
  using assms by (simp add: scan_line_def)

lemma scan_block:
  fixes f info s
  defines "b body \<equiv> \<lparr>mb_info = parseInfo info, mb_body = body\<rparr>"
  assumes "\<forall>l \<in> set body. \<not> closesFence l f" and "closesFence close f" and "block_ok (b body)"
  shows "scan_lines k (body @ close # rest) (opened f (parseInfo info) s) =
    scan_lines (Suc (k + length body)) rest (s\<lparr>sc_inBlock := False, sc_fence := f, sc_block := skip,
      sc_shape := count_block (mode (b body)) (sc_shape s), sc_out := sc_out s @ render (b body)\<rparr>)"
  using assms
  by (cases s, subst scan_body)
    (auto simp: opened_def scan_closing block_ok_def mode_def render_def opening_text_def closing_text_def
      simp del: scan_lines.simps split: blockMode.split)

lemma scan_lines_blocks:
  assumes "\<not> sc_inBlock s" and "md_blocks doc = Some bs" and "\<forall>b \<in> set bs. block_ok b"
  shows "\<exists>s'. scan_lines k doc s = Inr s' \<and> \<not> sc_inBlock s' \<and>
    sc_out s' = sc_out s @ concat (map render bs) \<and>
    sc_shape s' = fold (\<lambda>b. count_block (mode b)) bs (sc_shape s)"
  using assms
proof (induction doc arbitrary: k s bs rule: md_blocks.induct)
  case (1 doc)
  show ?case
  proof (cases doc)
    case Nil
    then show ?thesis using "1.prems" by (simp add: md_blocks.simps [of "[]"])
  next
    case (Cons l ls)
    show ?thesis
    proof (cases "openFence l")
      case None
      then show ?thesis
        using "1.IH"(1) [OF Cons None "1.prems"(1)] "1.prems" Cons
        by (simp add: md_blocks.simps [of "l # ls"] scan_line_def)
    next
      case (Some fi)
      obtain f info where fi: "fi = (f, info)" by (cases fi)
      let ?body = "takeWhile (\<lambda>x. \<not> closesFence x f) ls"
      obtain close rest bs' where rest: "dropWhile (\<lambda>x. \<not> closesFence x f) ls = close # rest"
        "md_blocks rest = Some bs'" "bs = \<lparr>mb_info = parseInfo info, mb_body = ?body\<rparr> # bs'"
        using "1.prems"(2) Cons Some fi by (auto simp: md_blocks.simps [of "l # ls"] split: list.splits)
      have ls: "ls = ?body @ close # rest" using rest(1) takeWhile_dropWhile_id by metis
      have close: "closesFence close f" using rest(1) by (auto simp: dropWhile_eq_Cons_conv)
      have body: "\<forall>x \<in> set ?body. \<not> closesFence x f" by (auto dest: set_takeWhileD)
      have "scan_lines k doc s = scan_lines (Suc (Suc k + length ?body)) rest
          (s\<lparr>sc_inBlock := False, sc_fence := f, sc_block := skip,
            sc_shape := count_block (mode (hd bs)) (sc_shape s), sc_out := sc_out s @ render (hd bs)\<rparr>)"
        using scan_block [OF body close, of info "Suc k" rest s] scan_opening [OF "1.prems"(1), of l f info k ls]
          ls Some fi Cons rest(3) "1.prems"(3) by simp
      then show ?thesis
        using "1.IH"(2) [OF Cons Some _ rest(1), of info "s\<lparr>sc_inBlock := False, sc_fence := f, sc_block := skip,
            sc_shape := count_block (mode (hd bs)) (sc_shape s), sc_out := sc_out s @ render (hd bs)\<rparr>"
            bs' "Suc (Suc k + length ?body)"] rest(2,3) "1.prems"(3) fi
        by simp
    qed
  qed
qed

lemma scan_lines_only:
  assumes "scan_lines k doc s = Inr s'" and "\<not> sc_inBlock s" and "\<not> sc_inBlock s'"
  shows "\<exists>bs. md_blocks doc = Some bs \<and> (\<forall>b \<in> set bs. block_ok b)"
  using assms
proof (induction doc arbitrary: k s rule: md_blocks.induct)
  case (1 doc)
  show ?case
  proof (cases doc)
    case Nil
    then show ?thesis by (simp add: md_blocks.simps [of "[]"])
  next
    case (Cons l ls)
    show ?thesis
    proof (cases "openFence l")
      case None
      then show ?thesis
        using "1.IH"(1) [OF Cons None] "1.prems" Cons
        by (auto simp: md_blocks.simps [of "l # ls"] scan_line_def)
    next
      case (Some fi)
      obtain f info where fi: "fi = (f, info)" by (cases fi)
      let ?body = "takeWhile (\<lambda>x. \<not> closesFence x f) ls"
      let ?tail = "dropWhile (\<lambda>x. \<not> closesFence x f) ls"
      let ?b = "\<lparr>mb_info = parseInfo info, mb_body = ?body\<rparr>"
      let ?s = "opened f (parseInfo info) s"
      have body: "\<forall>x \<in> set ?body. \<not> closesFence x f" by (auto dest: set_takeWhileD)
      have run: "scan_lines (Suc k) (?body @ ?tail) ?s = Inr s'"
        using scan_opening [OF "1.prems"(2), of l f info k ls] "1.prems"(1) Cons Some fi by simp
      have ok: "block_ok ?b"
        using scan_body_refused [of ?s ?body "Suc k" ?tail] run body
        by (auto simp: block_ok_def mode_def opened_def)
      show ?thesis
      proof (cases ?tail)
        case Nil
        then have all: "?body = ls" by (metis append_Nil2 takeWhile_dropWhile_id)
        have "sc_inBlock s'"
          using run scan_body [of ?s ls "Suc k" "[]"] body ok unfolding Nil all
          by (auto simp: block_ok_def mode_def opened_def)
        then show ?thesis using "1.prems"(3) by simp
      next
        case tail: (Cons close rest)
        have "closesFence close f" using tail by (auto simp: dropWhile_eq_Cons_conv)
        from scan_block [OF body this ok, of "Suc k" rest s] run tail
        have "\<exists>bs. md_blocks rest = Some bs \<and> (\<forall>b \<in> set bs. block_ok b)"
          by (intro "1.IH"(2) [OF Cons Some fi [symmetric] tail, rotated]) (auto simp: "1.prems"(3))
        then show ?thesis
          using ok Cons Some fi tail by (auto simp: md_blocks.simps [of "l # ls"])
      qed
    qed
  qed
qed

text \<open>What a shell reads of a file block: the lines up to the delimiter alone on its line.\<close>

definition here_document :: "string list \<Rightarrow> string list" where
  "here_document ls = takeWhile (\<lambda>l. l \<noteq> heredocDelimiter) ls"

lemma TrimRight_delimiter: "TrimRight heredocDelimiter [CHR '' '', CHR 0x09] = heredocDelimiter"
  by (simp add: TrimRight_def TrimLeft_def heredocDelimiter_def)

lemma here_document_body:
  assumes "block_ok b" and "is_file b"
  shows "here_document (mb_body b @ heredocDelimiter # rest) = mb_body b"
proof -
  have "\<forall>l \<in> set (mb_body b). l \<noteq> heredocDelimiter"
    using assms TrimRight_delimiter by (auto simp: block_ok_def line_ok_def is_file_def)
  then show ?thesis by (simp add: here_document_def)
qed

text \<open>
  C39. A document is extracted exactly when its fences are closed and none of its file blocks
  contains a line that would end or escape its here-document; the script is then the header and
  the blocks in their order, each rendered, and a shell that reads it finds exactly the lines of
  the block as the here-document of every file.
\<close>

theorem scripts_are_the_blocks_of_the_document:
  "extract_doc name doc failed = Inr (script, sh) \<longleftrightarrow> \<not> failed \<and>
    (\<exists>bs. md_blocks doc = Some bs \<and> (\<forall>b \<in> set bs. block_ok b) \<and>
      script = script_header name @ concat (map render bs) \<and>
      sh = fold (\<lambda>b. count_block (mode b)) bs \<lparr>commands = 0, files_written = 0, expansions = 0\<rparr> \<and>
      (\<forall>b \<in> set bs. is_file b \<longrightarrow>
         (\<forall>rest. here_document (mb_body b @ heredocDelimiter # rest) = mb_body b)))"
proof
  assume run: "extract_doc name doc failed = Inr (script, sh)"
  then obtain s where s: "scan_lines 1 doc (start_scan name) = Inr s" "\<not> sc_inBlock s" "\<not> failed"
    "script = sc_out s" "sh = sc_shape s"
    by (auto simp: extract_doc_def split: sum.splits if_splits)
  moreover have start: "\<not> sc_inBlock (start_scan name)" by (simp add: start_scan_def)
  ultimately obtain bs where bs: "md_blocks doc = Some bs" "\<forall>b \<in> set bs. block_ok b"
    using scan_lines_only by blast
  show "\<not> failed \<and> (\<exists>bs. md_blocks doc = Some bs \<and> (\<forall>b \<in> set bs. block_ok b) \<and>
      script = script_header name @ concat (map render bs) \<and>
      sh = fold (\<lambda>b. count_block (mode b)) bs \<lparr>commands = 0, files_written = 0, expansions = 0\<rparr> \<and>
      (\<forall>b \<in> set bs. is_file b \<longrightarrow>
         (\<forall>rest. here_document (mb_body b @ heredocDelimiter # rest) = mb_body b)))"
    using scan_lines_blocks [OF start bs, of 1] s bs here_document_body by (auto simp: start_scan_def)
next
  assume "\<not> failed \<and> (\<exists>bs. md_blocks doc = Some bs \<and> (\<forall>b \<in> set bs. block_ok b) \<and>
      script = script_header name @ concat (map render bs) \<and>
      sh = fold (\<lambda>b. count_block (mode b)) bs \<lparr>commands = 0, files_written = 0, expansions = 0\<rparr> \<and>
      (\<forall>b \<in> set bs. is_file b \<longrightarrow>
         (\<forall>rest. here_document (mb_body b @ heredocDelimiter # rest) = mb_body b)))"
  then obtain bs where bs: "md_blocks doc = Some bs" "\<forall>b \<in> set bs. block_ok b" "\<not> failed"
    "script = script_header name @ concat (map render bs)"
    "sh = fold (\<lambda>b. count_block (mode b)) bs \<lparr>commands = 0, files_written = 0, expansions = 0\<rparr>"
    by blast
  have "\<not> sc_inBlock (start_scan name)" by (simp add: start_scan_def)
  from scan_lines_blocks [OF this bs(1,2), of 1] bs(3-)
  show "extract_doc name doc failed = Inr (script, sh)"
    by (auto simp: extract_doc_def start_scan_def)
qed

text \<open>A document with a command block and a file that carries a backtick and a dollar.\<close>

definition example_doc :: "string list" where
  "example_doc = [''text'', [CHR 0x60, CHR 0x60, CHR 0x60] @ ''sh'', ''make'', [CHR 0x60, CHR 0x60, CHR 0x60],
     [CHR 0x60, CHR 0x60, CHR 0x60] @ ''yaml title=c.yaml'', ''a: $$'' @ [CHR 0x60], [CHR 0x60, CHR 0x60, CHR 0x60]]"

theorem scripts_are_the_blocks_of_the_document_witness:
  "\<exists>sh. extract_doc ''d.md'' example_doc False = Inr (script_header ''d.md'' @ text_lines
     [''make'', ''cat > c.yaml <<'' @ [CHR 0x27] @ ''EOF'' @ [CHR 0x27], ''a: $$'' @ [CHR 0x60], ''EOF''], sh) \<and>
   commands sh = 1 \<and> files_written sh = 1 \<and> expansions sh = 0"
proof -
  let ?bs = "[\<lparr>mb_info = (''sh'', '''', False), mb_body = [''make'']\<rparr>,
    \<lparr>mb_info = (''yaml'', ''c.yaml'', False), mb_body = [''a: $$'' @ [CHR 0x60]]\<rparr>]"
  have bs: "md_blocks example_doc = Some ?bs" "\<forall>b \<in> set ?bs. block_ok b"
    "concat (map render ?bs) = text_lines
     [''make'', ''cat > c.yaml <<'' @ [CHR 0x27] @ ''EOF'' @ [CHR 0x27], ''a: $$'' @ [CHR 0x60], ''EOF'']"
    by code_simp+
  have "\<forall>b \<in> set ?bs. is_file b \<longrightarrow> (\<forall>rest. here_document (mb_body b @ heredocDelimiter # rest) = mb_body b)"
    using here_document_body bs(2) by blast
  then have "extract_doc ''d.md'' example_doc False = Inr (script_header ''d.md'' @ concat (map render ?bs),
      fold (\<lambda>b. count_block (mode b)) ?bs \<lparr>commands = 0, files_written = 0, expansions = 0\<rparr>)"
    unfolding scripts_are_the_blocks_of_the_document using bs(1,2) by blast
  then show ?thesis unfolding bs(3) by (simp add: count_block_def mode_def block_mode_def)
qed

end
