(* ===== verification/TckGate.thy ===== *)
theory TckGate
  imports GoStrings Json "HOL-Library.List_Lexorder" "HOL-Library.Char_ord"
begin

text \<open>
  The verdict over a run of the compatibility kit (\<^verbatim>\<open>cmd/tckgate/main.go\<close>).  The two regular
  expressions are matchers over the bytes of a line; a Go map is the list of its entries in the
  order an iteration happens to take.  The theory proves that the gate opens exactly for a complete
  run with the expected number of results of every suite and none of them against its expectation,
  whatever the order of the maps.
\<close>

section \<open>The lines of a run\<close>

definition is_space :: "char \<Rightarrow> bool" where
  "is_space c \<longleftrightarrow> c \<in> {CHR 0x09, CHR 0x0A, CHR 0x0C, CHR 0x0D, CHR '' ''}"

definition is_upper :: "char \<Rightarrow> bool" where
  "is_upper c \<longleftrightarrow> c \<in> set ''ABCDEFGHIJKLMNOPQRSTUVWXYZ_''"

definition is_digit :: "char \<Rightarrow> bool" where
  "is_digit c \<longleftrightarrow> c \<in> set ''0123456789''"

text \<open>The word characters of \<^verbatim>\<open>\b\<close>.\<close>

definition is_word :: "char \<Rightarrow> bool" where
  "is_word c \<longleftrightarrow> is_upper c \<or> is_digit c \<or> c \<in> set ''abcdefghijklmnopqrstuvwxyz''"

text \<open>
  \<^verbatim>\<open>resultLine\<close> at one position: an outcome, a colon, space, a suite, a colon, digits and
  dashes.  No part can end in more than one place.
\<close>

definition match_id :: "string \<Rightarrow> string option" where
  "match_id s =
     (let suite = takeWhile is_upper s; rest = dropWhile is_upper s
      in case rest of
           [] \<Rightarrow> None
         | c # cs \<Rightarrow>
             (let number = takeWhile (\<lambda>d. is_digit d \<or> d = CHR ''-'') cs
              in if suite = '''' \<or> c \<noteq> CHR '':'' \<or> number = '''' then None
                 else Some (suite @ '':'' @ number)))"

definition match_outcome :: "string \<Rightarrow> string \<Rightarrow> (string \<times> string) option" where
  "match_outcome outcome s =
     (if HasPrefix s (outcome @ '':'') then
        map_option (Pair outcome) (match_id (dropWhile is_space (drop (length outcome + 1) s)))
      else None)"

definition match_result :: "string \<Rightarrow> (string \<times> string) option" where
  "match_result s = (case match_outcome ''SUCCESSFUL'' s of
     Some m \<Rightarrow> Some m | None \<Rightarrow> match_outcome ''FAILED'' s)"

text \<open>The leftmost match, at a word boundary.\<close>

primrec find_result :: "bool \<Rightarrow> string \<Rightarrow> (string \<times> string) option" where
  "find_result after_word [] = None"
| "find_result after_word (c # cs) =
     (case (if after_word then None else match_result (c # cs)) of
        Some m \<Rightarrow> Some m | None \<Rightarrow> find_result (is_word c) cs)"

definition resultLine :: "string \<Rightarrow> (string \<times> string) option" where
  "resultLine line = find_result False line"

definition completionMarker :: string where "completionMarker = ''test run complete''"

text \<open>\<^verbatim>\<open>completionTimestampPrefix\<close> replaced by nothing.\<close>

definition strip_timestamp :: "string \<Rightarrow> string" where
  "strip_timestamp line =
     (if line \<noteq> '''' \<and> hd line = CHR ''['' then
        (case split_first (CHR '']'') (tl line) of
           None \<Rightarrow> line | Some (before, after) \<Rightarrow> dropWhile is_space after)
      else line)"

definition output_lines :: "string \<Rightarrow> string list" where
  "output_lines output = split_on (CHR 0x0A) output"

definition hasCompletionMarker :: "string \<Rightarrow> bool" where
  "hasCompletionMarker output =
     (\<exists>line \<in> set (output_lines output).
        map ascii_lower (TrimSpace (strip_timestamp line)) = completionMarker)"

section \<open>The report\<close>

record Report =
  Expected :: "(string \<times> int) list"
  Seen :: "(string \<times> int) list"
  Failed :: "string list"
  Exempted :: "string list"
  UnexpectedPasses :: "string list"
  Skipped :: int

definition seen :: "(string \<times> int) list \<Rightarrow> string \<Rightarrow> int" where
  "seen counts suite = (case map_of counts suite of None \<Rightarrow> 0 | Some n \<Rightarrow> n)"

primrec count_suite :: "string \<Rightarrow> (string \<times> int) list \<Rightarrow> (string \<times> int) list" where
  "count_suite suite [] = [(suite, 1)]"
| "count_suite suite (c # cs) =
     (if fst c = suite then (suite, snd c + 1) # cs else c # count_suite suite cs)"

definition shortfalls :: "Report \<Rightarrow> string list" where
  "shortfalls r = sort (map (\<lambda>(suite, want). suite @ '' produced '' @ itoa (seen (Seen r) suite) @ '' of '' @
       itoa want @ '' expected results'')
     (filter (\<lambda>(suite, want). seen (Seen r) suite \<noteq> want) (Expected r)))"

definition total :: "Report \<Rightarrow> int" where
  "total r = sum_list (map snd (Seen r))"

definition OK :: "Report \<Rightarrow> bool" where
  "OK r \<longleftrightarrow> Expected r \<noteq> [] \<and> shortfalls r = [] \<and> Failed r = [] \<and> UnexpectedPasses r = []"

definition report_text :: "Report \<Rightarrow> string" where
  "report_text r =
     (if OK r then
        itoa (total r - int (length (Exempted r))) @ '' required tests passed, '' @ itoa (Skipped r) @
        '' results outside the gate'' @
        (if Exempted r \<noteq> [] then '', '' @ itoa (int (length (Exempted r))) @ '' known exemption(s)'' else '''')
      else Join
        ((if shortfalls r \<noteq> [] then [Join (shortfalls r) ''; ''] else []) @
         (if Failed r \<noteq> [] then
            [itoa (int (length (Failed r))) @ '' of '' @ itoa (total r) @ '' required tests failed: '' @
             Join (sort (Failed r)) '', '']
          else []) @
         (if UnexpectedPasses r \<noteq> [] then
            [itoa (int (length (UnexpectedPasses r))) @
             '' exempted test(s) unexpectedly passed, remove the exemption: '' @
             Join (sort (UnexpectedPasses r)) '', '']
          else [])) ''; '')"

section \<open>The verdict\<close>

definition gatedSuite :: "string \<Rightarrow> (string \<times> int) list \<Rightarrow> string option" where
  "gatedSuite ident expected =
     map_option fst (find (\<lambda>(suite, n). HasPrefix ident (suite @ '':'')) expected)"

definition evaluate_line :: "(string \<times> int) list \<Rightarrow> (string \<Rightarrow> bool) \<Rightarrow> string \<Rightarrow> Report \<Rightarrow> Report" where
  "evaluate_line expected exempt line r = (case resultLine line of
     None \<Rightarrow> r
   | Some (outcome, ident) \<Rightarrow> (case gatedSuite ident expected of
       None \<Rightarrow> r\<lparr>Skipped := Skipped r + 1\<rparr>
     | Some suite \<Rightarrow>
         (let r' = r\<lparr>Seen := count_suite suite (Seen r)\<rparr> in
          if outcome = ''FAILED'' \<and> exempt ident then r'\<lparr>Exempted := Exempted r' @ [TrimSpace line]\<rparr>
          else if outcome = ''FAILED'' then r'\<lparr>Failed := Failed r' @ [TrimSpace line]\<rparr>
          else if outcome = ''SUCCESSFUL'' \<and> exempt ident then
            r'\<lparr>UnexpectedPasses := UnexpectedPasses r' @ [TrimSpace line]\<rparr>
          else r')))"

definition start_report :: "(string \<times> int) list \<Rightarrow> Report" where
  "start_report expected = \<lparr>Expected = expected, Seen = [], Failed = [], Exempted = [],
     UnexpectedPasses = [], Skipped = 0\<rparr>"

definition evaluate :: "string \<Rightarrow> (string \<times> int) list \<Rightarrow> (string \<Rightarrow> bool) \<Rightarrow> Report option" where
  "evaluate output expected exempt =
     (if \<not> hasCompletionMarker output then None
      else Some (fold (evaluate_line expected exempt) (output_lines output) (start_report expected)))"

definition expected_suites :: "(string \<times> int) list" where
  "expected_suites = [(''MET'', 1), (''CAT'', 3), (''CN'', 15), (''CN_C'', 16), (''TP'', 15), (''TP_C'', 15)]"

definition exempt_tests :: "string \<Rightarrow> bool" where "exempt_tests ident = False"

text \<open>The exit status, from the arguments and the content of the file they name.\<close>

definition gate_main :: "string list \<Rightarrow> string option \<Rightarrow> int" where
  "gate_main args content =
     (if length args \<noteq> 2 then 2
      else (case content of
        None \<Rightarrow> 2
      | Some output \<Rightarrow> (case evaluate output expected_suites exempt_tests of
          None \<Rightarrow> 1
        | Some r \<Rightarrow> if OK r then 0 else 1)))"

section \<open>When the gate opens\<close>

definition results :: "string \<Rightarrow> (string \<times> string) list" where
  "results output = List.map_filter resultLine (output_lines output)"

definition suite_of :: "string \<Rightarrow> string" where
  "suite_of ident = takeWhile (\<lambda>c. c \<noteq> CHR '':'') ident"

lemma match_id_colon: "match_id s = Some ident \<Longrightarrow> CHR '':'' \<in> set ident"
  by (auto simp: match_id_def Let_def split: list.splits if_splits)

lemma match_result_parts:
  "match_result s = Some (outcome, ident) \<Longrightarrow> outcome \<in> {''SUCCESSFUL'', ''FAILED''} \<and> CHR '':'' \<in> set ident"
  by (auto simp: match_result_def match_outcome_def dest: match_id_colon split: option.splits if_splits)

lemma find_result_parts:
  "find_result w s = Some (outcome, ident) \<Longrightarrow> outcome \<in> {''SUCCESSFUL'', ''FAILED''} \<and> CHR '':'' \<in> set ident"
  by (induction s arbitrary: w) (auto dest: match_result_parts split: option.splits if_splits)

lemma HasPrefix_iff: "HasPrefix s p \<longleftrightarrow> (\<exists>t. s = p @ t)"
  by (induction s p rule: HasPrefix.induct) auto

lemma takeWhile_suite:
  "CHR '':'' \<notin> set a \<Longrightarrow> takeWhile (\<lambda>c. c \<noteq> CHR '':'') (a @ CHR '':'' # b) = a"
  by (induction a) auto

lemma HasPrefix_suite:
  assumes "CHR '':'' \<in> set ident" and "CHR '':'' \<notin> set suite"
  shows "HasPrefix ident (suite @ '':'') \<longleftrightarrow> suite = suite_of ident"
proof
  assume "HasPrefix ident (suite @ '':'')"
  then obtain t where "ident = suite @ CHR '':'' # t" by (auto simp: HasPrefix_iff)
  then show "suite = suite_of ident"
    using assms(2) by (simp add: suite_of_def takeWhile_suite)
next
  assume *: "suite = suite_of ident"
  obtain x y where "ident = x @ CHR '':'' # y" "CHR '':'' \<notin> set x"
    using assms(1) by (meson split_list_first)
  then show "HasPrefix ident (suite @ '':'')"
    using * by (auto simp: HasPrefix_iff suite_of_def takeWhile_suite)
qed

lemma gatedSuite_eq:
  assumes "CHR '':'' \<in> set ident" and "\<forall>suite \<in> fst ` set expected. CHR '':'' \<notin> set suite"
  shows "gatedSuite ident expected =
    (if suite_of ident \<in> fst ` set expected then Some (suite_of ident) else None)"
  using assms(2)
proof (induction expected)
  case (Cons e es)
  moreover have "gatedSuite ident (e # es) =
      (if HasPrefix ident (fst e @ '':'') then Some (fst e) else gatedSuite ident es)"
    by (cases e) (simp add: gatedSuite_def)
  ultimately show ?case using HasPrefix_suite [OF assms(1), of "fst e"] by auto
qed (simp add: gatedSuite_def)

lemma seen_count_suite:
  "seen (count_suite suite counts) s = seen counts s + (if s = suite then 1 else 0)"
  by (induction counts) (auto simp: seen_def split: option.splits)

lemma sort_Nil: "sort xs = [] \<longleftrightarrow> xs = []"
  by (metis set_empty set_sort)

text \<open>What the report says after some lines of the output.\<close>

lemma evaluate_lines:
  fixes lines :: "string list" and exempt :: "string \<Rightarrow> bool"
  assumes no_colon: "\<forall>suite \<in> fst ` set expected. CHR '':'' \<notin> set suite"
  defines "rs \<equiv> List.map_filter resultLine lines"
    and "r \<equiv> fold (evaluate_line expected exempt) lines (start_report expected)"
  shows "Expected r = expected"
    and "suite \<in> fst ` set expected \<Longrightarrow>
      seen (Seen r) suite = int (length (filter (\<lambda>(outcome, ident). suite_of ident = suite) rs))"
    and "Failed r = [] \<longleftrightarrow> (\<forall>(outcome, ident) \<in> set rs.
      suite_of ident \<in> fst ` set expected \<longrightarrow> outcome = ''FAILED'' \<longrightarrow> exempt ident)"
    and "UnexpectedPasses r = [] \<longleftrightarrow> (\<forall>(outcome, ident) \<in> set rs.
      suite_of ident \<in> fst ` set expected \<longrightarrow> outcome = ''SUCCESSFUL'' \<longrightarrow> \<not> exempt ident)"
  unfolding rs_def r_def
proof (induction lines rule: rev_induct)
  case Nil
  {
    case 1 show ?case by (simp add: start_report_def)
  next
    case 2 show ?case by (simp add: start_report_def seen_def map_filter_simps)
  next
    case 3 show ?case by (simp add: start_report_def map_filter_simps)
  next
    case 4 show ?case by (simp add: start_report_def map_filter_simps)
  }
next
  case (snoc l ls)
  have gated: "gatedSuite ident expected = (if suite_of ident \<in> fst ` set expected then Some (suite_of ident) else None)"
    if "resultLine l = Some (outcome, ident)" for outcome ident
    using gatedSuite_eq [OF _ no_colon] find_result_parts that unfolding resultLine_def by blast
  have rs: "List.map_filter resultLine (ls @ [l]) = List.map_filter resultLine ls @
      (case resultLine l of None \<Rightarrow> [] | Some m \<Rightarrow> [m])"
    by (simp add: List.map_filter_def split: option.splits)
  have outcome: "outcome \<in> {''SUCCESSFUL'', ''FAILED''}" if "resultLine l = Some (outcome, ident)" for outcome ident
    using find_result_parts that unfolding resultLine_def by blast
  note step = evaluate_line_def gated Let_def seen_count_suite rs
  {
    case 1 show ?case
      using snoc.IH(1) by (auto simp: step split: option.splits prod.splits)
  next
    case 2 then show ?case
      using snoc.IH(2) by (auto simp: step split: option.splits prod.splits)
  next
    case 3 show ?case
      using snoc.IH(3) outcome by (auto simp: step split: option.splits prod.splits)
  next
    case 4 show ?case
      using snoc.IH(4) outcome by (auto simp: step split: option.splits prod.splits)
  }
qed

text \<open>
  C38. The gate opens exactly for a run that reached its end, with something expected, with the
  expected number of results of every suite, and with every gated result as expected: failed for
  the exempted tests and successful for the others.  The order in which the map of suites is
  iterated does not matter.
\<close>

theorem gate_opens_exactly_for_compliant_runs:
  assumes "\<forall>suite \<in> fst ` set expected. CHR '':'' \<notin> set suite"
  shows "(\<exists>r. evaluate output expected exempt = Some r \<and> OK r) \<longleftrightarrow>
    hasCompletionMarker output \<and> expected \<noteq> [] \<and>
    (\<forall>(suite, n) \<in> set expected.
       int (length (filter (\<lambda>(outcome, ident). suite_of ident = suite) (results output))) = n) \<and>
    (\<forall>(outcome, ident) \<in> set (results output).
       suite_of ident \<in> fst ` set expected \<longrightarrow> (outcome = ''FAILED'' \<longleftrightarrow> exempt ident))"
proof -
  let ?r = "fold (evaluate_line expected exempt) (output_lines output) (start_report expected)"
  note r = evaluate_lines [OF assms, where exempt = exempt and lines = "output_lines output",
    folded results_def]
  have outcomes: "outcome \<in> {''SUCCESSFUL'', ''FAILED''}" if "(outcome, ident) \<in> set (results output)" for outcome ident
  proof -
    have "\<exists>l. resultLine l = Some (outcome, ident)"
      using that by (auto simp: results_def List.map_filter_def)
    then show ?thesis using find_result_parts unfolding resultLine_def by blast
  qed
  have "shortfalls ?r = [] \<longleftrightarrow> (\<forall>(suite, n) \<in> set expected.
       int (length (filter (\<lambda>(outcome, ident). suite_of ident = suite) (results output))) = n)"
  proof -
    have "shortfalls ?r = [] \<longleftrightarrow> (\<forall>(suite, n) \<in> set expected. seen (Seen ?r) suite = n)"
      unfolding shortfalls_def sort_Nil r(1) by (auto simp: filter_empty_conv)
    then show ?thesis using r(2) by fastforce
  qed
  moreover have "Failed ?r = [] \<and> UnexpectedPasses ?r = [] \<longleftrightarrow> (\<forall>(outcome, ident) \<in> set (results output).
       suite_of ident \<in> fst ` set expected \<longrightarrow> (outcome = ''FAILED'' \<longleftrightarrow> exempt ident))"
    unfolding r(3,4) ball_conj_distrib [symmetric]
  proof (rule ball_cong)
    fix m assume "m \<in> set (results output)"
    then show "((case m of (outcome, ident) \<Rightarrow>
          suite_of ident \<in> fst ` set expected \<longrightarrow> outcome = ''FAILED'' \<longrightarrow> exempt ident) \<and>
        (case m of (outcome, ident) \<Rightarrow>
          suite_of ident \<in> fst ` set expected \<longrightarrow> outcome = ''SUCCESSFUL'' \<longrightarrow> \<not> exempt ident)) \<longleftrightarrow>
      (case m of (outcome, ident) \<Rightarrow>
          suite_of ident \<in> fst ` set expected \<longrightarrow> (outcome = ''FAILED'' \<longleftrightarrow> exempt ident))"
      using outcomes [of "fst m" "snd m"] by (cases m) auto
  qed simp
  ultimately show ?thesis by (auto simp: evaluate_def OK_def r(1))
qed

text \<open>A complete run of one suite, after a line the gate does not count.\<close>

definition example_run :: string where
  "example_run = ''[2026] SUCCESSFUL: XX:01-01'' @ [CHR 0x0A] @ ''[2026] SUCCESSFUL: MET:01-01'' @ [CHR 0x0A] @
     ''[2026] Test run complete''"

theorem gate_opens_exactly_for_compliant_runs_witness:
  "(\<exists>r. evaluate example_run [(''MET'', 1)] exempt_tests = Some r \<and> OK r) \<and>
   \<not> (\<exists>r. evaluate example_run [(''MET'', 2)] exempt_tests = Some r \<and> OK r)"
proof -
  have "TrimSpace ''Test run complete'' = ''Test run complete''" by (rule TrimSpace_id) simp_all
  moreover have "char_of (116 :: nat) = CHR ''t''" by code_simp
  ultimately have complete: "hasCompletionMarker example_run"
    by (simp add: hasCompletionMarker_def output_lines_def example_run_def strip_timestamp_def
        completionMarker_def is_space_def ascii_lower_def)
  have run: "results example_run = [(''SUCCESSFUL'', ''XX:01-01''), (''SUCCESSFUL'', ''MET:01-01'')]"
    by code_simp
  have suites: "suite_of ''XX:01-01'' = ''XX''" "suite_of ''MET:01-01'' = ''MET''"
    by (simp_all add: suite_of_def)
  have "\<forall>suite \<in> fst ` set [(''MET'', n)]. CHR '':'' \<notin> set suite" for n :: int by simp
  note opens = gate_opens_exactly_for_compliant_runs [OF this, of example_run _ exempt_tests]
  show ?thesis unfolding opens using complete run suites by (simp add: exempt_tests_def)
qed

end
