(* ===== verification/Migration.thy ===== *)
theory Migration
  imports Store
begin

text \<open>
  Opening the database file (\<^verbatim>\<open>Open\<close>, \<^verbatim>\<open>migrate\<close> and \<^verbatim>\<open>addColumnIfMissing\<close> of
  \<^verbatim>\<open>internal/store/store.go\<close>).  A database is a map from table names to tables, a table its columns
  and its rows, a row a map from column names to values; the statements are the three that
  \<^verbatim>\<open>Open\<close> issues, with the answers SQLite gives to them.  Keys and check constraints are not part of
  the model.  The theory proves that opening a database that an earlier release wrote loses nothing
  and gives every column the statements of the store name, wherever earlier openings stopped.
\<close>

section \<open>A database and the statements on it\<close>

datatype sqlval = SqlText string | SqlInt int

text \<open>Every column but a key is declared \<^verbatim>\<open>NOT NULL\<close>; the default is optional.\<close>

record column =
  co_name :: string
  co_default :: "sqlval option"

type_synonym row = "string \<Rightarrow> sqlval option"

record table =
  tb_columns :: "column list"
  tb_rows :: "row list"

type_synonym database = "string \<Rightarrow> table option"

abbreviation column_names :: "table \<Rightarrow> string set" where
  "column_names tb \<equiv> co_name ` set (tb_columns tb)"

text \<open>\<^verbatim>\<open>CREATE TABLE IF NOT EXISTS\<close>.\<close>

definition create_table :: "string \<Rightarrow> column list \<Rightarrow> database \<Rightarrow> database" where
  "create_table t cols d =
     (if d t = None then d(t \<mapsto> \<lparr>tb_columns = cols, tb_rows = []\<rparr>) else d)"

text \<open>\<^verbatim>\<open>SELECT COUNT(*) FROM pragma_table_info(t) WHERE name = c\<close>.\<close>

definition count_columns :: "string \<Rightarrow> string \<Rightarrow> database \<Rightarrow> nat" where
  "count_columns t c d = (case d t of None \<Rightarrow> 0
     | Some tb \<Rightarrow> length (filter (\<lambda>co. co_name co = c) (tb_columns tb)))"

text \<open>
  \<^verbatim>\<open>ALTER TABLE t ADD COLUMN\<close>: an error for a table that is not there, for a column that is, and
  for a column without a default; the rows that are there get the default.
\<close>

definition add_column :: "string \<Rightarrow> column \<Rightarrow> database \<Rightarrow> database option" where
  "add_column t co d = (case d t of
     None \<Rightarrow> None
   | Some tb \<Rightarrow>
       if co_name co \<in> column_names tb then None
       else (case co_default co of
         None \<Rightarrow> None
       | Some v \<Rightarrow> Some (d(t \<mapsto> \<lparr>tb_columns = tb_columns tb @ [co],
           tb_rows = map (\<lambda>r. r(co_name co \<mapsto> v)) (tb_rows tb)\<rparr>))))"

section \<open>Opening\<close>

datatype open_error =
    OpenFailed
  | WALFailed
  | SchemaFailed string
  | InspectFailed string
  | AddFailed string string

text \<open>
  A statement that reports an error may still have taken effect.  A step of \<^verbatim>\<open>Open\<close> takes the
  outcomes of its statements, one for a table and two for a column.
\<close>

definition createSchema ::
  "string \<Rightarrow> column list \<Rightarrow> io \<Rightarrow> database \<Rightarrow> (open_error + unit) \<times> database" where
  "createSchema t cols i d = (case i of
     IoOk \<Rightarrow> (Inr (), create_table t cols d)
   | IoFail \<Rightarrow> (Inl (SchemaFailed t), d)
   | IoLost \<Rightarrow> (Inl (SchemaFailed t), create_table t cols d))"

definition addColumnIfMissing ::
  "string \<Rightarrow> column \<Rightarrow> io \<times> io \<Rightarrow> database \<Rightarrow> (open_error + unit) \<times> database" where
  "addColumnIfMissing t co ij d =
     (if fst ij \<noteq> IoOk then (Inl (InspectFailed t), d)
      else if 0 < count_columns t (co_name co) d then (Inr (), d)
      else (case add_column t co d of
        None \<Rightarrow> (Inl (AddFailed t (co_name co)), d)
      | Some d' \<Rightarrow> (case snd ij of
          IoOk \<Rightarrow> (Inr (), d')
        | IoFail \<Rightarrow> (Inl (AddFailed t (co_name co)), d)
        | IoLost \<Rightarrow> (Inl (AddFailed t (co_name co)), d'))))"

datatype open_step = CreateTable string "column list" | AddColumn string column

definition exec_step :: "open_step \<Rightarrow> io \<times> io \<Rightarrow> database \<Rightarrow> (open_error + unit) \<times> database" where
  "exec_step s ij d = (case s of
     CreateTable t cols \<Rightarrow> createSchema t cols (fst ij) d
   | AddColumn t co \<Rightarrow> addColumnIfMissing t co ij d)"

primrec exec_steps ::
  "open_step list \<Rightarrow> (nat \<Rightarrow> io \<times> io) \<Rightarrow> database \<Rightarrow> (open_error + unit) \<times> database" where
  "exec_steps [] a d = (Inr (), d)"
| "exec_steps (s # ss) a d = (case exec_step s (a 0) d of
     (Inl e, d') \<Rightarrow> (Inl e, d')
   | (Inr u, d') \<Rightarrow> exec_steps ss (\<lambda>i. a (Suc i)) d')"

definition plain :: "string \<Rightarrow> column" where
  "plain c = \<lparr>co_name = c, co_default = None\<rparr>"

definition text_column :: "string \<Rightarrow> column" where
  "text_column c = \<lparr>co_name = c, co_default = Some (SqlText '''')\<rparr>"

definition integer_column :: "string \<Rightarrow> column" where
  "integer_column c = \<lparr>co_name = c, co_default = Some (SqlInt 0)\<rparr>"

definition schema_columns :: "column list" where
  "schema_columns = [plain ''provider_pid'', plain ''consumer_pid'', plain ''state'', plain ''dataset_id'',
     plain ''offer_id'', plain ''callback_address'', integer_column ''rerequested'', plain ''created_at'',
     plain ''updated_at'']"

definition consumerSchema :: "column list" where
  "consumerSchema = [plain ''consumer_pid'', text_column ''provider_pid'', plain ''provider_base_url'',
     plain ''state'', plain ''dataset_id'', plain ''offer_id'', plain ''created_at'', plain ''updated_at'']"

definition agreementSchema :: "column list" where
  "agreementSchema = [plain ''agreement_id'', plain ''dataset_id'', text_column ''consumer_pid'',
     plain ''origin'', text_column ''counterparty_id'', plain ''created_at'']"

definition transferSchema :: "column list" where
  "transferSchema = [plain ''provider_pid'', plain ''consumer_pid'', plain ''agreement_id'', plain ''state'',
     plain ''callback_address'', plain ''format'', plain ''created_at'', plain ''updated_at'']"

definition consumerTransferSchema :: "column list" where
  "consumerTransferSchema = [plain ''consumer_pid'', text_column ''provider_pid'', plain ''provider_base_url'',
     plain ''agreement_id'', plain ''format'', plain ''state'', integer_column ''expected_bytes'',
     integer_column ''received_bytes'', text_column ''data_path'', text_column ''data_completed_at'',
     text_column ''data_error'', plain ''created_at'', plain ''updated_at'']"

definition rosterVersionSchema :: "column list" where
  "rosterVersionSchema = [plain ''id'', plain ''highest'']"

definition schema_tables :: "(string \<times> column list) list" where
  "schema_tables =
     [(''negotiations'', schema_columns), (''consumer_negotiations'', consumerSchema),
      (''agreements'', agreementSchema), (''transfer_processes'', transferSchema),
      (''consumer_transfer_processes'', consumerTransferSchema), (''roster_version'', rosterVersionSchema)]"

definition schema_steps :: "open_step list" where
  "schema_steps = map (\<lambda>(t, cols). CreateTable t cols) schema_tables"

definition migration_steps :: "open_step list" where
  "migration_steps =
     AddColumn ''negotiations'' (integer_column ''rerequested'') #
     map (\<lambda>t. AddColumn t (text_column ''counterparty_id''))
       [''negotiations'', ''consumer_negotiations'', ''transfer_processes'', ''consumer_transfer_processes'',
        ''agreements''] @
     AddColumn ''consumer_transfer_processes'' (integer_column ''expected_bytes'') #
     map (AddColumn ''consumer_transfer_processes'')
       [integer_column ''received_bytes'', text_column ''data_path'', text_column ''data_completed_at'',
        text_column ''data_error'']"

definition migrate :: "(nat \<Rightarrow> io \<times> io) \<Rightarrow> database \<Rightarrow> (open_error + unit) \<times> database" where
  "migrate a d = exec_steps migration_steps a d"

text \<open>\<open>opened\<close> and \<open>wal\<close> are the outcomes of \<^verbatim>\<open>sql.Open\<close> and of the journal mode's pragma.\<close>

definition Open ::
  "bool \<Rightarrow> io \<Rightarrow> (nat \<Rightarrow> io \<times> io) \<Rightarrow> database \<Rightarrow> (open_error + unit) \<times> database" where
  "Open opened wal a d =
     (if \<not> opened then (Inl OpenFailed, d)
      else if wal \<noteq> IoOk then (Inl WALFailed, d)
      else (case exec_steps schema_steps a d of
        (Inl e, d') \<Rightarrow> (Inl e, d')
      | (Inr u, d') \<Rightarrow> migrate (\<lambda>i. a (length schema_steps + i)) d'))"

section \<open>What a step is for\<close>

text \<open>The step done, and the database with it done.\<close>

definition step_done :: "open_step \<Rightarrow> database \<Rightarrow> bool" where
  "step_done s d = (case s of
     CreateTable t cols \<Rightarrow> d t \<noteq> None
   | AddColumn t co \<Rightarrow> (\<exists>tb. d t = Some tb \<and> co_name co \<in> column_names tb))"

text \<open>A step that can be taken: a column has a default and its table.\<close>

definition ready :: "open_step \<Rightarrow> database \<Rightarrow> bool" where
  "ready s d = (case s of
     CreateTable t cols \<Rightarrow> True
   | AddColumn t co \<Rightarrow> d t \<noteq> None \<and> co_default co \<noteq> None)"

definition effect :: "open_step \<Rightarrow> database \<Rightarrow> database" where
  "effect s d = (case s of
     CreateTable t cols \<Rightarrow> create_table t cols d
   | AddColumn t co \<Rightarrow> (case add_column t co d of None \<Rightarrow> d | Some d' \<Rightarrow> d'))"

lemma count_columns_pos: "0 < count_columns t (co_name co) d \<longleftrightarrow> step_done (AddColumn t co) d"
  by (cases "d t") (auto simp: count_columns_def step_done_def filter_empty_conv image_iff eq_commute [of "co_name co"])

lemma effect_done: "step_done s d \<Longrightarrow> effect s d = d"
  by (auto simp: step_done_def effect_def create_table_def add_column_def split: open_step.splits option.splits)

lemma exec_step_effect:
  assumes "exec_step s ij d = (r, d')"
  shows "d' = d \<and> r \<noteq> Inr () \<or> d' = effect s d"
proof (cases s)
  case (CreateTable t cols)
  then show ?thesis using assms by (auto simp: exec_step_def createSchema_def effect_def split: io.splits)
next
  case (AddColumn t co)
  then show ?thesis
    using assms effect_done [of s d] count_columns_pos [of t co d]
    by (auto simp: exec_step_def addColumnIfMissing_def effect_def split: io.splits option.splits if_splits)
qed

lemma exec_step_ok: "ready s d \<Longrightarrow> exec_step s (IoOk, IoOk) d = (Inr (), effect s d)"
  using effect_done [of s d]
  by (cases s)
    (auto simp: exec_step_def createSchema_def addColumnIfMissing_def ready_def effect_def count_columns_pos
      step_done_def add_column_def split: option.splits)

lemma ready_done: "ready s d \<Longrightarrow> step_done s (effect s d)"
  by (auto simp: ready_def step_done_def effect_def create_table_def add_column_def
      split: open_step.splits option.splits)

lemma later:
  "step_done s d \<Longrightarrow> step_done s (effect s' d)" "ready s d \<Longrightarrow> ready s (effect s' d)"
  by (auto simp: ready_def step_done_def effect_def create_table_def add_column_def
      split: open_step.splits option.splits)

text \<open>A list of steps, each of which can be taken when its turn comes.\<close>

primrec all_ready :: "open_step list \<Rightarrow> database \<Rightarrow> bool" where
  "all_ready [] d \<longleftrightarrow> True"
| "all_ready (s # ss) d \<longleftrightarrow> ready s d \<and> all_ready ss (effect s d)"

lemma all_ready_append: "all_ready (xs @ ys) d \<longleftrightarrow> all_ready xs d \<and> all_ready ys (fold effect xs d)"
  by (induction xs arbitrary: d) auto

lemma all_readyI: "(\<And>s. s \<in> set ss \<Longrightarrow> ready s d) \<Longrightarrow> all_ready ss d"
  by (induction ss arbitrary: d) (auto intro: later)

lemma done_later: "step_done s d \<Longrightarrow> step_done s (fold effect ss d)"
  by (induction ss arbitrary: d) (auto intro: later)

lemma all_done: "all_ready ss d \<Longrightarrow> s \<in> set ss \<Longrightarrow> step_done s (fold effect ss d)"
  by (induction ss arbitrary: d) (auto intro: done_later ready_done)

lemma effects_done: "(\<And>s. s \<in> set ss \<Longrightarrow> step_done s d) \<Longrightarrow> fold effect ss d = d"
  by (induction ss) (auto simp: effect_done)

lemma exec_steps_ok: "all_ready ss d \<Longrightarrow> exec_steps ss (\<lambda>i. (IoOk, IoOk)) d = (Inr (), fold effect ss d)"
  by (induction ss arbitrary: d) (auto simp: exec_step_ok)

lemma exec_steps_prefix:
  "\<exists>k \<le> length ss. snd (exec_steps ss a d) = fold effect (take k ss) d \<and>
     (fst (exec_steps ss a d) = Inr () \<longrightarrow> k = length ss)"
proof (induction ss arbitrary: a d)
  case (Cons s ss)
  obtain r d' where step: "exec_step s (a 0) d = (r, d')" by fastforce
  show ?case
  proof (cases r)
    case (Inl e)
    then show ?thesis
      using step exec_step_effect [OF step]
      by (auto intro: exI [of _ 0] exI [of _ "Suc 0"])
  next
    case (Inr u)
    obtain k where k: "k \<le> length ss"
      "snd (exec_steps ss (\<lambda>i. a (Suc i)) d') = fold effect (take k ss) d'"
      "fst (exec_steps ss (\<lambda>i. a (Suc i)) d') = Inr () \<longrightarrow> k = length ss"
      using Cons.IH by blast
    then show ?thesis
      using step Inr exec_step_effect [OF step] by (intro exI [of _ "Suc k"]) auto
  qed
qed simp

lemma exec_steps_append:
  "exec_steps (xs @ ys) a d = (case exec_steps xs a d of
     (Inl e, d') \<Rightarrow> (Inl e, d')
   | (Inr u, d') \<Rightarrow> exec_steps ys (\<lambda>i. a (length xs + i)) d')"
  by (induction xs arbitrary: a d) (auto split: prod.splits sum.splits)

definition open_steps :: "open_step list" where
  "open_steps = schema_steps @ migration_steps"

lemma Open_steps:
  "Open opened wal a d =
     (if \<not> opened then (Inl OpenFailed, d) else if wal \<noteq> IoOk then (Inl WALFailed, d) else exec_steps open_steps a d)"
  by (simp add: Open_def migrate_def open_steps_def exec_steps_append split: sum.split prod.split)

lemma open_ready: "all_ready open_steps d"
proof -
  have "all_ready schema_steps d" by (rule all_readyI) (auto simp: schema_steps_def ready_def)
  moreover have "ready s (fold effect schema_steps d)" if "s \<in> set migration_steps" for s
  proof -
    have "\<exists>t co cols. s = AddColumn t co \<and> co_default co \<noteq> None \<and> CreateTable t cols \<in> set schema_steps"
      using that
      by (auto simp: migration_steps_def schema_steps_def schema_tables_def integer_column_def text_column_def)
    then obtain t co cols where s: "s = AddColumn t co" "co_default co \<noteq> None"
      and cols: "CreateTable t cols \<in> set schema_steps" by blast
    from all_done [OF \<open>all_ready schema_steps d\<close> cols] s show ?thesis by (simp add: ready_def step_done_def)
  qed
  ultimately show ?thesis unfolding open_steps_def all_ready_append by (blast intro: all_readyI)
qed

lemma Open_ok: "Open True IoOk (\<lambda>i. (IoOk, IoOk)) d = (Inr (), fold effect open_steps d)"
  by (simp add: Open_steps exec_steps_ok open_ready)

text \<open>An interrupted opening took a prefix of the steps; the next one takes the rest.\<close>

lemma Open_converges: "fold effect open_steps (snd (Open opened wal a d)) = fold effect open_steps d"
proof -
  have "\<exists>k. snd (Open opened wal a d) = fold effect (take k open_steps) d"
    using exec_steps_prefix [of open_steps a d] by (auto simp: Open_steps intro: exI [of _ 0])
  then obtain k where k: "snd (Open opened wal a d) = fold effect (take k open_steps) d" by blast
  let ?xs = "take k open_steps" and ?ys = "drop k open_steps"
  have "all_ready (?xs @ ?ys) d" using open_ready by simp
  then have "fold effect ?xs (fold effect ?xs d) = fold effect ?xs d"
    by (intro effects_done) (auto simp only: all_ready_append intro: all_done)
  then have "fold effect (?xs @ ?ys) (fold effect ?xs d) = fold effect (?xs @ ?ys) d"
    by (simp only: fold_append comp_def)
  then show ?thesis using k by (simp only: append_take_drop_id)
qed


section \<open>What is kept\<close>

definition table_wf :: "table \<Rightarrow> bool" where
  "table_wf tb \<longleftrightarrow> (\<forall>r \<in> set (tb_rows tb). dom r = column_names tb)"

definition database_wf :: "database \<Rightarrow> bool" where
  "database_wf d \<longleftrightarrow> (\<forall>t tb. d t = Some tb \<longrightarrow> table_wf tb)"

text \<open>A row with everything it had, and a default in every column it did not have.\<close>

definition row_kept :: "row \<Rightarrow> row \<Rightarrow> bool" where
  "row_kept r r' \<longleftrightarrow> r \<subseteq>\<^sub>m r' \<and> (\<forall>c. r c = None \<longrightarrow> r' c \<in> {None, Some (SqlText ''''), Some (SqlInt 0)})"

definition table_kept :: "table \<Rightarrow> table \<Rightarrow> bool" where
  "table_kept tb tb' \<longleftrightarrow> column_names tb \<subseteq> column_names tb' \<and> list_all2 row_kept (tb_rows tb) (tb_rows tb')"

definition database_kept :: "database \<Rightarrow> database \<Rightarrow> bool" where
  "database_kept d d' \<longleftrightarrow> (\<forall>t tb. d t = Some tb \<longrightarrow> (\<exists>tb'. d' t = Some tb' \<and> table_kept tb tb'))"

lemma row_kept_refl: "row_kept r r"
  by (simp add: row_kept_def)

lemma row_kept_trans: "row_kept r r' \<Longrightarrow> row_kept r' r'' \<Longrightarrow> row_kept r r''"
  unfolding row_kept_def map_le_def by (metis (no_types, lifting) domIff insert_iff option.distinct(1) empty_iff)

lemma table_kept_refl: "table_kept tb tb"
  by (simp add: table_kept_def list_all2_same row_kept_refl)

lemma table_kept_trans: "table_kept a b \<Longrightarrow> table_kept b c \<Longrightarrow> table_kept a c"
  by (auto simp: table_kept_def intro: list_all2_trans [OF row_kept_trans])

lemma database_kept_refl: "database_kept d d"
  by (simp add: database_kept_def table_kept_refl)

lemma database_kept_trans: "database_kept a b \<Longrightarrow> database_kept b c \<Longrightarrow> database_kept a c"
  unfolding database_kept_def by (meson table_kept_trans)

definition harmless :: "open_step \<Rightarrow> bool" where
  "harmless s \<longleftrightarrow> (case s of CreateTable t cols \<Rightarrow> True
     | AddColumn t co \<Rightarrow> co_default co \<in> {Some (SqlText ''''), Some (SqlInt 0)})"

lemma effect_keeps:
  assumes "harmless s" and "database_wf d"
  shows "database_kept d (effect s d)" "database_wf (effect s d)"
proof -
  show "database_kept d (effect s d)"
  proof (cases s)
    case (CreateTable t cols)
    then show ?thesis
      by (auto simp: effect_def create_table_def database_kept_def intro: table_kept_refl)
  next
    case (AddColumn t co)
    show ?thesis
    proof (cases "add_column t co d")
      case None
      then show ?thesis using AddColumn by (simp add: effect_def database_kept_refl)
    next
      case (Some d')
      then obtain tb v where tb: "d t = Some tb" "co_name co \<notin> column_names tb" "co_default co = Some v"
        "d' = d(t \<mapsto> \<lparr>tb_columns = tb_columns tb @ [co], tb_rows = map (\<lambda>r. r(co_name co \<mapsto> v)) (tb_rows tb)\<rparr>)"
        by (auto simp: add_column_def split: option.splits if_splits)
      have "row_kept r (r(co_name co \<mapsto> v))" if "r \<in> set (tb_rows tb)" for r
      proof -
        have "r (co_name co) = None"
          using assms(2) tb(1,2) that by (auto simp: database_wf_def table_wf_def domIff)
        then show ?thesis
          using assms(1) AddColumn tb(3) by (auto simp: row_kept_def map_le_def harmless_def)
      qed
      then have "table_kept tb \<lparr>tb_columns = tb_columns tb @ [co], tb_rows = map (\<lambda>r. r(co_name co \<mapsto> v)) (tb_rows tb)\<rparr>"
        by (auto simp: table_kept_def list_all2_map2 list_all2_same)
      then show ?thesis
        using AddColumn Some tb(1,4) by (auto simp: effect_def database_kept_def intro: table_kept_refl)
    qed
  qed
  show "database_wf (effect s d)"
    using assms(2)
    by (cases s)
      (auto simp: effect_def create_table_def add_column_def database_wf_def table_wf_def
        split: option.splits if_splits)
qed

lemma effects_keep:
  "(\<And>s. s \<in> set ss \<Longrightarrow> harmless s) \<Longrightarrow> database_wf d \<Longrightarrow>
     database_kept d (fold effect ss d) \<and> database_wf (fold effect ss d)"
proof (induction ss arbitrary: d)
  case (Cons s ss)
  have "database_kept d (effect s d)" "database_wf (effect s d)"
    using Cons.prems by (auto intro: effect_keeps)
  with Cons show ?case by (auto intro: database_kept_trans)
qed (simp add: database_kept_refl)

lemma open_harmless: "s \<in> set open_steps \<Longrightarrow> harmless s"
  by (auto simp: open_steps_def schema_steps_def migration_steps_def harmless_def integer_column_def text_column_def)


section \<open>The columns the store's statements name\<close>

definition required :: "(string \<times> string list) list" where
  "required =
     [(''negotiations'', [''provider_pid'', ''consumer_pid'', ''state'', ''dataset_id'', ''offer_id'',
         ''callback_address'', ''rerequested'', ''counterparty_id'', ''created_at'', ''updated_at'']),
      (''consumer_negotiations'', [''consumer_pid'', ''provider_pid'', ''provider_base_url'', ''state'',
         ''dataset_id'', ''offer_id'', ''counterparty_id'', ''created_at'', ''updated_at'']),
      (''agreements'', [''agreement_id'', ''dataset_id'', ''consumer_pid'', ''origin'', ''counterparty_id'',
         ''created_at'']),
      (''transfer_processes'', [''provider_pid'', ''consumer_pid'', ''agreement_id'', ''state'',
         ''callback_address'', ''format'', ''counterparty_id'', ''created_at'', ''updated_at'']),
      (''consumer_transfer_processes'', [''consumer_pid'', ''provider_pid'', ''provider_base_url'',
         ''agreement_id'', ''format'', ''state'', ''counterparty_id'', ''expected_bytes'', ''received_bytes'',
         ''data_path'', ''data_completed_at'', ''data_error'', ''created_at'', ''updated_at'']),
      (''roster_version'', [''id'', ''highest''])]"

text \<open>
  The columns later releases added, and a database of an earlier release: of the tables it has,
  none lacks another column.
\<close>

definition added_columns :: "string \<Rightarrow> string set" where
  "added_columns t = {c. \<exists>co. AddColumn t co \<in> set migration_steps \<and> c = co_name co}"

definition earlier_release :: "database \<Rightarrow> bool" where
  "earlier_release d \<longleftrightarrow> database_wf d \<and>
     (\<forall>(t, cs) \<in> set required. \<forall>tb. d t = Some tb \<longrightarrow> set cs - added_columns t \<subseteq> column_names tb)"

lemmas columns_defs = plain_def text_column_def integer_column_def schema_columns_def consumerSchema_def
  agreementSchema_def transferSchema_def consumerTransferSchema_def rosterVersionSchema_def

lemma fold_create:
  "fold effect (map (\<lambda>(t, cols). CreateTable t cols) ts) d t = (case d t of Some tb \<Rightarrow> Some tb
     | None \<Rightarrow> map_option (\<lambda>cols. \<lparr>tb_columns = cols, tb_rows = []\<rparr>) (map_of ts t))"
  by (induction ts arbitrary: d)
    (auto simp: effect_def create_table_def fun_upd_def split: option.splits if_splits)

lemma required_columns:
  "\<forall>(t, cs) \<in> set required. case map_of schema_tables t of None \<Rightarrow> False
     | Some cols \<Rightarrow> \<forall>c \<in> set cs. c \<in> set (map co_name cols) \<or>
         AddColumn t (text_column c) \<in> set migration_steps \<or> AddColumn t (integer_column c) \<in> set migration_steps"
  by code_simp

lemma created_columns:
  assumes "(t, cs) \<in> set required"
  shows "\<exists>cols. CreateTable t cols \<in> set schema_steps \<and> set cs - added_columns t \<subseteq> co_name ` set cols \<and>
    (d t = None \<longrightarrow> fold effect schema_steps d t = Some \<lparr>tb_columns = cols, tb_rows = []\<rparr>)"
proof -
  obtain cols where cols: "map_of schema_tables t = Some cols"
    "\<forall>c \<in> set cs. c \<in> set (map co_name cols) \<or>
       AddColumn t (text_column c) \<in> set migration_steps \<or> AddColumn t (integer_column c) \<in> set migration_steps"
    using bspec [OF required_columns assms] by (auto split: option.splits)
  have "co_name (text_column c) = c" "co_name (integer_column c) = c" for c
    by (simp_all add: text_column_def integer_column_def)
  then have "set cs - added_columns t \<subseteq> co_name ` set cols"
    using cols(2) by (fastforce simp: added_columns_def)
  moreover have "CreateTable t cols \<in> set schema_steps"
    using map_of_SomeD [OF cols(1)] by (force simp: schema_steps_def)
  ultimately show ?thesis using cols(1) by (auto simp: schema_steps_def fold_create)
qed

lemma opened_columns:
  assumes "earlier_release d" and "(t, cs) \<in> set required"
  shows "\<exists>tb. fold effect open_steps d t = Some tb \<and> set cs \<subseteq> column_names tb"
proof -
  let ?d = "fold effect open_steps d"
  note done' = all_done [OF open_ready, of _ d]
  obtain cols where cols: "CreateTable t cols \<in> set schema_steps" "set cs - added_columns t \<subseteq> co_name ` set cols"
    "d t = None \<longrightarrow> fold effect schema_steps d t = Some \<lparr>tb_columns = cols, tb_rows = []\<rparr>"
    using created_columns [OF assms(2)] by blast
  then obtain tb where tb: "?d t = Some tb"
    using done' [of "CreateTable t cols"] by (auto simp: open_steps_def step_done_def)
  have "c \<in> column_names tb" if "c \<in> set cs" for c
  proof (cases "c \<in> added_columns t")
    case True
    then obtain co where "AddColumn t co \<in> set migration_steps" "c = co_name co" by (auto simp: added_columns_def)
    then show ?thesis using done' [of "AddColumn t co"] tb by (auto simp: open_steps_def step_done_def)
  next
    case False
    show ?thesis
    proof (cases "d t")
      case None
      have "database_kept (fold effect schema_steps d) ?d"
        using effects_keep [of migration_steps] effects_keep [of schema_steps d] open_harmless assms(1)
        by (simp add: open_steps_def earlier_release_def)
      then show ?thesis
        using None cols(2,3) tb that False by (fastforce simp: database_kept_def table_kept_def)
    next
      case (Some tb0)
      have "database_kept d ?d"
        using effects_keep [of open_steps d] open_harmless assms(1) by (simp add: earlier_release_def)
      then show ?thesis
        using Some assms tb that False by (fastforce simp: database_kept_def table_kept_def earlier_release_def)
    qed
  qed
  then show ?thesis using tb by blast
qed

text \<open>Any number of openings, each of which may have stopped anywhere.\<close>

inductive openings :: "database \<Rightarrow> database \<Rightarrow> bool" for d where
  untouched: "openings d d"
| again: "openings d d' \<Longrightarrow> openings d (snd (Open opened wal a d'))"

lemma openings_converge: "openings d d' \<Longrightarrow> fold effect open_steps d' = fold effect open_steps d"
  by (induction rule: openings.induct) (simp_all add: Open_converges)

text \<open>
  C37. A database an earlier release wrote is opened without loss, however many openings were
  interrupted before and wherever: the next undisturbed one succeeds and gives the database an
  undisturbed first one would have given, with every old value in its row, the defaults in the
  columns that were missing, and every column the statements of the store name.
\<close>

theorem interrupted_openings_lose_nothing:
  assumes "earlier_release d" and "openings d d1" and "Open True IoOk (\<lambda>i. (IoOk, IoOk)) d1 = (r, d2)"
  shows "r = Inr () \<and> Open True IoOk (\<lambda>i. (IoOk, IoOk)) d = (Inr (), d2) \<and>
    (\<forall>t tb. d t = Some tb \<longrightarrow> (\<exists>tb2. d2 t = Some tb2 \<and> list_all2 row_kept (tb_rows tb) (tb_rows tb2))) \<and>
    (\<forall>(t, cs) \<in> set required. \<exists>tb2. d2 t = Some tb2 \<and> set cs \<subseteq> column_names tb2) \<and> database_wf d2"
proof -
  have d2: "r = Inr ()" "d2 = fold effect open_steps d"
    using assms(3) openings_converge [OF assms(2)] by (auto simp: Open_ok)
  have "database_kept d d2 \<and> database_wf d2"
    using effects_keep [of open_steps d] open_harmless assms(1) unfolding d2(2) by (simp add: earlier_release_def)
  then show ?thesis
    using d2 opened_columns [OF assms(1)] by (fastforce simp: Open_ok database_kept_def table_kept_def)
qed

text \<open>A negotiation of the first release, an opening that stopped at its second column, and the next.\<close>

definition example_row :: row where
  "example_row = [''provider_pid'' \<mapsto> SqlText ''n0'', ''consumer_pid'' \<mapsto> SqlText ''c0'',
     ''state'' \<mapsto> SqlText ''AGREED'', ''dataset_id'' \<mapsto> SqlText ''d1'', ''offer_id'' \<mapsto> SqlText ''d1#offer'',
     ''callback_address'' \<mapsto> SqlText ''http://c'', ''created_at'' \<mapsto> SqlText ''t'', ''updated_at'' \<mapsto> SqlText ''t'']"

definition example_database :: database where
  "example_database = [''negotiations'' \<mapsto> \<lparr>tb_columns = map plain [''provider_pid'', ''consumer_pid'', ''state'',
       ''dataset_id'', ''offer_id'', ''callback_address'', ''created_at'', ''updated_at''],
     tb_rows = [example_row]\<rparr>]"

lemma example_earlier: "earlier_release example_database"
proof -
  have "\<forall>(t, cs) \<in> set required. case example_database t of None \<Rightarrow> True
     | Some tb \<Rightarrow> \<forall>c \<in> set cs. c \<in> set (map co_name (tb_columns tb)) \<or>
         AddColumn t (text_column c) \<in> set migration_steps \<or> AddColumn t (integer_column c) \<in> set migration_steps"
    by code_simp
  moreover have "co_name (text_column c) = c" "co_name (integer_column c) = c" for c
    by (simp_all add: text_column_def integer_column_def)
  moreover have "database_wf example_database"
    unfolding database_wf_def table_wf_def example_database_def
    by (auto simp: example_row_def plain_def dom_def split: if_splits)
  ultimately show ?thesis
    by (fastforce simp: earlier_release_def added_columns_def)
qed

theorem interrupted_openings_lose_nothing_witness:
  "\<exists>d2 r2. Open True IoOk (\<lambda>i. (IoOk, IoOk))
      (snd (Open True IoOk (\<lambda>i. (IoOk, if i = 7 then IoLost else IoOk)) example_database)) = (Inr (), d2) \<and>
    map_option tb_rows (d2 ''negotiations'') = Some [r2] \<and> r2 ''state'' = Some (SqlText ''AGREED'') \<and>
    r2 ''counterparty_id'' \<in> {None, Some (SqlText ''''), Some (SqlInt 0)}"
proof -
  let ?d1 = "snd (Open True IoOk (\<lambda>i. (IoOk, if i = 7 then IoLost else IoOk)) example_database)"
  obtain r d2 where d2: "Open True IoOk (\<lambda>i. (IoOk, IoOk)) ?d1 = (r, d2)" by fastforce
  have "openings example_database ?d1" by (intro openings.intros)
  note opened = interrupted_openings_lose_nothing [OF example_earlier this d2]
  obtain tb where "example_database ''negotiations'' = Some tb" "tb_rows tb = [example_row]"
    by (simp add: example_database_def)
  with opened [THEN conjunct2, THEN conjunct2, THEN conjunct1, rule_format] obtain tb2 where
    "d2 ''negotiations'' = Some tb2" "list_all2 row_kept [example_row] (tb_rows tb2)"
    by fastforce
  moreover from this obtain r2 where "tb_rows tb2 = [r2]" "row_kept example_row r2"
    by (auto simp: list_all2_Cons1)
  moreover have "example_row ''state'' = Some (SqlText ''AGREED'')" "example_row ''counterparty_id'' = None"
    by (simp_all add: example_row_def)
  ultimately show ?thesis
    using d2 opened [THEN conjunct1] by (intro exI [of _ d2] exI [of _ r2]) (auto simp: row_kept_def map_le_def dom_def)
qed

end
