(* ===== verification/Spec2Isabelle.thy ===== *)
theory Spec2Isabelle
  imports CatalogRuns Deliveries Identifiers IdleReader Process OutgoingAddresses MdScript TckGate Migration
begin

text \<open>
  A dataspace connector (\<^verbatim>\<open>cmd/dsbox\<close> and \<^verbatim>\<open>internal/\<close>): a process with two listeners over one SQLite
  file.  On the protocol listener other participants negotiate contracts with it, run transfers
  under the agreements, pull data and read its catalog; on the management listener its operator
  starts negotiations and transfers of its own and imports agreements.  Every request is answered by
  a handler, and most handlers start goroutines that go on talking to the counterparty after the
  answer: they push messages, drive a transfer, pull a file.  The development models these programs
  statement by statement and proves what holds however they interleave.

  \<^bold>\<open>How the code is modelled.\<close>  A handler or goroutine is a value of \<open>prog\<close> (\<open>Effects\<close>): the tree of
  its effects, each with the continuation that takes the answer.  The effects are the clock, an
  identifier, the guard of outgoing addresses, an HTTP request, a statement on the database or a
  system call, the response, a goroutine, a pause.  A statement takes an outcome \<open>io\<close>: done, failed,
  or failed after it took effect.  \<open>run\<close> executes one program alone with any answers;
  \<open>sys_step\<close> interleaves any number of them over the shared \<open>world\<close> (the store, the files, the pulls in
  flight) one effect at a time, and \<open>reachable\<close> is its closure, so every theorem over it speaks of all
  interleavings, all failures and all behaviours of counterparties.  Programs are finite trees:
  every handler and every goroutine ends, once its answers come, by construction; no fuel is used.
  The state is a record of tables, the wire documents are records with a decoder as
  \<^verbatim>\<open>encoding/json\<close> has it, errors are values of a sum, \<^verbatim>\<open>int64\<close> is \<open>64 word\<close>, and time is an integer
  count of nanoseconds since 1970.

  \<^bold>\<open>The theories and the code.\<close>

  \<^item> \<open>Prelude\<close>, \<open>GoTime\<close>, \<open>GoStrings\<close>, \<open>Json\<close>: what is used of Go's library, and the collections of
    facts the other theories fill.
  \<^item> \<open>Store\<close>, \<open>TableContract\<close>, \<open>Migration\<close>, \<open>Identifiers\<close> (\<^verbatim>\<open>internal/store/store.go\<close>): the tables and
    every statement on them; their contract as locales (\<open>row_table\<close>, \<open>state_table\<close>, \<open>sql_rows\<close>,
    \<open>sql_table\<close>), interpreted on the five tables; opening a database of an earlier release; the
    identifiers drawn.
  \<^item> \<open>Config\<close>, \<open>ConfigLoad\<close> (\<^verbatim>\<open>internal/config/config.go\<close>): the configuration, its loading and its
    checks.
  \<^item> \<open>Messages\<close>, \<open>Protocol\<close> (\<^verbatim>\<open>internal/dsp\<close>: \<^verbatim>\<open>negotiation.go\<close>, \<^verbatim>\<open>transfer.go\<close>, \<^verbatim>\<open>catalog.go\<close>,
    \<^verbatim>\<open>error.go\<close>, \<^verbatim>\<open>callback.go\<close>, the clients): the documents, and what the handlers share.
  \<^item> \<open>Negotiation\<close>, \<open>NegotiationConsumer\<close> (\<^verbatim>\<open>negotiation_handler.go\<close>,
    \<^verbatim>\<open>negotiation_consumer_handler.go\<close>); \<open>Transfers\<close>, \<open>TransferConsumer\<close> (\<^verbatim>\<open>transfer_handler.go\<close>,
    \<^verbatim>\<open>transfer_consumer_handler.go\<close>): the handlers and goroutines of both roles.
  \<^item> \<open>DataPlane\<close>, \<open>Ranges\<close> (\<^verbatim>\<open>data_handler.go\<close>), \<open>Pull\<close>, \<open>IdleReader\<close> (\<^verbatim>\<open>transfer_consumer_handler.go\<close>,
    \<^verbatim>\<open>idle_reader.go\<close>): serving bytes and downloading them.
  \<^item> \<open>CatalogProtocol\<close> (\<^verbatim>\<open>catalog.go\<close>, \<^verbatim>\<open>catalog_handler.go\<close>, \<^verbatim>\<open>catalog_client.go\<close>, \<^verbatim>\<open>version.go\<close>),
    \<open>Management\<close> (\<^verbatim>\<open>internal/mgmt/router.go\<close>), \<open>Callback\<close> (the guard in \<^verbatim>\<open>callback.go\<close>).
  \<^item> \<open>Token\<close>, \<open>Roster\<close>, \<open>Keys\<close>, \<open>DidWeb\<close> (\<^verbatim>\<open>internal/auth\<close>): credentials, the signed roster, key files,
    resolving identifiers.
  \<^item> \<open>Connector\<close> (\<^verbatim>\<open>router.go\<close>, \<^verbatim>\<open>auth_middleware.go\<close>): the two route tables, the credential check, and the
    programs a request can start; \<open>Startup\<close>, \<open>Process\<close> (\<^verbatim>\<open>cmd/dsbox\<close>): the process around it.
  \<^item> \<open>Wire\<close> (\<^verbatim>\<open>error.go\<close> and the struct tags of the documents): what is sent as JSON, with the locale
    \<open>wire_format\<close>, interpreted on each pair of a document one side writes and a document the other
    side reads; \<open>Dialogue\<close>: two connectors that answer each other's requests.
  \<^item> \<open>Operator\<close> (\<^verbatim>\<open>cmd/dsops\<close>), \<open>MdScript\<close> (\<^verbatim>\<open>cmd/mdscript\<close>), \<open>TckGate\<close> (\<^verbatim>\<open>cmd/tckgate\<close>): the other commands.

  \<^bold>\<open>What is proved.\<close>

  \<^item> Of the system as a whole, in this theory.  \<open>Lifecycle\<close> states how records may change
    (\<open>evolves\<close>), \<open>Guarantee\<close> what every row satisfies (\<open>conn_invar\<close>) and whose rows a message may touch
    (\<open>only_touches\<close>).  The locale \<open>rely_guarantee\<close> of \<open>Effects\<close> turns \<open>safe\<close>, a judgement on one program,
    into an invariant of all interleavings; it is interpreted twice, for the invariant and for the
    isolation of participants.  \<open>Statements\<close> has a rule of \<open>safe\<close> for each statement, with what the
    handler then knows of a record, and each handler theory shows its handlers \<open>safe\<close> with them.
    \<open>OutgoingAddresses\<close> does the same for the addresses dialled.
  \<^item> Of one handler or goroutine run alone: \<open>NegotiationRuns\<close>, \<open>TransferRuns\<close>, \<open>CatalogRuns\<close> and
    \<open>DownloadLimits\<close>, about what is answered, sent and stored on each branch, whatever the other side
    answers; a download composes the data endpoint of one connector with the pull of another.
  \<^item> Of two connectors together: in \<open>Dialogue\<close> every request one of them sends is answered by the
    protocol router of the other, its document as it is on the wire, and \<open>always_talk\<close> is the weakest
    precondition of one goroutine against the other side.  \<open>Contracts\<close> takes them, stage by stage, from
    the request of the operator to FINALIZED on both sides, and \<open>Deliveries\<close> from a recorded agreement
    to the file in the consumer's download directory, and from an offer, through both, to its file
    (\<open>settled\<close> is what the negotiation leaves for the transfer to start from).  An exchange is a history of either connector (\<open>dialogue_history\<close>), so the invariants hold of it.
  \<^item> Of the process: that the invariant survives restarts with other configurations and rosters
    (\<open>Startup\<close>), and that no opening of the database loses anything (\<open>Migration\<close>).
  \<^item> Of the pure functions, in their own theories: soundness of accepted credentials, rosters,
    configurations, addresses and resolved keys, round trips between what is written and read, and
    the two tools as equivalences with a reference definition.

  \<open>Demonstration\<close> is a connector with a history; the theorems with hypotheses are applied to it, or to
  an example beside them.

  \<^bold>\<open>Bounds.\<close>  The credential theorems hold for clocks below \<open>2 ^ 62\<close> seconds (\<open>clock_ok\<close>), those of
  downloads for files below \<open>2 ^ 63\<close> bytes, which is what the file system can hold; the overflows of
  the arithmetic itself are in the model.  The exchanges of \<open>Contracts\<close> and \<open>Deliveries\<close>
  take place within the lifetime of a credential (\<open>one_moment\<close>) and end in four and in three turns;
  there the goroutine that pulls takes its turn after the one that sent the start message, and
  \<open>a_pull_before_the_start_is_recorded_fails\<close> is the other order.

  \<^bold>\<open>Parameters and what is not modelled.\<close>  The signature scheme, PEM and PKCS#8, the text of JSON and
  YAML documents (a document is the value in it), \<^verbatim>\<open>url.Parse\<close>, \<^verbatim>\<open>net.ParseIP\<close>, \<^verbatim>\<open>time.ParseDuration\<close>
  and the resolver are parameters, with their documented laws as hypotheses where a theorem needs
  them.  SQLite is the statements' outcomes: its keys are in the statements, its constraints, pragmas
  and files are not.  Sockets, TLS, the limits and timeouts of \<^verbatim>\<open>net/http\<close> and the log are left
  out: a response is what the handler hands over, a reply what the client gets.  A panic of the
  runtime and the exhaustion of memory are not behaviours of the model.  The pause of a
  goroutine is a point where others may run, for any time; the shutdown of the process may stop
  every program at any point, which the closure \<open>life\<close> of \<open>Startup\<close> covers.
\<close>

section \<open>The connector, whatever is interleaved\<close>

text \<open>
  C1. From any store that satisfies the connector's invariant, whatever messages arrive on the two
  listeners, however the handlers and their goroutines interleave, and whatever the counterparties,
  the disk and the database answer, every later store satisfies it again and is an evolution of
  the first: no record is lost, and each has moved along the edges of its state machine only.
\<close>

theorem connector_invariant:
  assumes "conn_invar (newHandler c) (db w)"
    and "reachable (message c) (w, [], tr) (w', ps, tr')"
  shows "conn_invar (newHandler c) (db w') \<and> evolves (db w) (db w')"
  using reachable_promise(2) [OF assms(2) start_safe [OF assms(1)]] by (simp add: rely_def)

theorem connector_invariant_witness:
  "conn_invar (newHandler demo_connector) (db (snd (snd demo_1))) \<and>
   evolves (db demo_world) (db (snd (snd demo_1)))"
  by (rule connector_invariant [OF demo_invar demo_history(1)])

text \<open>
  C15. A record that has reached a terminal state (FINALIZED or TERMINATED for a negotiation, in
  either role; COMPLETED or TERMINATED for a transfer, in either role) is in that state for ever.
\<close>

theorem terminal_states_are_final:
  assumes "conn_invar (newHandler c) (db w)"
    and "reachable (message c) (w, [], tr) (w1, ps1, tr1)"
    and "reachable (message c) (w1, ps1, tr1) (w2, ps2, tr2)"
  shows "(\<forall>n. find_negotiation k (db w1) = Some n \<longrightarrow> n_State n \<in> {StateFinalized, StateTerminated} \<longrightarrow>
        map_option n_State (find_negotiation k (db w2)) = Some (n_State n)) \<and>
      (\<forall>m. find_consumer k (db w1) = Some m \<longrightarrow> c_State m \<in> {StateFinalized, StateTerminated} \<longrightarrow>
        map_option c_State (find_consumer k (db w2)) = Some (c_State m)) \<and>
      (\<forall>t. find_transfer k (db w1) = Some t \<longrightarrow> t_State t \<in> {TransferCompleted, TransferTerminated} \<longrightarrow>
        map_option t_State (find_transfer k (db w2)) = Some (t_State t)) \<and>
      (\<forall>u. find_consumer_transfer k (db w1) = Some u \<longrightarrow>
        ct_State u \<in> {TransferCompleted, TransferTerminated} \<longrightarrow>
        map_option ct_State (find_consumer_transfer k (db w2)) = Some (ct_State u))"
proof -
  have "evolves (db w1) (db w2)"
    using reachable_promise(2) [OF assms(3) reachable_promise(1) [OF assms(2) start_safe [OF assms(1)]]]
    by (simp add: rely_def)
  then show ?thesis by (intro conjI allI impI evolves_terminal)
qed

theorem terminal_states_are_final_witness:
  "map_option n_State (find_negotiation ''n0'' (db (snd (snd demo_1)))) = Some ''FINALIZED''"
  using terminal_states_are_final [OF demo_invar reachable.start demo_history(1), of "''n0''"] demo_rows(1)
  by (simp add: demo_finalized_def state_defs)





text \<open>
  C18. In every reachable store, with authentication on, the counterparty of a consumer-role
  negotiation is a participant the roster lists, and the address this connector dials for it is
  the one the roster lists for that participant, whatever address the request named.
\<close>

theorem consumer_counterparties_are_listed:
  assumes "conn_invar (newHandler c) (db w)"
    and "reachable (message c) (w, [], tr) (w', ps, tr')" and "AuthRequired (cn_cfg c)"
  shows "(\<forall>k m. find_consumer k (db w') = Some m \<longrightarrow> KeyFor (cn_roster c) (c_CounterpartyID m) \<noteq> None \<and>
      AddressFor (cn_roster c) (c_CounterpartyID m) = Some (c_ProviderBaseURL m)) \<and>
    (\<forall>k u. find_consumer_transfer k (db w') = Some u \<longrightarrow>
      KeyFor (cn_roster c) (ct_CounterpartyID u) \<noteq> None \<and>
      AddressFor (cn_roster c) (ct_CounterpartyID u) = Some (ct_ProviderBaseURL u))"
  using conn_invarD(3,6) [OF reachable_invar [OF assms(1,2)]] assms(3)
  by (fastforce simp: consumer_ok_def consumer_transfer_ok_def listed_def newHandler_def Let_def)

theorem consumer_counterparties_are_listed_witness:
  "AddressFor (cn_roster demo_connector) (c_CounterpartyID demo_verified) = Some (c_ProviderBaseURL demo_verified) \<and>
   AddressFor (cn_roster demo_connector) (ct_CounterpartyID demo_pull) = Some (ct_ProviderBaseURL demo_pull)"
  using consumer_counterparties_are_listed [OF demo_invar reachable.start] demo_rows(4,5)
  by (simp add: demo_connector_def demo_cfg_def AuthRequired_def)

text \<open>
  C19. In every reachable store, a consumer-role negotiation is AGREED, VERIFIED or FINALIZED only
  when the agreement its provider sent is recorded, for this process and this counterparty.
\<close>

theorem agreed_negotiations_are_recorded:
  assumes "conn_invar (newHandler c) (db w)"
    and "reachable (message c) (w, [], tr) (w', ps, tr')"
    and "find_consumer k (db w') = Some m" and "c_State m \<in> {StateAgreed, StateVerified, StateFinalized}"
  shows "\<exists>aid a. find_agreement aid (db w') = Some a \<and> a_Origin a = OriginAgreed \<and>
    a_ConsumerPID a = k \<and> a_CounterpartyID a = c_CounterpartyID m"
  using conn_invarD(3) [OF reachable_invar [OF assms(1,2)] assms(3)] assms(4) select_row_key [OF assms(3)]
  by (auto simp: consumer_ok_def)

theorem agreed_negotiations_are_recorded_witness:
  "\<exists>aid a. find_agreement aid (db demo_world) = Some a \<and> a_Origin a = OriginAgreed \<and>
     a_ConsumerPID a = ''m0'' \<and> a_CounterpartyID a = ''c''"
  using agreed_negotiations_are_recorded [OF demo_invar reachable.start demo_rows(5)]
  by (simp add: demo_verified_def state_defs)

section \<open>Who may do what\<close>

text \<open>
  C2. With authentication on, the messages one participant signs, however many, in whatever order
  and with whatever goroutines they start, change nothing of the negotiations, agreements and
  transfers this connector has with the other participants.
\<close>

theorem participants_are_isolated:
  assumes "conn_invar (newHandler c) (db w)" and "AuthRequired (cn_cfg c)"
    and "reachable (message_from c p) (w, [], tr) (w', ps, tr')"
  shows "only_touches p (db w) (db w')"
proof -
  have "acts_for (newHandler c) p w w'"
    using own.reachable_all_safe [OF assms(3) start_own [OF assms(1)]] safe_message_from by fastforce
  then show ?thesis using assms(2) by (simp add: acts_for_def)
qed

theorem participants_are_isolated_witness:
  "only_touches ''c'' (db demo_world) (db (snd (snd demo_1)))"
  by (rule participants_are_isolated [OF demo_invar _ demo_history(2)])
    (simp add: demo_connector_def demo_cfg_def AuthRequired_def)



text \<open>
  C20. A management request without the operator's token is answered 401 and does nothing else,
  whatever the route; only the health probe is open.  An empty configured token admits nobody.
\<close>

theorem management_needs_the_token:
  assumes "MgmtToken (cn_cfg c) = '''' \<or> cutBearerPrefix (rq_Authorization r) \<noteq> Some (MgmtToken (cn_cfg c))"
    and "path \<noteq> [''health'']"
  shows "\<exists>rsp. run (management_router c m path r) a w = ([Answered rsp], [], w) \<and>
    status_of rsp \<in> {401, 404, 405}"
  using management_refuses [OF assms] by simp

theorem management_needs_the_token_witness:
  "\<exists>rsp. run (management_router demo_connector ''POST'' [''agreements'']
       (demo_request\<lparr>rq_Authorization := ''''\<rparr>)) (\<lambda>i. demo_answer) demo_world = ([Answered rsp], [], demo_world) \<and> status_of rsp \<in> {401, 404, 405}"
  by (rule management_needs_the_token)
    (simp_all add: demo_connector_def demo_cfg_def cutBearerPrefix_def bearerPrefix_def)

text \<open>
  C21. Every request on either listener, on every path through its handler, is answered exactly once.
\<close>

theorem every_request_is_answered_once:
  "length (answered (fst (run (protocol_router c m path r) a w))) = 1 \<and>
   length (answered (fst (run (management_router c m path r) a w))) = 1"
proof -
  have "message c (protocol_router c m path r)" "message c (management_router c m path r)"
    by (auto simp: message_def)
  then show ?thesis using responds_run [OF responds_message] by simp
qed

end
